theory Spec2Isabelle
  imports Complex_Main
begin

section \<open>Exceptions\<close>

text \<open>
  The Python exceptions that the modelled functions raise.  A function that can raise
  returns \<open>error + 'a\<close>, with \<open>Inl\<close> for the exception.
\<close>

datatype error =
    ValueError
  | KeyError
  | TypeError
  | IndexError
  | AttributeError
  | ConfigError
  | FileNotFoundError

section \<open>Model configuration (models.py)\<close>

text \<open>
  The values a parameter dictionary can hold: the dictionary \<open>cfg.params\<close> is read from a
  configuration file, so its entries are integers, floats, booleans, strings, null, lists
  and nested dictionaries.  A float is an exact rational here.
\<close>

datatype pval =
    PInt int
  | PFloat rat
  | PBool bool
  | PStr string
  | PNone
  | PList "pval list"
  | PDict "(string \<times> pval) list"

text \<open>
  Modelled from the spec: \<open>config.ModelConfig\<close> is not part of the sources.  The spec
  describes it as a declarative configuration holding the architecture type and the
  hyperparameters; models.py reads \<open>cfg.model_type\<close> and \<open>cfg.params\<close>.
\<close>

record model_config =
  model_type :: string
  params :: pval

text \<open>
  A network is recorded as the list of layers in the order the source creates them.
  The arguments that come from the configuration are kept as they are.
\<close>

datatype layer =
    InputLayer "nat list"
  | LSTM pval bool "pval option"
  | Dense nat
  | DenseRelu nat
  | TimeDistributedConv2D pval
  | TimeDistributedMaxPooling2D
  | TimeDistributedGlobalMaxPooling2D
  | ConvLSTM2D pval bool
  | MaxPooling3D
  | GlobalMaxPooling2D
  | Conv3D pval
  | GlobalMaxPooling3D
  | Concatenate

text \<open>The input shape: a tuple of sizes, or a list of such tuples for a model with
  several inputs.\<close>

datatype shape = Dim nat | Tuple "shape list"

text \<open>An entry of a network: an input with its shape, or a layer.\<close>

datatype net_layer =
    Input shape
  | Layer layer

datatype model_class =
    LstmModel
  | CnnLstmModel
  | MultiInputCnnLstmModel
  | ConvLstmModel
  | Conv3DModel

text \<open>
  An instance of a subclass of \<open>AbstractModel\<close>: its class, the configuration stored by
  \<open>__init__\<close> and the network, which is \<open>None\<close> until \<open>build\<close> has run.
\<close>

record model_instance =
  cls :: model_class
  config :: model_config
  net :: "net_layer list option"

definition init_model :: "model_class \<Rightarrow> model_config \<Rightarrow> model_instance" where
  "init_model c cfg = \<lparr>cls = c, config = cfg, net = None\<rparr>"

definition factory :: "model_config \<Rightarrow> error + model_instance" where
  "factory cfg =
     (if model_type cfg = ''lstm'' then Inr (init_model LstmModel cfg)
      else if model_type cfg = ''cnn-lstm'' then Inr (init_model CnnLstmModel cfg)
      else if model_type cfg = ''multi-cnn-lstm'' then Inr (init_model MultiInputCnnLstmModel cfg)
      else if model_type cfg = ''convlstm'' then Inr (init_model ConvLstmModel cfg)
      else if model_type cfg = ''conv3d'' then Inr (init_model Conv3DModel cfg)
      else Inl ValueError)"

subsection \<open>Python operations on parameter values\<close>

text \<open>\<open>d[key]\<close> for a string key: a missing key raises KeyError, a value that is not a
  dictionary raises TypeError.\<close>

fun dict_get :: "pval \<Rightarrow> string \<Rightarrow> error + pval" where
  "dict_get (PDict kvs) k = (case map_of kvs k of None \<Rightarrow> Inl KeyError | Some v \<Rightarrow> Inr v)"
| "dict_get _ k = Inl TypeError"

text \<open>\<open>len(v)\<close>: defined on lists, strings and dictionaries, a TypeError otherwise.\<close>

fun py_len :: "pval \<Rightarrow> error + int" where
  "py_len (PList xs) = Inr (int (length xs))"
| "py_len (PStr s) = Inr (int (length s))"
| "py_len (PDict kvs) = Inr (int (length kvs))"
| "py_len _ = Inl TypeError"

text \<open>\<open>n != v\<close> for an integer \<open>n\<close>: numbers compare by value (\<open>2 != 2.0\<close> is false,
  \<open>1 != True\<close> is false), and an integer differs from every value that is not a number.\<close>

fun py_ne :: "int \<Rightarrow> pval \<Rightarrow> bool" where
  "py_ne n (PInt h) = (n \<noteq> h)"
| "py_ne n (PFloat q) = (of_int n \<noteq> q)"
| "py_ne n (PBool b) = (n \<noteq> (if b then 1 else 0))"
| "py_ne n _ = True"

text \<open>\<open>isinstance(v, int)\<close>: \<open>bool\<close> is a subclass of \<open>int\<close>.\<close>

fun isinstance_int :: "pval \<Rightarrow> bool" where
  "isinstance_int (PInt h) = True"
| "isinstance_int (PBool b) = True"
| "isinstance_int _ = False"

text \<open>The integer value of an instance of \<open>int\<close>; \<open>None\<close> for every other value.\<close>

fun int_value :: "pval \<Rightarrow> int option" where
  "int_value (PInt h) = Some h"
| "int_value (PBool b) = Some (if b then 1 else 0)"
| "int_value _ = None"

text \<open>\<open>xs[i]\<close> on a Python sequence: a negative index counts from the end, an index out
  of range raises IndexError.\<close>

definition py_index :: "'a list \<Rightarrow> int \<Rightarrow> error + 'a" where
  "py_index xs i =
     (if 0 \<le> i \<and> i < int (length xs) then Inr (xs ! nat i)
      else if i < 0 \<and> 0 \<le> int (length xs) + i then Inr (xs ! nat (int (length xs) + i))
      else Inl IndexError)"

text \<open>\<open>v[i]\<close> for an integer \<open>i\<close>: an element of a list, a character of a string, a
  KeyError on a dictionary (its keys are strings), a TypeError otherwise.\<close>

fun subscript :: "pval \<Rightarrow> int \<Rightarrow> error + pval" where
  "subscript (PList xs) i = py_index xs i"
| "subscript (PStr s) i = (case py_index s i of Inl e \<Rightarrow> Inl e | Inr c \<Rightarrow> Inr (PStr [c]))"
| "subscript (PDict kvs) i = Inl KeyError"
| "subscript _ i = Inl TypeError"

text \<open>The handler \<open>except KeyError as ex: raise config.ConfigError(...) from ex\<close> around a
  block: a KeyError leaves the block as a ConfigError, everything else passes.\<close>

definition except_KeyError :: "error + 'a \<Rightarrow> error + 'a" where
  "except_KeyError r = (case r of Inl KeyError \<Rightarrow> Inl ConfigError | _ \<Rightarrow> r)"

subsection \<open>Parameter validation\<close>

text \<open>\<open>LstmModel._get_and_validate_params\<close>.\<close>

definition lstm_get_and_validate_params :: "pval \<Rightarrow> error + (pval \<times> pval \<times> pval)" where
  "lstm_get_and_validate_params ps = except_KeyError
     (case dict_get ps ''lstm'' of Inl e \<Rightarrow> Inl e | Inr p \<Rightarrow>
      (case dict_get p ''hiddenLayers'' of Inl e \<Rightarrow> Inl e | Inr hidden_layers \<Rightarrow>
      (case dict_get p ''units'' of Inl e \<Rightarrow> Inl e | Inr units \<Rightarrow>
      (case py_len units of Inl e \<Rightarrow> Inl e | Inr n \<Rightarrow>
      if py_ne n hidden_layers then Inl ConfigError else
      (case dict_get p ''dropout'' of Inl e \<Rightarrow> Inl e | Inr dropout \<Rightarrow>
      (case py_len dropout of Inl e \<Rightarrow> Inl e | Inr k \<Rightarrow>
      if py_ne k hidden_layers then Inl ConfigError else
      Inr (hidden_layers, units, dropout)))))))"

text \<open>\<open>__get_and_validate_lstm_params\<close> of \<open>CnnLstmModel\<close> and of
  \<open>MultiInputCnnLstmModel\<close>: the two classes hold the same text.\<close>

definition get_and_validate_lstm_params :: "pval \<Rightarrow> error + (pval \<times> pval \<times> pval)" where
  "get_and_validate_lstm_params p = except_KeyError
     (case dict_get p ''hiddenLayers'' of Inl e \<Rightarrow> Inl e | Inr hidden_layers \<Rightarrow>
      (case dict_get p ''units'' of Inl e \<Rightarrow> Inl e | Inr units \<Rightarrow>
      if \<not> isinstance_int hidden_layers then Inl ConfigError else
      if the (int_value hidden_layers) < 0 then Inl ConfigError else
      (case py_len units of Inl e \<Rightarrow> Inl e | Inr n \<Rightarrow>
      if py_ne n hidden_layers then Inl ConfigError else
      (case dict_get p ''dropout'' of Inl e \<Rightarrow> Inl e | Inr dropout \<Rightarrow>
      (case py_len dropout of Inl e \<Rightarrow> Inl e | Inr k \<Rightarrow>
      if py_ne k hidden_layers then Inl ConfigError else
      Inr (hidden_layers, units, dropout))))))"

text \<open>\<open>__get_and_validate_cnn_params\<close> of \<open>CnnLstmModel\<close>, \<open>MultiInputCnnLstmModel\<close>,
  \<open>ConvLstmModel\<close> and \<open>Conv3DModel\<close>: the four classes hold the same text.\<close>

definition get_and_validate_cnn_params :: "pval \<Rightarrow> error + (pval \<times> pval)" where
  "get_and_validate_cnn_params p = except_KeyError
     (case dict_get p ''hiddenLayers'' of Inl e \<Rightarrow> Inl e | Inr hidden_layers \<Rightarrow>
      (case dict_get p ''filters'' of Inl e \<Rightarrow> Inl e | Inr filters \<Rightarrow>
      if \<not> isinstance_int hidden_layers then Inl ConfigError else
      if the (int_value hidden_layers) < 0 then Inl ConfigError else
      (case py_len filters of Inl e \<Rightarrow> Inl e | Inr n \<Rightarrow>
      if py_ne n hidden_layers then Inl ConfigError else
      Inr (hidden_layers, filters))))"

text \<open>The tuple a class's \<open>_get_and_validate_params\<close> returns.\<close>

datatype param_tuple =
    LstmParams pval pval pval
  | CnnLstmParams pval pval pval pval pval
  | CnnParams pval pval

text \<open>\<open>_get_and_validate_params\<close> of \<open>CnnLstmModel\<close> and \<open>MultiInputCnnLstmModel\<close>.\<close>

definition cnn_lstm_get_and_validate_params :: "pval \<Rightarrow> error + param_tuple" where
  "cnn_lstm_get_and_validate_params ps = except_KeyError
     (case dict_get ps ''cnn'' of Inl e \<Rightarrow> Inl e | Inr cnn_params \<Rightarrow>
      (case get_and_validate_cnn_params cnn_params of Inl e \<Rightarrow> Inl e
      | Inr (hidden_cnn_layers, filters) \<Rightarrow>
      (case dict_get ps ''lstm'' of Inl e \<Rightarrow> Inl e | Inr lstm_params \<Rightarrow>
      (case get_and_validate_lstm_params lstm_params of Inl e \<Rightarrow> Inl e
      | Inr (hidden_lstm_layers, units, dropout) \<Rightarrow>
      Inr (CnnLstmParams hidden_cnn_layers filters hidden_lstm_layers units dropout)))))"

text \<open>\<open>_get_and_validate_params\<close> of \<open>ConvLstmModel\<close> and \<open>Conv3DModel\<close>.\<close>

definition conv_get_and_validate_params :: "pval \<Rightarrow> error + param_tuple" where
  "conv_get_and_validate_params ps = except_KeyError
     (case dict_get ps ''cnn'' of Inl e \<Rightarrow> Inl e | Inr cnn_params \<Rightarrow>
      (case get_and_validate_cnn_params cnn_params of Inl e \<Rightarrow> Inl e
      | Inr (hidden_cnn_layers, filters) \<Rightarrow> Inr (CnnParams hidden_cnn_layers filters)))"

text \<open>The call \<open>self._get_and_validate_params(...)\<close>, dispatched on the class of
  \<open>self\<close>.\<close>

fun get_and_validate_params :: "model_class \<Rightarrow> pval \<Rightarrow> error + param_tuple" where
  "get_and_validate_params LstmModel ps =
     (case lstm_get_and_validate_params ps of Inl e \<Rightarrow> Inl e
      | Inr (h, u, d) \<Rightarrow> Inr (LstmParams h u d))"
| "get_and_validate_params CnnLstmModel ps = cnn_lstm_get_and_validate_params ps"
| "get_and_validate_params MultiInputCnnLstmModel ps = cnn_lstm_get_and_validate_params ps"
| "get_and_validate_params ConvLstmModel ps = conv_get_and_validate_params ps"
| "get_and_validate_params Conv3DModel ps = conv_get_and_validate_params ps"

subsection \<open>Building the network\<close>

text \<open>\<open>input_shape[i]\<close>.\<close>

fun shape_index :: "shape \<Rightarrow> int \<Rightarrow> error + shape" where
  "shape_index (Tuple xs) i = py_index xs i"
| "shape_index (Dim n) i = Inl TypeError"

text \<open>\<open>range(0, hidden_layers - 1)\<close>: the subtraction and \<open>range\<close> need an instance of
  \<open>int\<close>; a float reaches \<open>range\<close> and raises a TypeError there, as does the subtraction
  on every other value.\<close>

definition range_upto_pred :: "pval \<Rightarrow> error + int list" where
  "range_upto_pred hidden_layers =
     (case int_value hidden_layers of None \<Rightarrow> Inl TypeError
      | Some h \<Rightarrow> Inr (map int [0..<nat (h - 1)]))"

text \<open>\<open>hidden_layers - 1\<close> used as an index.  After \<open>range\<close> has accepted the value it
  is an instance of \<open>int\<close>.\<close>

definition last_index :: "pval \<Rightarrow> error + int" where
  "last_index hidden_layers =
     (case int_value hidden_layers of None \<Rightarrow> Inl TypeError | Some h \<Rightarrow> Inr (h - 1))"

text \<open>The loop \<open>for i in range(...): model.add(LSTM(units[i], return_sequences=True,
  dropout=dropout[i], use_bias=True))\<close>, as a recursion over the indices.\<close>

fun lstm_loop :: "pval \<Rightarrow> pval \<Rightarrow> int list \<Rightarrow> error + layer list" where
  "lstm_loop units dropout [] = Inr []"
| "lstm_loop units dropout (i # idxs) =
     (case subscript units i of Inl e \<Rightarrow> Inl e | Inr u \<Rightarrow>
      (case subscript dropout i of Inl e \<Rightarrow> Inl e | Inr d \<Rightarrow>
       (case lstm_loop units dropout idxs of Inl e \<Rightarrow> Inl e
        | Inr ls \<Rightarrow> Inr (LSTM u True (Some d) # ls))))"

text \<open>The loops over the convolutional layers: each step adds a convolution with
  \<open>filters[i]\<close> and a pooling layer.\<close>

fun conv_loop :: "(pval \<Rightarrow> layer list) \<Rightarrow> pval \<Rightarrow> int list \<Rightarrow> error + layer list" where
  "conv_loop step filters [] = Inr []"
| "conv_loop step filters (i # idxs) =
     (case subscript filters i of Inl e \<Rightarrow> Inl e | Inr f \<Rightarrow>
      (case conv_loop step filters idxs of Inl e \<Rightarrow> Inl e
       | Inr ls \<Rightarrow> Inr (step f @ ls)))"

text \<open>The closing \<open>Dense\<close> layer: one unit when \<open>output_size\<close> is \<open>None\<close>.\<close>

definition dense_out :: "nat option \<Rightarrow> layer" where
  "dense_out output_size = (case output_size of None \<Rightarrow> Dense 1 | Some n \<Rightarrow> Dense n)"

text \<open>\<open>LstmModel._build_model\<close>.\<close>

definition lstm_build_model ::
  "shape \<Rightarrow> pval \<times> pval \<times> pval \<Rightarrow> nat option \<Rightarrow> error + net_layer list" where
  "lstm_build_model input_shape ps output_size =
     (case ps of (hidden_layers, units, dropout) \<Rightarrow>
      (case range_upto_pred hidden_layers of Inl e \<Rightarrow> Inl e | Inr idxs \<Rightarrow>
       (case lstm_loop units dropout idxs of Inl e \<Rightarrow> Inl e | Inr ls \<Rightarrow>
        (case last_index hidden_layers of Inl e \<Rightarrow> Inl e | Inr j \<Rightarrow>
         (case subscript units j of Inl e \<Rightarrow> Inl e | Inr u \<Rightarrow>
          (case subscript dropout j of Inl e \<Rightarrow> Inl e | Inr d \<Rightarrow>
           Inr (Input input_shape # map Layer
                  (ls @ [LSTM u False (Some d), dense_out output_size]))))))))"

text \<open>\<open>CnnLstmModel._build_model\<close>.  Its last LSTM layer is given no dropout.\<close>

definition cnn_lstm_build_model ::
  "shape \<Rightarrow> pval \<times> pval \<times> pval \<times> pval \<times> pval \<Rightarrow> nat option \<Rightarrow> error + net_layer list" where
  "cnn_lstm_build_model input_shape ps output_size =
     (case ps of (hidden_cnn_layers, filters, hidden_lstm_layers, units, dropout) \<Rightarrow>
      (case range_upto_pred hidden_cnn_layers of Inl e \<Rightarrow> Inl e | Inr cs \<Rightarrow>
       (case conv_loop (\<lambda>f. [TimeDistributedConv2D f, TimeDistributedMaxPooling2D]) filters cs
        of Inl e \<Rightarrow> Inl e | Inr cl \<Rightarrow>
        (case last_index hidden_cnn_layers of Inl e \<Rightarrow> Inl e | Inr c \<Rightarrow>
         (case subscript filters c of Inl e \<Rightarrow> Inl e | Inr f \<Rightarrow>
          (case range_upto_pred hidden_lstm_layers of Inl e \<Rightarrow> Inl e | Inr idxs \<Rightarrow>
           (case lstm_loop units dropout idxs of Inl e \<Rightarrow> Inl e | Inr ls \<Rightarrow>
            (case last_index hidden_lstm_layers of Inl e \<Rightarrow> Inl e | Inr j \<Rightarrow>
             (case subscript units j of Inl e \<Rightarrow> Inl e | Inr u \<Rightarrow>
              Inr (Input input_shape # map Layer
                     (cl @ [TimeDistributedConv2D f, TimeDistributedGlobalMaxPooling2D]
                      @ ls @ [LSTM u False None, dense_out output_size])))))))))))"

text \<open>\<open>MultiInputCnnLstmModel._build_model\<close>: an LSTM branch on \<open>input_shape[0]\<close>, a
  CNN-LSTM branch on \<open>input_shape[1]\<close>, their concatenation, and two dense layers; the
  output size is not used.\<close>

definition multi_build_model ::
  "shape \<Rightarrow> pval \<times> pval \<times> pval \<times> pval \<times> pval \<Rightarrow> nat option \<Rightarrow> error + net_layer list" where
  "multi_build_model input_shape ps output_size =
     (case ps of (hidden_cnn_layers, filters, hidden_lstm_layers, lstm_units, lstm_dropout) \<Rightarrow>
      (case shape_index input_shape 0 of Inl e \<Rightarrow> Inl e | Inr s0 \<Rightarrow>
       (case range_upto_pred hidden_lstm_layers of Inl e \<Rightarrow> Inl e | Inr idxs \<Rightarrow>
        (case lstm_loop lstm_units lstm_dropout idxs of Inl e \<Rightarrow> Inl e | Inr ls \<Rightarrow>
         (case last_index hidden_lstm_layers of Inl e \<Rightarrow> Inl e | Inr j \<Rightarrow>
          (case subscript lstm_units j of Inl e \<Rightarrow> Inl e | Inr u \<Rightarrow>
           (case subscript lstm_dropout j of Inl e \<Rightarrow> Inl e | Inr d \<Rightarrow>
            (case shape_index input_shape 1 of Inl e \<Rightarrow> Inl e | Inr s1 \<Rightarrow>
             (case range_upto_pred hidden_cnn_layers of Inl e \<Rightarrow> Inl e | Inr cs \<Rightarrow>
              (case conv_loop (\<lambda>f. [TimeDistributedConv2D f, TimeDistributedMaxPooling2D])
                      filters cs
               of Inl e \<Rightarrow> Inl e | Inr cl \<Rightarrow>
               (case last_index hidden_cnn_layers of Inl e \<Rightarrow> Inl e | Inr c \<Rightarrow>
                (case subscript filters c of Inl e \<Rightarrow> Inl e | Inr f \<Rightarrow>
                 Inr (Input s0 # map Layer (ls @ [LSTM u False (Some d)])
                      @ Input s1 # map Layer
                          (cl @ [TimeDistributedConv2D f, TimeDistributedGlobalMaxPooling2D]
                           @ ls @ [LSTM u False (Some d)]
                           @ [Concatenate, DenseRelu 64, Dense 1]))))))))))))))"

text \<open>\<open>ConvLstmModel._build_model\<close>.\<close>

definition conv_lstm_build_model ::
  "shape \<Rightarrow> pval \<times> pval \<Rightarrow> nat option \<Rightarrow> error + net_layer list" where
  "conv_lstm_build_model input_shape ps output_size =
     (case ps of (hidden_cnn_layers, filters) \<Rightarrow>
      (case range_upto_pred hidden_cnn_layers of Inl e \<Rightarrow> Inl e | Inr cs \<Rightarrow>
       (case conv_loop (\<lambda>f. [ConvLSTM2D f True, MaxPooling3D]) filters cs
        of Inl e \<Rightarrow> Inl e | Inr cl \<Rightarrow>
        (case last_index hidden_cnn_layers of Inl e \<Rightarrow> Inl e | Inr c \<Rightarrow>
         (case subscript filters c of Inl e \<Rightarrow> Inl e | Inr f \<Rightarrow>
          Inr (Input input_shape # map Layer
                 (cl @ [ConvLSTM2D f False, GlobalMaxPooling2D, dense_out output_size])))))))"

text \<open>\<open>Conv3DModel._build_model\<close>.\<close>

definition conv3d_build_model ::
  "shape \<Rightarrow> pval \<times> pval \<Rightarrow> nat option \<Rightarrow> error + net_layer list" where
  "conv3d_build_model input_shape ps output_size =
     (case ps of (hidden_cnn_layers, filters) \<Rightarrow>
      (case range_upto_pred hidden_cnn_layers of Inl e \<Rightarrow> Inl e | Inr cs \<Rightarrow>
       (case conv_loop (\<lambda>f. [Conv3D f, MaxPooling3D]) filters cs
        of Inl e \<Rightarrow> Inl e | Inr cl \<Rightarrow>
        (case last_index hidden_cnn_layers of Inl e \<Rightarrow> Inl e | Inr c \<Rightarrow>
         (case subscript filters c of Inl e \<Rightarrow> Inl e | Inr f \<Rightarrow>
          Inr (Input input_shape # map Layer
                 (cl @ [Conv3D f, GlobalMaxPooling3D, dense_out output_size])))))))"

text \<open>The call \<open>self._build_model(...)\<close>, dispatched on the class of \<open>self\<close>.  Unpacking
  a tuple of the wrong length cannot happen: each class builds from the tuple its own
  validation returned.\<close>

fun build_model ::
  "model_class \<Rightarrow> shape \<Rightarrow> param_tuple \<Rightarrow> nat option \<Rightarrow> error + net_layer list" where
  "build_model LstmModel s (LstmParams h u d) out = lstm_build_model s (h, u, d) out"
| "build_model CnnLstmModel s (CnnLstmParams c f h u d) out =
     cnn_lstm_build_model s (c, f, h, u, d) out"
| "build_model MultiInputCnnLstmModel s (CnnLstmParams c f h u d) out =
     multi_build_model s (c, f, h, u, d) out"
| "build_model ConvLstmModel s (CnnParams c f) out = conv_lstm_build_model s (c, f) out"
| "build_model Conv3DModel s (CnnParams c f) out = conv3d_build_model s (c, f) out"
| "build_model _ s _ out = Inl ValueError"

text \<open>\<open>AbstractModel.build\<close>: validate the parameters of the stored configuration, then
  build the network and store it.\<close>

definition build :: "model_instance \<Rightarrow> shape \<Rightarrow> nat option \<Rightarrow> error + model_instance" where
  "build m input_shape output_size =
     (case get_and_validate_params (cls m) (params (config m)) of Inl e \<Rightarrow> Inl e
      | Inr param_tuple \<Rightarrow>
        (case build_model (cls m) input_shape param_tuple output_size of Inl e \<Rightarrow> Inl e
         | Inr layers \<Rightarrow> Inr (m\<lparr>net := Some layers\<rparr>)))"

subsection \<open>When the specification expects a ConfigError\<close>

text \<open>
  The conditions under which the specification says that \<open>build\<close> raises a
  ConfigError, written from its words (and from the class docstrings for the keys of each
  model type), to be compared with what \<open>build\<close> does.
\<close>

text \<open>The required parameter keys of a model type, each with the section it is in.\<close>

fun required_keys :: "model_class \<Rightarrow> (string \<times> string) list" where
  "required_keys LstmModel =
     [(''lstm'', ''hiddenLayers''), (''lstm'', ''units''), (''lstm'', ''dropout'')]"
| "required_keys CnnLstmModel =
     [(''cnn'', ''hiddenLayers''), (''cnn'', ''filters''),
      (''lstm'', ''hiddenLayers''), (''lstm'', ''units''), (''lstm'', ''dropout'')]"
| "required_keys MultiInputCnnLstmModel =
     [(''cnn'', ''hiddenLayers''), (''cnn'', ''filters''),
      (''lstm'', ''hiddenLayers''), (''lstm'', ''units''), (''lstm'', ''dropout'')]"
| "required_keys ConvLstmModel = [(''cnn'', ''hiddenLayers''), (''cnn'', ''filters'')]"
| "required_keys Conv3DModel = [(''cnn'', ''hiddenLayers''), (''cnn'', ''filters'')]"

text \<open>The per-layer lists (units, dropout, filters) of a model type.\<close>

definition layer_lists :: "model_class \<Rightarrow> (string \<times> string) list" where
  "layer_lists c = filter (\<lambda>(sec, k). k \<noteq> ''hiddenLayers'') (required_keys c)"

text \<open>The sections whose \<open>hiddenLayers\<close> entry the validation of a model type checks for
  its type and sign: those read by the CNN variants.\<close>

definition guarded_sections :: "model_class \<Rightarrow> string list" where
  "guarded_sections c =
     (if c = LstmModel then [] else remdups (map fst (required_keys c)))"

text \<open>\<open>params[section][key]\<close> when both keys are there.\<close>

definition lookup2 :: "pval \<Rightarrow> string \<Rightarrow> string \<Rightarrow> pval option" where
  "lookup2 ps sec k =
     (case dict_get ps sec of Inl e \<Rightarrow> None
      | Inr p \<Rightarrow> (case dict_get p k of Inl e \<Rightarrow> None | Inr v \<Rightarrow> Some v))"

definition required_key_missing :: "model_class \<Rightarrow> pval \<Rightarrow> bool" where
  "required_key_missing c ps =
     list_ex (\<lambda>(sec, k). lookup2 ps sec k = None) (required_keys c)"

definition layer_list_length_differs :: "model_class \<Rightarrow> pval \<Rightarrow> bool" where
  "layer_list_length_differs c ps =
     list_ex (\<lambda>(sec, k).
        case lookup2 ps sec k of None \<Rightarrow> False
        | Some v \<Rightarrow>
           (case lookup2 ps sec ''hiddenLayers'' of None \<Rightarrow> False
            | Some h \<Rightarrow> (case py_len v of Inl e \<Rightarrow> False | Inr n \<Rightarrow> py_ne n h)))
       (layer_lists c)"

definition hidden_layers_rejected :: "model_class \<Rightarrow> pval \<Rightarrow> bool" where
  "hidden_layers_rejected c ps =
     list_ex (\<lambda>sec.
        case lookup2 ps sec ''hiddenLayers'' of None \<Rightarrow> False
        | Some h \<Rightarrow> (if isinstance_int h then the (int_value h) < 0 else True))
       (guarded_sections c)"

fun is_dict :: "pval \<Rightarrow> bool" where
  "is_dict (PDict kvs) = True"
| "is_dict _ = False"

fun is_list :: "pval \<Rightarrow> bool" where
  "is_list (PList xs) = True"
| "is_list _ = False"

text \<open>A parameter dictionary of the documented shape: a dictionary whose sections, where
  present, are dictionaries and whose per-layer entries, where present, are lists.  The
  \<open>hiddenLayers\<close> entry can be any value.\<close>

definition well_shaped :: "model_class \<Rightarrow> pval \<Rightarrow> bool" where
  "well_shaped c ps =
     (is_dict ps \<and>
      list_all (\<lambda>sec. case dict_get ps sec of Inl e \<Rightarrow> True | Inr p \<Rightarrow> is_dict p)
        (map fst (required_keys c)) \<and>
      list_all (\<lambda>(sec, k). case lookup2 ps sec k of None \<Rightarrow> True | Some v \<Rightarrow> is_list v)
        (layer_lists c))"

text \<open>The exceptions that the index accesses and the arithmetic of \<open>_build_model\<close> can
  raise.\<close>

definition build_error :: "error \<Rightarrow> bool" where
  "build_error e = (e = TypeError \<or> e = IndexError \<or> e = KeyError)"

section \<open>File discovery (ioutils.py)\<close>

text \<open>
  \<open>glob.glob\<close> belongs to the standard library, and what it returns depends on the file
  system.  It is a parameter of the functions below: \<open>glob pattern\<close> is the list of paths
  that \<open>glob.glob(pattern, recursive=True)\<close> returns in the file system at hand, in the
  order in which it returns them.  Nothing is assumed about it, neither about the
  pattern language nor about the directory, so a property proved for every \<open>glob\<close>
  holds for every data directory and every basin ID, whatever characters they hold.
\<close>

text \<open>A record written to the logger, by its level.\<close>

datatype log_record = Debug | Info | Warning | Error | Critical

text \<open>\<open>discover_single_file_for_basin\<close>: the records it logs and its result.  The pattern
  is the formatted string \<open>f"{data_dir}/**/*{basin}*"\<close>.\<close>

definition discover_single_file_for_basin ::
  "(string \<Rightarrow> string list) \<Rightarrow> string \<Rightarrow> string \<Rightarrow> log_record list \<times> (error + string)" where
  "discover_single_file_for_basin glob data_dir basin =
     (let files = glob (data_dir @ ''/**/*'' @ basin @ ''*'')
      in if length files = 0 then ([], Inl FileNotFoundError)
         else (if length files > 1 then [Warning] else [], Inr (files ! 0)))"

text \<open>\<open>discover_files_for_basins\<close>: the list comprehension calls the function above for
  each basin in turn and stops at the first exception; the log records accumulate.\<close>

fun discover_files_for_basins ::
  "(string \<Rightarrow> string list) \<Rightarrow> string \<Rightarrow> string list
     \<Rightarrow> log_record list \<times> (error + string list)" where
  "discover_files_for_basins glob data_dir [] = ([], Inr [])"
| "discover_files_for_basins glob data_dir (b # basins) =
     (case discover_single_file_for_basin glob data_dir b of
        (logs, Inl e) \<Rightarrow> (logs, Inl e)
      | (logs, Inr f) \<Rightarrow>
          (case discover_files_for_basins glob data_dir basins of
             (logs', Inl e) \<Rightarrow> (logs @ logs', Inl e)
           | (logs', Inr files) \<Rightarrow> (logs @ logs', Inr (f # files))))"


section \<open>Labelled arrays (the part of xarray that processing.py uses)\<close>

subsection \<open>Values\<close>

text \<open>
  An array element: an exact rational, an infinity, or NaN (a missing value).  The
  arithmetic is that of IEEE floats without rounding and without signed zeros: a finite
  result is the exact one, \<open>x / 0\<close> is an infinity for \<open>x \<noteq> 0\<close>, and \<open>0 / 0\<close>,
  \<open>inf - inf\<close>, \<open>0 * inf\<close> and \<open>inf / inf\<close> are NaN, as is every operation on NaN.
\<close>

datatype fval = Num rat | PInf | NInf | NaN

fun fneg :: "fval \<Rightarrow> fval" where
  "fneg (Num a) = Num (- a)"
| "fneg PInf = NInf"
| "fneg NInf = PInf"
| "fneg NaN = NaN"

fun fadd :: "fval \<Rightarrow> fval \<Rightarrow> fval" where
  "fadd NaN w = NaN"
| "fadd v NaN = NaN"
| "fadd (Num a) (Num b) = Num (a + b)"
| "fadd PInf NInf = NaN"
| "fadd NInf PInf = NaN"
| "fadd PInf w = PInf"
| "fadd NInf w = NInf"
| "fadd (Num a) w = w"

definition fsub :: "fval \<Rightarrow> fval \<Rightarrow> fval" where
  "fsub v w = fadd v (fneg w)"

text \<open>The sign of a value that is not NaN.\<close>

fun fsign :: "fval \<Rightarrow> int" where
  "fsign (Num a) = (if a < 0 then - 1 else if a = 0 then 0 else 1)"
| "fsign PInf = 1"
| "fsign NInf = - 1"
| "fsign NaN = 0"

definition signed_inf :: "int \<Rightarrow> fval" where
  "signed_inf s = (if s = 0 then NaN else if s < 0 then NInf else PInf)"

fun fmul :: "fval \<Rightarrow> fval \<Rightarrow> fval" where
  "fmul NaN w = NaN"
| "fmul v NaN = NaN"
| "fmul (Num a) (Num b) = Num (a * b)"
| "fmul v w = signed_inf (fsign v * fsign w)"

fun fdiv :: "fval \<Rightarrow> fval \<Rightarrow> fval" where
  "fdiv NaN w = NaN"
| "fdiv v NaN = NaN"
| "fdiv (Num a) (Num b) = (if b = 0 then signed_inf (fsign (Num a)) else Num (a / b))"
| "fdiv (Num a) w = Num 0"
| "fdiv v (Num b) = signed_inf (fsign v * (if b < 0 then - 1 else 1))"
| "fdiv v w = NaN"

text \<open>The order of the values that are not NaN.\<close>

fun fle :: "fval \<Rightarrow> fval \<Rightarrow> bool" where
  "fle NInf w = True"
| "fle v PInf = True"
| "fle (Num a) (Num b) = (a \<le> b)"
| "fle v w = False"

definition fmin :: "fval \<Rightarrow> fval \<Rightarrow> fval" where
  "fmin v w = (if fle v w then v else w)"

definition fmax :: "fval \<Rightarrow> fval \<Rightarrow> fval" where
  "fmax v w = (if fle v w then w else v)"

text \<open>The reductions \<open>min\<close> and \<open>max\<close> of xarray skip NaN (\<open>skipna\<close> is on for floats);
  when every element is NaN the result is NaN.\<close>

definition nan_reduce :: "(fval \<Rightarrow> fval \<Rightarrow> fval) \<Rightarrow> fval list \<Rightarrow> fval" where
  "nan_reduce f vs =
     (case filter (\<lambda>v. v \<noteq> NaN) vs of [] \<Rightarrow> NaN | x # xs \<Rightarrow> fold f xs x)"

definition nanmin :: "fval list \<Rightarrow> fval" where
  "nanmin vs = nan_reduce fmin vs"

definition nanmax :: "fval list \<Rightarrow> fval" where
  "nanmax vs = nan_reduce fmax vs"

subsection \<open>Arrays and datasets\<close>

text \<open>
  A coordinate label (a basin, a date, a grid position) is an integer.  An array has
  named dimensions and one cell for each index; an index has one label for each
  dimension, in the order of the dimensions.  A dataset has coordinates, each a
  dimension with its labels, and named variables, each an array.
\<close>

type_synonym label = int

record data_array =
  dims :: "string list"
  cells :: "(label list \<times> fval) list"

record xr_dataset =
  coords :: "(string \<times> label list) list"
  data_vars :: "(string \<times> data_array) list"

text \<open>The labels that an index over the dimensions \<open>ds\<close> has for the dimensions \<open>sel\<close>.\<close>

definition proj :: "string list \<Rightarrow> string list \<Rightarrow> label list \<Rightarrow> label option list" where
  "proj ds sel i = map (map_of (zip ds i)) sel"

text \<open>Reducing an array over the dimensions \<open>red\<close>: the other dimensions stay, and each
  group of cells that agree on them becomes one cell.\<close>

definition kept_dims :: "string list \<Rightarrow> data_array \<Rightarrow> string list" where
  "kept_dims red a = filter (\<lambda>d. d \<notin> set red) (dims a)"

definition cell_key :: "string list \<Rightarrow> data_array \<Rightarrow> label list \<Rightarrow> label list" where
  "cell_key red a i = map snd (filter (\<lambda>(d, l). d \<notin> set red) (zip (dims a) i))"

definition arr_reduce :: "(fval list \<Rightarrow> fval) \<Rightarrow> string list \<Rightarrow> data_array \<Rightarrow> data_array" where
  "arr_reduce f red a =
     \<lparr>dims = kept_dims red a,
      cells = map (\<lambda>k. (k, f (map snd (filter (\<lambda>(i, v). cell_key red a i = k) (cells a)))))
                (remdups (map (\<lambda>(i, v). cell_key red a i) (cells a)))\<rparr>"

text \<open>\<open>ds.min(dims)\<close> and \<open>ds.max(dims)\<close>: every variable is reduced, and the reduced
  dimensions lose their coordinates.\<close>

definition ds_reduce :: "(fval list \<Rightarrow> fval) \<Rightarrow> string list \<Rightarrow> xr_dataset \<Rightarrow> xr_dataset" where
  "ds_reduce f red ds =
     \<lparr>coords = filter (\<lambda>(d, ls). d \<notin> set red) (coords ds),
      data_vars = map (\<lambda>(n, a). (n, arr_reduce f red a)) (data_vars ds)\<rparr>"

text \<open>\<open>ds.min()\<close> and \<open>ds.max()\<close> without an argument reduce over all dimensions.\<close>

definition all_dims :: "xr_dataset \<Rightarrow> string list" where
  "all_dims ds = map fst (coords ds) @ concat (map (\<lambda>(n, a). dims a) (data_vars ds))"

definition ds_min :: "xr_dataset \<Rightarrow> xr_dataset" where
  "ds_min ds = ds_reduce nanmin (all_dims ds) ds"

definition ds_max :: "xr_dataset \<Rightarrow> xr_dataset" where
  "ds_max ds = ds_reduce nanmax (all_dims ds) ds"

text \<open>
  Arithmetic on two arrays broadcasts by dimension name and aligns by label: a cell of
  the left array meets every cell of the right array that has the same labels on the
  dimensions they share, and the result has the dimensions of both.  A cell without a
  partner is dropped (xarray aligns the operands of arithmetic with an inner join).
\<close>

definition compatible :: "string list \<Rightarrow> label list \<Rightarrow> string list \<Rightarrow> label list \<Rightarrow> bool" where
  "compatible da i db j =
     (let shared = filter (\<lambda>d. d \<in> set da) db in proj da shared i = proj db shared j)"

definition extra_labels :: "string list \<Rightarrow> string list \<Rightarrow> label list \<Rightarrow> label list" where
  "extra_labels da db j = map snd (filter (\<lambda>(d, l). d \<notin> set da) (zip db j))"

definition arr_binop :: "(fval \<Rightarrow> fval \<Rightarrow> fval) \<Rightarrow> data_array \<Rightarrow> data_array \<Rightarrow> data_array" where
  "arr_binop f a b =
     \<lparr>dims = dims a @ filter (\<lambda>d. d \<notin> set (dims a)) (dims b),
      cells = concat (map (\<lambda>(i, v).
                 map (\<lambda>(j, w). (i @ extra_labels (dims a) (dims b) j, f v w))
                   (filter (\<lambda>(j, w). compatible (dims a) i (dims b) j) (cells b)))
               (cells a))\<rparr>"

text \<open>The coordinates of the result: a dimension of both operands keeps the labels of
  the left operand that the right operand has too.\<close>

definition join_coords ::
  "(string \<times> label list) list \<Rightarrow> (string \<times> label list) list \<Rightarrow> (string \<times> label list) list" where
  "join_coords ca cb =
     map (\<lambda>(d, ls). case map_of cb d of None \<Rightarrow> (d, ls)
                     | Some ms \<Rightarrow> (d, filter (\<lambda>l. l \<in> set ms) ls)) ca
     @ filter (\<lambda>(d, ms). d \<notin> fst ` set ca) cb"

text \<open>Arithmetic on two datasets works on the variables that both have, in the order of
  the left operand.\<close>

definition ds_binop :: "(fval \<Rightarrow> fval \<Rightarrow> fval) \<Rightarrow> xr_dataset \<Rightarrow> xr_dataset \<Rightarrow> xr_dataset" where
  "ds_binop f x y =
     \<lparr>coords = join_coords (coords x) (coords y),
      data_vars = concat (map (\<lambda>(n, a). case map_of (data_vars y) n of None \<Rightarrow> []
                                         | Some b \<Rightarrow> [(n, arr_binop f a b)])
                           (data_vars x))\<rparr>"

section \<open>Processing (processing.py)\<close>

subsection \<open>Selecting, filling and assigning variables\<close>

text \<open>\<open>ds[names]\<close> for a list of names: the dataset of the named variables.  A name that
  the dataset does not have raises a KeyError, and so does \<open>None\<close> in place of the list.\<close>

definition select_vars :: "xr_dataset \<Rightarrow> string list option \<Rightarrow> error + xr_dataset" where
  "select_vars ds names =
     (case names of None \<Rightarrow> Inl KeyError
      | Some ns \<Rightarrow>
          if list_all (\<lambda>n. n \<in> set (map fst (data_vars ds))) ns
          then Inr (ds\<lparr>data_vars := map (\<lambda>n. (n, the (map_of (data_vars ds) n))) ns\<rparr>)
          else Inl KeyError)"

text \<open>\<open>ds.fillna(value)\<close>: a new dataset in which every NaN is the value.\<close>

definition arr_fillna :: "rat \<Rightarrow> data_array \<Rightarrow> data_array" where
  "arr_fillna value a =
     a\<lparr>cells := map (\<lambda>(i, v). (i, if v = NaN then Num value else v)) (cells a)\<rparr>"

definition ds_fillna :: "rat \<Rightarrow> xr_dataset \<Rightarrow> xr_dataset" where
  "ds_fillna value ds = ds\<lparr>data_vars := map (\<lambda>(n, a). (n, arr_fillna value a)) (data_vars ds)\<rparr>"

text \<open>\<open>ds[names] = new\<close>: the variables of \<open>new\<close> replace those of the same name in
  \<open>ds\<close>, in their place, and a variable that \<open>ds\<close> does not have is added.\<close>

definition assign_vars :: "xr_dataset \<Rightarrow> xr_dataset \<Rightarrow> xr_dataset" where
  "assign_vars ds new =
     ds\<lparr>data_vars :=
          map (\<lambda>(n, a). case map_of (data_vars new) n of None \<Rightarrow> (n, a) | Some b \<Rightarrow> (n, b))
            (data_vars ds)
          @ filter (\<lambda>(n, b). n \<notin> set (map fst (data_vars ds))) (data_vars new)\<rparr>"

subsection \<open>The processor\<close>

text \<open>The attributes of \<open>AbstractProcessor\<close>; both are \<open>None\<close> by default.  The scaling
  parameters are the pair of the minimum and the maximum dataset.\<close>

record processor =
  variables :: "string list option"
  scaling_params :: "(xr_dataset \<times> xr_dataset) option"

text \<open>\<open>AbstractProcessor.scale\<close>.  The result is a new dataset.\<close>

definition scale :: "processor \<Rightarrow> xr_dataset \<Rightarrow> xr_dataset" where
  "scale p ds =
     (case (case scaling_params p of
              None \<Rightarrow> (ds_min ds, ds_max ds)
            | Some (min_params, max_params) \<Rightarrow> (min_params, max_params))
      of (min_params, max_params) \<Rightarrow>
        ds_binop fdiv (ds_binop fsub ds min_params) (ds_binop fsub max_params min_params))"

text \<open>\<open>AbstractProcessor.rescale\<close>.  Unpacking \<open>None\<close> raises a TypeError.\<close>

definition rescale :: "processor \<Rightarrow> xr_dataset \<Rightarrow> error + xr_dataset" where
  "rescale p ds =
     (case scaling_params p of None \<Rightarrow> Inl TypeError
      | Some (min_params, max_params) \<Rightarrow>
          Inr (ds_binop fadd (ds_binop fmul ds (ds_binop fsub max_params min_params))
                 min_params))"

text \<open>The value that \<open>AbstractProcessor.fillna\<close> leaves in the dataset it is given.\<close>

definition fillna_value :: "processor \<Rightarrow> xr_dataset \<Rightarrow> rat \<Rightarrow> error + xr_dataset" where
  "fillna_value p ds value =
     (case select_vars ds (variables p) of Inl e \<Rightarrow> Inl e
      | Inr sub \<Rightarrow> Inr (assign_vars ds (ds_fillna value sub)))"

text \<open>\<open>DefaultDatasetProcessor.__fit_scaling_params\<close>, on the array of the dataset.  The
  exception is raised before anything is assigned.\<close>

definition has_coords :: "xr_dataset \<Rightarrow> string list \<Rightarrow> bool" where
  "has_coords ts names = list_all (\<lambda>i. i \<in> set (map fst (coords ts))) names"

definition fit_scaling_params :: "processor \<Rightarrow> xr_dataset \<Rightarrow> error + processor" where
  "fit_scaling_params p ts =
     (if has_coords ts [''basin'', ''time'', ''y'', ''x'']
      then Inr (p\<lparr>scaling_params :=
                    Some (ds_reduce nanmin [''time'', ''y'', ''x''] ts,
                          ds_reduce nanmax [''time'', ''y'', ''x''] ts)\<rparr>)
      else if has_coords ts [''basin'', ''time'']
      then Inr (p\<lparr>scaling_params :=
                    Some (ds_reduce nanmin [''time''] ts, ds_reduce nanmax [''time''] ts)\<rparr>)
      else Inl ValueError)"

subsection \<open>Datasets as objects\<close>

text \<open>
  Modelled from the spec: \<open>dataset.HydroDataset\<close> is not part of the sources.  The spec
  describes it as a wrapper of a labelled array with the feature and target column names
  and a date range; processing.py and models.py read \<open>timeseries\<close>, \<open>feature_cols\<close>,
  \<open>target_col\<close>, \<open>start_date\<close> and \<open>end_date\<close>.  The field \<open>timeseries\<close> is a reference to
  an \<open>xarray.Dataset\<close> object.
\<close>

record hydro_dataset =
  timeseries :: nat
  feature_cols :: "string list"
  target_col :: string
  start_date :: int
  end_date :: int

text \<open>
  The store of objects: the \<open>HydroDataset\<close> objects and the \<open>xarray.Dataset\<close> objects,
  by address.  The addresses below the counters are in use; a new object gets the
  address of the counter.
\<close>

record heap =
  hydros :: "nat \<Rightarrow> hydro_dataset"
  hydro_count :: nat
  arrays :: "nat \<Rightarrow> xr_dataset"
  array_count :: nat

text \<open>\<open>copy.copy(ds)\<close>: a new object with the fields of \<open>ds\<close>.\<close>

definition copy_hydro :: "heap \<Rightarrow> nat \<Rightarrow> heap \<times> nat" where
  "copy_hydro h r =
     (h\<lparr>hydros := (hydros h)(hydro_count h := hydros h r), hydro_count := Suc (hydro_count h)\<rparr>,
      hydro_count h)"

text \<open>A new \<open>xarray.Dataset\<close> object.\<close>

definition new_array :: "heap \<Rightarrow> xr_dataset \<Rightarrow> heap \<times> nat" where
  "new_array h x =
     (h\<lparr>arrays := (arrays h)(array_count h := x), array_count := Suc (array_count h)\<rparr>,
      array_count h)"

text \<open>\<open>ds.timeseries = x\<close>.\<close>

definition set_timeseries :: "heap \<Rightarrow> nat \<Rightarrow> nat \<Rightarrow> heap" where
  "set_timeseries h r x = h\<lparr>hydros := (hydros h)(r := (hydros h r)\<lparr>timeseries := x\<rparr>)\<rparr>"

text \<open>\<open>AbstractProcessor.fillna\<close>: the assignment \<open>ds[self.variables] = ...\<close> changes the
  object it is given, and the same object is returned.\<close>

definition fillna :: "processor \<Rightarrow> heap \<Rightarrow> nat \<Rightarrow> rat \<Rightarrow> heap \<times> (error + nat)" where
  "fillna p h x value =
     (case fillna_value p (arrays h x) value of Inl e \<Rightarrow> (h, Inl e)
      | Inr filled \<Rightarrow> (h\<lparr>arrays := (arrays h)(x := filled)\<rparr>, Inr x))"

text \<open>\<open>DefaultDatasetProcessor.fit\<close>.\<close>

definition fit :: "processor \<Rightarrow> heap \<Rightarrow> nat \<Rightarrow> error + processor" where
  "fit p h r =
     (case fit_scaling_params p (arrays h (timeseries (hydros h r))) of Inl e \<Rightarrow> Inl e
      | Inr p' \<Rightarrow> Inr (p'\<lparr>variables := Some (feature_cols (hydros h r))\<rparr>))"

text \<open>\<open>DefaultDatasetProcessor.process\<close>: the processor and the store after the call,
  and the returned object or the exception.  What was assigned before an exception
  stays assigned.\<close>

definition process :: "processor \<Rightarrow> heap \<Rightarrow> nat \<Rightarrow> processor \<times> heap \<times> (error + nat)" where
  "process p h r =
     (case (if scaling_params p = None
            then fit_scaling_params p (arrays h (timeseries (hydros h r)))
            else Inr p)
      of Inl e \<Rightarrow> (p, h, Inl e)
      | Inr p1 \<Rightarrow>
         (case copy_hydro h r of (h1, ds) \<Rightarrow>
           (case new_array h1 (scale p1 (arrays h1 (timeseries (hydros h1 ds)))) of (h2, scaled) \<Rightarrow>
             (case fillna p1 (set_timeseries h2 ds scaled) (timeseries (hydros (set_timeseries h2 ds scaled) ds)) (- 1)
              of (h3, Inl e) \<Rightarrow> (p1, h3, Inl e)
              | (h3, Inr filled) \<Rightarrow> (p1, set_timeseries h3 ds filled, Inr ds)))))"

subsection \<open>Example data\<close>

text \<open>A lumped dataset: one basin, two days, precipitation and streamflow, with one
  missing streamflow value.\<close>

definition lumped_example :: xr_dataset where
  "lumped_example =
     \<lparr>coords = [(''basin'', [1]), (''time'', [1, 2])],
      data_vars =
        [(''prcp'', \<lparr>dims = [''basin'', ''time''], cells = [([1, 1], Num 2), ([1, 2], Num 6)]\<rparr>),
         (''streamflow'',
          \<lparr>dims = [''basin'', ''time''], cells = [([1, 1], Num 1), ([1, 2], NaN)]\<rparr>)]\<rparr>"

text \<open>A gridded dataset: one basin, two days, one row and two columns of cells.\<close>

definition gridded_example :: xr_dataset where
  "gridded_example =
     \<lparr>coords = [(''basin'', [1]), (''time'', [1, 2]), (''y'', [0]), (''x'', [0, 1])],
      data_vars =
        [(''prcp'',
          \<lparr>dims = [''basin'', ''time'', ''y'', ''x''],
           cells = [([1, 1, 0, 0], Num 2), ([1, 1, 0, 1], Num 4),
                    ([1, 2, 0, 0], Num 6), ([1, 2, 0, 1], Num 0)]\<rparr>)]\<rparr>"

text \<open>A dataset without a basin coordinate.\<close>

definition basinless_example :: xr_dataset where
  "basinless_example =
     \<lparr>coords = [(''time'', [1, 2])],
      data_vars = [(''prcp'', \<lparr>dims = [''time''], cells = [([1], Num 2), ([2], Num 6)]\<rparr>)]\<rparr>"

text \<open>A store with one \<open>HydroDataset\<close> object, at address 0, that wraps the given array,
  at address 0.\<close>

definition store_of :: "xr_dataset \<Rightarrow> heap" where
  "store_of ts =
     \<lparr>hydros = (\<lambda>r. \<lparr>timeseries = 0, feature_cols = [''prcp''], target_col = ''streamflow'',
                       start_date = 1, end_date = 2\<rparr>),
      hydro_count = 1,
      arrays = (\<lambda>x. ts),
      array_count = 1\<rparr>"

text \<open>A processor as the constructor leaves it when it is given no arguments.\<close>

definition new_processor :: processor where
  "new_processor = \<lparr>variables = None, scaling_params = None\<rparr>"

subsection \<open>Min/max scaling as the specification words it\<close>

text \<open>
  The specification describes scaling per variable and per value:
  \<open>(x - min) / (max - min)\<close>, and its inverse \<open>x * (max - min) + min\<close>.  The definitions
  below say this cell by cell, to be compared with \<open>scale\<close> and \<open>rescale\<close>, which work on
  whole datasets.
\<close>

definition minmax_scaled :: "fval \<Rightarrow> fval \<Rightarrow> fval \<Rightarrow> fval" where
  "minmax_scaled mn mx v = fdiv (fsub v mn) (fsub mx mn)"

definition minmax_rescaled :: "fval \<Rightarrow> fval \<Rightarrow> fval \<Rightarrow> fval" where
  "minmax_rescaled mn mx v = fadd (fmul v (fsub mx mn)) mn"

text \<open>The labels that the index \<open>i\<close> over the dimensions \<open>da\<close> has for the dimensions
  \<open>db\<close>, and the value of a parameter array at that place.\<close>

definition key_of :: "string list \<Rightarrow> string list \<Rightarrow> label list \<Rightarrow> label list" where
  "key_of da db i = map (\<lambda>d. the (map_of (zip da i) d)) db"

definition param_at :: "data_array \<Rightarrow> string list \<Rightarrow> label list \<Rightarrow> fval" where
  "param_at b da i = the (map_of (cells b) (key_of da (dims b) i))"

text \<open>Every cell of every variable is transformed with the minimum and the maximum
  that the parameters hold for its variable and its labels.\<close>

definition map_cells_with ::
  "(fval \<Rightarrow> fval \<Rightarrow> fval \<Rightarrow> fval) \<Rightarrow> xr_dataset \<Rightarrow> xr_dataset \<Rightarrow> xr_dataset \<Rightarrow> xr_dataset" where
  "map_cells_with g mn mx ds =
     ds\<lparr>data_vars :=
          map (\<lambda>(n, a).
                 (n, a\<lparr>cells :=
                        map (\<lambda>(i, v).
                               (i, g (param_at (the (map_of (data_vars mn) n)) (dims a) i)
                                     (param_at (the (map_of (data_vars mx) n)) (dims a) i) v))
                          (cells a)\<rparr>))
            (data_vars ds)\<rparr>"

text \<open>Scaling without stored parameters: the minimum and the maximum of a variable are
  those of all its values.\<close>

definition scale_unfitted_spec :: "xr_dataset \<Rightarrow> xr_dataset" where
  "scale_unfitted_spec ds =
     ds\<lparr>data_vars :=
          map (\<lambda>(n, a).
                 (n, a\<lparr>cells :=
                        map (\<lambda>(i, v).
                               (i, minmax_scaled (nanmin (map snd (cells a)))
                                     (nanmax (map snd (cells a))) v))
                          (cells a)\<rparr>))
            (data_vars ds)\<rparr>"

text \<open>
  The parameters cover a dataset when the alignment of the arithmetic drops nothing:
  the parameter array \<open>b\<close> of a variable has dimensions among those of the variable's
  array \<open>a\<close>, and one cell for the labels of each cell of \<open>a\<close>.
\<close>

definition well_indexed :: "data_array \<Rightarrow> bool" where
  "well_indexed a =
     (distinct (dims a) \<and> list_all (\<lambda>(i, v). length i = length (dims a)) (cells a))"

definition broadcastable :: "data_array \<Rightarrow> data_array \<Rightarrow> bool" where
  "broadcastable a b =
     (well_indexed a \<and> well_indexed b \<and>
      list_all (\<lambda>d. d \<in> set (dims a)) (dims b) \<and>
      distinct (map fst (cells b)) \<and>
      list_all (\<lambda>(i, v). key_of (dims a) (dims b) i \<in> set (map fst (cells b))) (cells a))"

definition arr_covered :: "data_array \<Rightarrow> data_array \<Rightarrow> data_array \<Rightarrow> bool" where
  "arr_covered a bmn bmx =
     (broadcastable a bmn \<and> dims bmx = dims bmn \<and> map fst (cells bmx) = map fst (cells bmn))"

definition covers :: "xr_dataset \<Rightarrow> xr_dataset \<Rightarrow> xr_dataset \<Rightarrow> bool" where
  "covers mn mx ds =
     (coords mx = coords mn \<and> distinct (map fst (coords mn)) \<and>
      join_coords (coords ds) (coords mn) = coords ds \<and>
      list_all (\<lambda>(n, a).
          case map_of (data_vars mn) n of None \<Rightarrow> False
          | Some bmn \<Rightarrow>
             (case map_of (data_vars mx) n of None \<Rightarrow> False
              | Some bmx \<Rightarrow> arr_covered a bmn bmx))
        (data_vars ds))"

text \<open>The minimum and the maximum are finite and differ, for every variable and every
  cell of the parameters.\<close>

definition finite_distinct :: "fval \<Rightarrow> fval \<Rightarrow> bool" where
  "finite_distinct m M = (case (m, M) of (Num x, Num y) \<Rightarrow> x \<noteq> y | _ \<Rightarrow> False)"

definition params_finite_distinct :: "xr_dataset \<Rightarrow> xr_dataset \<Rightarrow> bool" where
  "params_finite_distinct mn mx =
     list_all (\<lambda>(n, bmn).
          case map_of (data_vars mx) n of None \<Rightarrow> True
          | Some bmx \<Rightarrow>
              list_all (\<lambda>(j, m). case map_of (cells bmx) j of None \<Rightarrow> True
                                  | Some M \<Rightarrow> finite_distinct m M) (cells bmn))
        (data_vars mn)"

text \<open>A training dataset of basin 1, the processor that fitting to it gives, a dataset
  of the same basin for two later days, and a dataset of another basin.\<close>

definition training_example :: xr_dataset where
  "training_example =
     \<lparr>coords = [(''basin'', [1]), (''time'', [1, 2])],
      data_vars =
        [(''prcp'', \<lparr>dims = [''basin'', ''time''], cells = [([1, 1], Num 2), ([1, 2], Num 6)]\<rparr>)]\<rparr>"

definition fitted_processor :: processor where
  "fitted_processor =
     \<lparr>variables = Some [''prcp''],
      scaling_params = Some
        (\<lparr>coords = [(''basin'', [1])],
          data_vars = [(''prcp'', \<lparr>dims = [''basin''], cells = [([1], Num 2)]\<rparr>)]\<rparr>,
         \<lparr>coords = [(''basin'', [1])],
          data_vars = [(''prcp'', \<lparr>dims = [''basin''], cells = [([1], Num 6)]\<rparr>)]\<rparr>)\<rparr>"

definition validation_example :: xr_dataset where
  "validation_example =
     \<lparr>coords = [(''basin'', [1]), (''time'', [3, 4])],
      data_vars =
        [(''prcp'', \<lparr>dims = [''basin'', ''time''], cells = [([1, 3], Num 4), ([1, 4], NaN)]\<rparr>)]\<rparr>"

definition other_basin_example :: xr_dataset where
  "other_basin_example =
     \<lparr>coords = [(''basin'', [2]), (''time'', [1, 2])],
      data_vars =
        [(''prcp'', \<lparr>dims = [''basin'', ''time''], cells = [([2, 1], Num 3), ([2, 2], Num 5)]\<rparr>)]\<rparr>"

text \<open>Calls of \<open>process\<close> on one dataset after another, with the same processor; the
  caller goes on after an exception.  The results are collected.\<close>

fun process_all ::
  "processor \<Rightarrow> heap \<Rightarrow> nat list \<Rightarrow> processor \<times> heap \<times> (error + nat) list" where
  "process_all p h [] = (p, h, [])"
| "process_all p h (r # rs) =
     (case process p h r of (p1, h1, res) \<Rightarrow>
        (case process_all p1 h1 rs of (p2, h2, ress) \<Rightarrow> (p2, h2, res # ress)))"

section \<open>Merging observations and predictions (processing.py)\<close>

text \<open>\<open>ds.time\<close>: the labels of the coordinate \<open>time\<close>, an AttributeError when the dataset
  has none.\<close>

definition time_of :: "xr_dataset \<Rightarrow> error + label list" where
  "time_of ds = (case map_of (coords ds) ''time'' of None \<Rightarrow> Inl AttributeError
                 | Some ls \<Rightarrow> Inr ls)"

text \<open>\<open>ds.sel(time=slice(start, end))\<close>: the cells whose time label lies between the two
  bounds, both included (the time index is increasing).  Without a time dimension there
  is nothing to select on, which is an error.\<close>

definition in_slice :: "label \<Rightarrow> label \<Rightarrow> label \<Rightarrow> bool" where
  "in_slice lo hi l = (lo \<le> l \<and> l \<le> hi)"

definition arr_sel_time :: "label \<Rightarrow> label \<Rightarrow> data_array \<Rightarrow> data_array" where
  "arr_sel_time lo hi a =
     a\<lparr>cells := filter (\<lambda>(i, v). case map_of (zip (dims a) i) ''time'' of None \<Rightarrow> True
                                    | Some l \<Rightarrow> in_slice lo hi l) (cells a)\<rparr>"

definition sel_time :: "label \<Rightarrow> label \<Rightarrow> xr_dataset \<Rightarrow> error + xr_dataset" where
  "sel_time lo hi ds =
     (if ''time'' \<in> set (map fst (coords ds))
      then Inr \<lparr>coords = map (\<lambda>(d, ls). if d = ''time'' then (d, filter (in_slice lo hi) ls)
                                        else (d, ls)) (coords ds),
                data_vars = map (\<lambda>(n, a). (n, arr_sel_time lo hi a)) (data_vars ds)\<rparr>
      else Inl KeyError)"

text \<open>\<open>ds[names]\<close> keeps, of the coordinates, those of the dimensions of the selected
  variables.  (\<open>process\<close> uses the variables of a selection only, which is why
  \<open>select_vars\<close> leaves the coordinates as they are.)\<close>

definition only_used_coords :: "xr_dataset \<Rightarrow> xr_dataset" where
  "only_used_coords ds =
     ds\<lparr>coords := filter (\<lambda>(d, ls). list_ex (\<lambda>(n, a). d \<in> set (dims a)) (data_vars ds))
                        (coords ds)\<rparr>"

text \<open>\<open>ds.rename({name: name + suffix for each variable})\<close>: all variables are renamed at
  once.  A new name that is also the name of a coordinate is a conflict, a ValueError.\<close>

definition rename_suffix :: "string \<Rightarrow> xr_dataset \<Rightarrow> error + xr_dataset" where
  "rename_suffix suffix ds =
     (if list_ex (\<lambda>(n, a). n @ suffix \<in> set (map fst (coords ds))) (data_vars ds)
      then Inl ValueError
      else Inr (ds\<lparr>data_vars := map (\<lambda>(n, a). (n @ suffix, a)) (data_vars ds)\<rparr>))"

text \<open>
  \<open>xr.merge([x, y], join=...)\<close>: the variables of both datasets.  For a dimension of
  both, \<open>join="left"\<close> takes the labels of \<open>x\<close> and \<open>join="right"\<close> those of \<open>y\<close>; every
  variable is laid out on the resulting labels, and a cell that it does not have is NaN.
  Two variables of the same name are a conflict (a MergeError, which is a ValueError);
  below, the names of the two datasets differ.
\<close>

definition reindex :: "(string \<times> label list) list \<Rightarrow> data_array \<Rightarrow> data_array" where
  "reindex c a =
     a\<lparr>cells := map (\<lambda>i. (i, case map_of (cells a) i of None \<Rightarrow> NaN | Some v \<Rightarrow> v))
                   (product_lists (map (\<lambda>d. case map_of c d of None \<Rightarrow> [] | Some ls \<Rightarrow> ls)
                                     (dims a)))\<rparr>"

definition merged_coords ::
  "bool \<Rightarrow> (string \<times> label list) list \<Rightarrow> (string \<times> label list) list
     \<Rightarrow> (string \<times> label list) list" where
  "merged_coords left cx cy =
     map (\<lambda>(d, ls). if left then (d, ls)
                     else (case map_of cy d of None \<Rightarrow> (d, ls) | Some ms \<Rightarrow> (d, ms))) cx
     @ filter (\<lambda>(d, ms). d \<notin> set (map fst cx)) cy"

definition merge :: "bool \<Rightarrow> xr_dataset \<Rightarrow> xr_dataset \<Rightarrow> error + xr_dataset" where
  "merge left x y =
     (if list_ex (\<lambda>n. n \<in> set (map fst (data_vars y))) (map fst (data_vars x))
      then Inl ValueError
      else Inr \<lparr>coords = merged_coords left (coords x) (coords y),
                data_vars =
                  map (\<lambda>(n, a). (n, reindex (merged_coords left (coords x) (coords y)) a))
                    (data_vars x @ data_vars y)\<rparr>)"

text \<open>\<open>merge_observations_and_predictions\<close>.\<close>

definition merge_observations_and_predictions ::
  "xr_dataset \<Rightarrow> xr_dataset \<Rightarrow> bool \<Rightarrow> error + xr_dataset" where
  "merge_observations_and_predictions ds_observation ds_prediction use_pred_timeframe =
     (let variables = map fst (data_vars ds_prediction) in
      case time_of (if use_pred_timeframe then ds_prediction else ds_observation) of
        Inl e \<Rightarrow> Inl e
      | Inr time \<Rightarrow>
      (case py_index time 0 of Inl e \<Rightarrow> Inl e | Inr start_day \<Rightarrow>
      (case py_index time (- 1) of Inl e \<Rightarrow> Inl e | Inr end_day \<Rightarrow>
      (case select_vars ds_observation (Some variables) of Inl e \<Rightarrow> Inl e | Inr selected \<Rightarrow>
      (case sel_time start_day end_day (only_used_coords selected) of Inl e \<Rightarrow> Inl e | Inr sliced \<Rightarrow>
      (case rename_suffix ''_obs'' sliced of Inl e \<Rightarrow> Inl e | Inr ds_obs \<Rightarrow>
      (case rename_suffix ''_pred'' ds_prediction of Inl e \<Rightarrow> Inl e | Inr ds_pred \<Rightarrow>
         merge use_pred_timeframe ds_pred ds_obs)))))))"

text \<open>A dataset in which every dimension of a variable has a coordinate, the labels of
  a coordinate are distinct, and the time labels increase.\<close>

definition indexed :: "xr_dataset \<Rightarrow> bool" where
  "indexed ds =
     (list_all (\<lambda>(d, ls). distinct ls) (coords ds) \<and>
      list_all (\<lambda>(n, a). list_all (\<lambda>d. d \<in> set (map fst (coords ds))) (dims a))
        (data_vars ds) \<and>
      (case map_of (coords ds) ''time'' of None \<Rightarrow> True | Some t \<Rightarrow> sorted t))"

text \<open>
  Datasets that can be merged: both are indexed; the dataset that gives the timeframe
  has a time coordinate with at least one label; the observations have every variable of
  the predictions, a time coordinate, and a time dimension in one of these variables;
  and no new name is the name of a coordinate.
\<close>

definition mergeable :: "xr_dataset \<Rightarrow> xr_dataset \<Rightarrow> bool \<Rightarrow> bool" where
  "mergeable obs pred flag =
     (indexed obs \<and> indexed pred \<and>
      (case map_of (coords (if flag then pred else obs)) ''time'' of None \<Rightarrow> False
       | Some t \<Rightarrow> t \<noteq> []) \<and>
      list_all (\<lambda>n. n \<in> set (map fst (data_vars obs))) (map fst (data_vars pred)) \<and>
      ''time'' \<in> set (map fst (coords obs)) \<and>
      list_ex (\<lambda>n. case map_of (data_vars obs) n of None \<Rightarrow> False
                    | Some a \<Rightarrow> ''time'' \<in> set (dims a)) (map fst (data_vars pred)) \<and>
      list_all (\<lambda>n. n @ ''_obs'' \<notin> set (map fst (coords obs)) \<and>
                     n @ ''_pred'' \<notin> set (map fst (coords pred))) (map fst (data_vars pred)))"

text \<open>Observations of rainfall and streamflow for four days, and predictions of
  streamflow for the second and third day.\<close>

definition observation_example :: xr_dataset where
  "observation_example =
     \<lparr>coords = [(''basin'', [1]), (''time'', [1, 2, 3, 4])],
      data_vars =
        [(''prcp'',
          \<lparr>dims = [''basin'', ''time''],
           cells = [([1, 1], Num 2), ([1, 2], Num 6), ([1, 3], Num 0), ([1, 4], Num 1)]\<rparr>),
         (''streamflow'',
          \<lparr>dims = [''basin'', ''time''],
           cells = [([1, 1], Num 5), ([1, 2], Num 7), ([1, 3], Num 8), ([1, 4], Num 4)]\<rparr>)]\<rparr>"

definition prediction_example :: xr_dataset where
  "prediction_example =
     \<lparr>coords = [(''basin'', [1]), (''time'', [2, 3])],
      data_vars =
        [(''streamflow'',
          \<lparr>dims = [''basin'', ''time''], cells = [([1, 2], Num 6), ([1, 3], Num 9)]\<rparr>)]\<rparr>"

text \<open>The two datasets merged on the timeframe of the predictions and on the timeframe of
  the observations: in the latter, the days without a prediction hold NaN.\<close>

definition merged_on_prediction_example :: xr_dataset where
  "merged_on_prediction_example =
     \<lparr>coords = [(''basin'', [1]), (''time'', [2, 3])],
      data_vars =
        [(''streamflow_pred'',
          \<lparr>dims = [''basin'', ''time''], cells = [([1, 2], Num 6), ([1, 3], Num 9)]\<rparr>),
         (''streamflow_obs'',
          \<lparr>dims = [''basin'', ''time''], cells = [([1, 2], Num 7), ([1, 3], Num 8)]\<rparr>)]\<rparr>"

definition merged_on_observation_example :: xr_dataset where
  "merged_on_observation_example =
     \<lparr>coords = [(''basin'', [1]), (''time'', [1, 2, 3, 4])],
      data_vars =
        [(''streamflow_pred'',
          \<lparr>dims = [''basin'', ''time''],
           cells = [([1, 1], NaN), ([1, 2], Num 6), ([1, 3], Num 9), ([1, 4], NaN)]\<rparr>),
         (''streamflow_obs'',
          \<lparr>dims = [''basin'', ''time''],
           cells = [([1, 1], Num 5), ([1, 2], Num 7), ([1, 3], Num 8), ([1, 4], Num 4)]\<rparr>)]\<rparr>"

section \<open>Properties of the factory\<close>

lemma factory_cases:
  "factory cfg = Inr (init_model LstmModel cfg) \<or>
   factory cfg = Inr (init_model CnnLstmModel cfg) \<or>
   factory cfg = Inr (init_model MultiInputCnnLstmModel cfg) \<or>
   factory cfg = Inr (init_model ConvLstmModel cfg) \<or>
   factory cfg = Inr (init_model Conv3DModel cfg) \<or>
   factory cfg = Inl ValueError"
  by (simp add: factory_def)

text \<open>
  Claim C6.  The factory returns an instance of LstmModel, CnnLstmModel,
  MultiInputCnnLstmModel, ConvLstmModel or Conv3DModel exactly when the configured model
  type is "lstm", "cnn-lstm", "multi-cnn-lstm", "convlstm" or "conv3d" respectively; the
  instance holds the given configuration; for every other model type the factory raises
  a ValueError, and it raises nothing else.
\<close>

theorem factory_by_model_type:
  "((factory cfg = Inr (init_model LstmModel cfg)) = (model_type cfg = ''lstm'')) \<and>
   ((factory cfg = Inr (init_model CnnLstmModel cfg)) = (model_type cfg = ''cnn-lstm'')) \<and>
   ((factory cfg = Inr (init_model MultiInputCnnLstmModel cfg))
      = (model_type cfg = ''multi-cnn-lstm'')) \<and>
   ((factory cfg = Inr (init_model ConvLstmModel cfg)) = (model_type cfg = ''convlstm'')) \<and>
   ((factory cfg = Inr (init_model Conv3DModel cfg)) = (model_type cfg = ''conv3d'')) \<and>
   ((factory cfg = Inl ValueError)
      = (model_type cfg \<notin> {''lstm'', ''cnn-lstm'', ''multi-cnn-lstm'', ''convlstm'', ''conv3d''})) \<and>
   ((\<exists>m. factory cfg = Inr m \<and> cls m = c) = (factory cfg = Inr (init_model c cfg))) \<and>
   ((\<exists>e. factory cfg = Inl e) = (factory cfg = Inl ValueError)) \<and>
   cls (init_model c cfg) = c \<and> config (init_model c cfg) = cfg \<and> net (init_model c cfg) = None"
  by (auto simp add: factory_def init_model_def)

section \<open>Validation and the index accesses of the LSTM network\<close>

lemma lstm_loop_in_range:
  "k \<le> length us \<Longrightarrow> k \<le> length ds \<Longrightarrow>
   \<exists>ls. lstm_loop (PList us) (PList ds) (map int [j..<k]) = Inr ls"
proof (induction "k - j" arbitrary: j)
  case 0
  then show ?case by simp
next
  case (Suc n)
  then have jk: "j < k" by simp
  then have up: "[j..<k] = j # [Suc j..<k]" by (simp add: upt_conv_Cons)
  from Suc(2) have "n = k - Suc j" by simp
  from Suc(1)[OF this Suc(3) Suc(4)] obtain ls where
    "lstm_loop (PList us) (PList ds) (map int [Suc j..<k]) = Inr ls" by blast
  with jk Suc(3) Suc(4) show ?case
    by (simp add: up py_index_def)
qed

lemma lstm_validated_lengths:
  assumes "lstm_get_and_validate_params ps = Inr (hl, PList us, PList ds)"
  shows "\<not> py_ne (int (length us)) hl \<and> \<not> py_ne (int (length ds)) hl"
  using assms
  by (auto simp add: lstm_get_and_validate_params_def except_KeyError_def
      split: sum.splits if_splits error.splits)

lemma lstm_build_after_validation:
  assumes "lstm_get_and_validate_params ps = Inr (hl, PList us, PList ds)"
    and "int_value hl = Some h"
  shows "0 \<le> h \<and> ((\<exists>ls. lstm_build_model s (hl, PList us, PList ds) out = Inr ls) = (1 \<le> h))
     \<and> (h = 0 \<longrightarrow> lstm_build_model s (hl, PList us, PList ds) out = Inl IndexError)"
proof -
  from lstm_validated_lengths[OF assms(1)] assms(2)
  have len: "int (length us) = h" "int (length ds) = h"
    by (cases hl; simp split: if_splits)+
  then have h0: "0 \<le> h" by linarith
  have k: "nat (h - 1) \<le> length us" "nat (h - 1) \<le> length ds" using len by linarith+
  from lstm_loop_in_range[OF k, of 0] obtain ls where
    ls: "lstm_loop (PList us) (PList ds) (map int [0..<nat (h - 1)]) = Inr ls" by blast
  show ?thesis
    using h0 len ls assms(2)
    by (auto simp add: lstm_build_model_def range_upto_pred_def last_index_def py_index_def Let_def)
qed

text \<open>
  Claim C10.  The validation of \<open>LstmModel\<close> accepts the configuration with
  \<open>hiddenLayers = 0\<close> and empty \<open>units\<close> and \<open>dropout\<close> lists, and \<open>_build_model\<close> then
  raises an IndexError on \<open>units[hiddenLayers - 1]\<close>.  In general, for parameters that the
  validation accepted, with lists for \<open>units\<close> and \<open>dropout\<close> and an integer \<open>h\<close> for
  \<open>hiddenLayers\<close>: \<open>h\<close> is not negative (the lengths equal it), the index accesses of
  \<open>_build_model\<close> are all in range exactly when \<open>h \<ge> 1\<close>, and \<open>h = 0\<close> gives the
  IndexError.  The validation of the CNN variants, unlike this one, has a check of its
  own that rejects a negative \<open>hiddenLayers\<close>.
\<close>

theorem lstm_validation_admits_zero_layers:
  "lstm_get_and_validate_params
     (PDict [(''lstm'', PDict [(''hiddenLayers'', PInt 0), (''units'', PList []),
                               (''dropout'', PList [])])])
     = Inr (PInt 0, PList [], PList []) \<and>
   lstm_build_model s (PInt 0, PList [], PList []) out = Inl IndexError \<and>
   (lstm_get_and_validate_params ps = Inr (hl, PList us, PList ds) \<and> int_value hl = Some h \<longrightarrow>
      0 \<le> h \<and>
      ((\<exists>ls. lstm_build_model s (hl, PList us, PList ds) out = Inr ls) = (1 \<le> h)) \<and>
      (h = 0 \<longrightarrow> lstm_build_model s (hl, PList us, PList ds) out = Inl IndexError)) \<and>
   (n < 0 \<longrightarrow>
      get_and_validate_cnn_params (PDict [(''hiddenLayers'', PInt n), (''filters'', fs)])
        = Inl ConfigError)"
proof -
  have a: "lstm_get_and_validate_params
     (PDict [(''lstm'', PDict [(''hiddenLayers'', PInt 0), (''units'', PList []),
                               (''dropout'', PList [])])])
     = Inr (PInt 0, PList [], PList [])"
    by (simp add: lstm_get_and_validate_params_def except_KeyError_def)
  have b: "lstm_build_model s (PInt 0, PList [], PList []) out = Inl IndexError"
    by (simp add: lstm_build_model_def range_upto_pred_def last_index_def py_index_def)
  have c: "n < 0 \<longrightarrow>
      get_and_validate_cnn_params (PDict [(''hiddenLayers'', PInt n), (''filters'', fs)])
        = Inl ConfigError"
    by (simp add: get_and_validate_cnn_params_def except_KeyError_def)
  show ?thesis
    using a b c lstm_build_after_validation[of ps hl us ds h s out] by blast
qed

theorem lstm_validation_admits_zero_layers_witness:
  "lstm_get_and_validate_params
     (PDict [(''lstm'', PDict [(''hiddenLayers'', PInt 2), (''units'', PList [PInt 32, PInt 32]),
                               (''dropout'', PList [PFloat (1 / 10), PInt 0])])])
     = Inr (PInt 2, PList [PInt 32, PInt 32], PList [PFloat (1 / 10), PInt 0]) \<and>
   int_value (PInt 2) = Some 2 \<and>
   (\<exists>ls. lstm_build_model (Tuple [Dim 10, Dim 5])
           (PInt 2, PList [PInt 32, PInt 32], PList [PFloat (1 / 10), PInt 0]) None = Inr ls) \<and>
   (-1 :: int) < 0 \<and>
   get_and_validate_cnn_params (PDict [(''hiddenLayers'', PInt (-1)), (''filters'', PList [])])
     = Inl ConfigError"
proof -
  have v: "lstm_get_and_validate_params
     (PDict [(''lstm'', PDict [(''hiddenLayers'', PInt 2), (''units'', PList [PInt 32, PInt 32]),
                               (''dropout'', PList [PFloat (1 / 10), PInt 0])])])
     = Inr (PInt 2, PList [PInt 32, PInt 32], PList [PFloat (1 / 10), PInt 0])"
    by (simp add: lstm_get_and_validate_params_def except_KeyError_def)
  have i: "int_value (PInt 2) = Some 2" by simp
  show ?thesis
    using v i
      lstm_validation_admits_zero_layers[of "Tuple [Dim 10, Dim 5]" None
        "PDict [(''lstm'', PDict [(''hiddenLayers'', PInt 2),
                 (''units'', PList [PInt 32, PInt 32]),
                 (''dropout'', PList [PFloat (1 / 10), PInt 0])])]"
        "PInt 2" "[PInt 32, PInt 32]" "[PFloat (1 / 10), PInt 0]" 2 "-1" "PList []"]
    by simp
qed

section \<open>Validation of the parameters\<close>

lemma except_KeyError_Inr: "except_KeyError (Inr x) = Inr x"
  by (simp add: except_KeyError_def)

lemma except_KeyError_Inl:
  "except_KeyError (Inl e) = Inl (if e = KeyError then ConfigError else e)"
  by (cases e) (simp_all add: except_KeyError_def)

lemmas exk = except_KeyError_Inr except_KeyError_Inl

lemma py_len_error: "py_len v = Inl e \<Longrightarrow> e = TypeError"
  by (cases v) simp_all

lemma cnn_section_result:
  "get_and_validate_cnn_params (PDict fs) =
     (case map_of fs ''hiddenLayers'' of None \<Rightarrow> Inl ConfigError
      | Some h \<Rightarrow>
        (case map_of fs ''filters'' of None \<Rightarrow> Inl ConfigError
         | Some f \<Rightarrow>
            if \<not> isinstance_int h then Inl ConfigError
            else if the (int_value h) < 0 then Inl ConfigError
            else (case py_len f of Inl e \<Rightarrow> Inl TypeError
                  | Inr n \<Rightarrow> if py_ne n h then Inl ConfigError else Inr (h, f))))"
  by (auto simp add: get_and_validate_cnn_params_def exk dest: py_len_error
      split: option.splits sum.splits)

lemma lstm_section_result:
  "get_and_validate_lstm_params (PDict fs) =
     (case map_of fs ''hiddenLayers'' of None \<Rightarrow> Inl ConfigError
      | Some h \<Rightarrow>
        (case map_of fs ''units'' of None \<Rightarrow> Inl ConfigError
         | Some u \<Rightarrow>
            if \<not> isinstance_int h then Inl ConfigError
            else if the (int_value h) < 0 then Inl ConfigError
            else (case py_len u of Inl e \<Rightarrow> Inl TypeError
                  | Inr n \<Rightarrow> if py_ne n h then Inl ConfigError else
                     (case map_of fs ''dropout'' of None \<Rightarrow> Inl ConfigError
                      | Some d \<Rightarrow>
                        (case py_len d of Inl e \<Rightarrow> Inl TypeError
                         | Inr k \<Rightarrow> if py_ne k h then Inl ConfigError else Inr (h, u, d))))))"
  by (auto simp add: get_and_validate_lstm_params_def exk dest: py_len_error
      split: option.splits sum.splits)

lemma lstm_result:
  "lstm_get_and_validate_params (PDict kvs) =
     (case map_of kvs ''lstm'' of None \<Rightarrow> Inl ConfigError
      | Some p \<Rightarrow>
        (case p of PDict fs \<Rightarrow>
          (case map_of fs ''hiddenLayers'' of None \<Rightarrow> Inl ConfigError
           | Some h \<Rightarrow>
             (case map_of fs ''units'' of None \<Rightarrow> Inl ConfigError
              | Some u \<Rightarrow>
                 (case py_len u of Inl e \<Rightarrow> Inl TypeError
                  | Inr n \<Rightarrow> if py_ne n h then Inl ConfigError else
                     (case map_of fs ''dropout'' of None \<Rightarrow> Inl ConfigError
                      | Some d \<Rightarrow>
                        (case py_len d of Inl e \<Rightarrow> Inl TypeError
                         | Inr k \<Rightarrow> if py_ne k h then Inl ConfigError else Inr (h, u, d))))))
         | _ \<Rightarrow> Inl TypeError))"
  by (auto simp add: lstm_get_and_validate_params_def exk dest: py_len_error
      split: option.splits sum.splits pval.splits)


lemma layer_lists_simps:
  "layer_lists LstmModel = [(''lstm'', ''units''), (''lstm'', ''dropout'')]"
  "layer_lists CnnLstmModel = [(''cnn'', ''filters''), (''lstm'', ''units''), (''lstm'', ''dropout'')]"
  "layer_lists MultiInputCnnLstmModel
     = [(''cnn'', ''filters''), (''lstm'', ''units''), (''lstm'', ''dropout'')]"
  "layer_lists ConvLstmModel = [(''cnn'', ''filters'')]"
  "layer_lists Conv3DModel = [(''cnn'', ''filters'')]"
  by (simp_all add: layer_lists_def)

lemma guarded_sections_simps:
  "guarded_sections LstmModel = []"
  "guarded_sections CnnLstmModel = [''cnn'', ''lstm'']"
  "guarded_sections MultiInputCnnLstmModel = [''cnn'', ''lstm'']"
  "guarded_sections ConvLstmModel = [''cnn'']"
  "guarded_sections Conv3DModel = [''cnn'']"
  by (simp_all add: guarded_sections_def)

lemmas spec_defs = required_key_missing_def layer_list_length_differs_def
  hidden_layers_rejected_def layer_lists_simps guarded_sections_simps lookup2_def well_shaped_def

lemma is_list_iff: "is_list v = (\<exists>xs. v = PList xs)"
  by (cases v) simp_all

lemma is_dict_iff: "is_dict v = (\<exists>kvs. v = PDict kvs)"
  by (cases v) simp_all

lemma lstm_ce:
  assumes "well_shaped LstmModel ps"
  shows "(lstm_get_and_validate_params ps = Inl ConfigError) = (required_key_missing LstmModel ps \<or> layer_list_length_differs LstmModel ps
       \<or> hidden_layers_rejected LstmModel ps)"
  using assms
  by (cases ps)
   (auto simp add: spec_defs lstm_result is_list_iff is_dict_iff
      split: option.splits if_splits)

lemma lstm_only_ce:
  assumes "well_shaped LstmModel ps" "lstm_get_and_validate_params ps = Inl e"
  shows "e = ConfigError"
  using assms
  by (cases ps)
   (auto simp add: spec_defs lstm_result is_list_iff is_dict_iff split: option.splits if_splits)


lemma conv_ce:
  assumes "well_shaped ConvLstmModel ps"
  shows "(conv_get_and_validate_params ps = Inl ConfigError) = (required_key_missing ConvLstmModel ps \<or> layer_list_length_differs ConvLstmModel ps
       \<or> hidden_layers_rejected ConvLstmModel ps)"
  using assms
  by (cases ps)
   (auto simp add: spec_defs conv_get_and_validate_params_def exk cnn_section_result
      is_list_iff is_dict_iff split: option.splits if_splits)

lemma conv_only_ce:
  assumes "well_shaped ConvLstmModel ps" "conv_get_and_validate_params ps = Inl e"
  shows "e = ConfigError"
  using assms
  by (cases ps)
   (auto simp add: spec_defs conv_get_and_validate_params_def exk cnn_section_result
      is_list_iff is_dict_iff split: option.splits if_splits)

lemma cnn_lstm_ce:
  assumes "well_shaped CnnLstmModel ps"
  shows "(cnn_lstm_get_and_validate_params ps = Inl ConfigError) = (required_key_missing CnnLstmModel ps \<or> layer_list_length_differs CnnLstmModel ps
       \<or> hidden_layers_rejected CnnLstmModel ps)"
  using assms
  by (cases ps)
   (auto simp add: spec_defs cnn_lstm_get_and_validate_params_def exk
      cnn_section_result lstm_section_result
      is_list_iff is_dict_iff split: option.splits if_splits)

lemma cnn_lstm_only_ce:
  assumes "well_shaped CnnLstmModel ps" "cnn_lstm_get_and_validate_params ps = Inl e"
  shows "e = ConfigError"
  using assms
  by (cases ps)
   (auto simp add: spec_defs cnn_lstm_get_and_validate_params_def exk
      cnn_section_result lstm_section_result
      is_list_iff is_dict_iff split: option.splits if_splits)

lemma py_index_error: "py_index xs i = Inl e \<Longrightarrow> e = IndexError"
  by (simp add: py_index_def split: if_splits)

lemma subscript_error: "subscript v i = Inl e \<Longrightarrow> build_error e"
  by (cases v) (auto simp add: build_error_def dest: py_index_error split: sum.splits)

lemma shape_index_error: "shape_index sh i = Inl e \<Longrightarrow> build_error e"
  by (cases sh) (auto simp add: build_error_def dest: py_index_error)

lemma range_upto_pred_error: "range_upto_pred h = Inl e \<Longrightarrow> build_error e"
  by (auto simp add: range_upto_pred_def build_error_def split: option.splits)

lemma last_index_error: "last_index h = Inl e \<Longrightarrow> build_error e"
  by (auto simp add: last_index_def build_error_def split: option.splits)

lemma lstm_loop_error: "lstm_loop u d idxs = Inl e \<Longrightarrow> build_error e"
  by (induction idxs arbitrary: e) (auto dest: subscript_error split: sum.splits)

lemma conv_loop_error: "conv_loop step f idxs = Inl e \<Longrightarrow> build_error e"
  by (induction idxs arbitrary: e) (auto dest: subscript_error split: sum.splits)

lemmas build_errors = subscript_error shape_index_error range_upto_pred_error last_index_error
  lstm_loop_error conv_loop_error

lemma lstm_build_model_error: "lstm_build_model s p out = Inl e \<Longrightarrow> build_error e"
  by (auto simp add: lstm_build_model_def dest: build_errors split: prod.splits sum.splits)

lemma cnn_lstm_build_model_error: "cnn_lstm_build_model s p out = Inl e \<Longrightarrow> build_error e"
  by (auto simp add: cnn_lstm_build_model_def dest: build_errors split: prod.splits sum.splits)

lemma multi_build_model_error: "multi_build_model s p out = Inl e \<Longrightarrow> build_error e"
  by (auto simp add: multi_build_model_def dest: build_errors split: prod.splits sum.splits)

lemma conv_lstm_build_model_error: "conv_lstm_build_model s p out = Inl e \<Longrightarrow> build_error e"
  by (auto simp add: conv_lstm_build_model_def dest: build_errors split: prod.splits sum.splits)

lemma conv3d_build_model_error: "conv3d_build_model s p out = Inl e \<Longrightarrow> build_error e"
  by (auto simp add: conv3d_build_model_def dest: build_errors split: prod.splits sum.splits)

lemma same_spec_conv3d:
  "well_shaped Conv3DModel ps = well_shaped ConvLstmModel ps"
  "required_key_missing Conv3DModel ps = required_key_missing ConvLstmModel ps"
  "layer_list_length_differs Conv3DModel ps = layer_list_length_differs ConvLstmModel ps"
  "hidden_layers_rejected Conv3DModel ps = hidden_layers_rejected ConvLstmModel ps"
  by (simp_all add: spec_defs)

lemma same_spec_multi:
  "well_shaped MultiInputCnnLstmModel ps = well_shaped CnnLstmModel ps"
  "required_key_missing MultiInputCnnLstmModel ps = required_key_missing CnnLstmModel ps"
  "layer_list_length_differs MultiInputCnnLstmModel ps = layer_list_length_differs CnnLstmModel ps"
  "hidden_layers_rejected MultiInputCnnLstmModel ps = hidden_layers_rejected CnnLstmModel ps"
  by (simp_all add: spec_defs)

lemma validate_ce:
  assumes "well_shaped c ps"
  shows "(get_and_validate_params c ps = Inl ConfigError) =
     (required_key_missing c ps \<or> layer_list_length_differs c ps \<or> hidden_layers_rejected c ps)"
proof (cases c)
  case LstmModel
  with assms lstm_ce[of ps] show ?thesis by (auto split: sum.splits)
next
  case CnnLstmModel
  with assms cnn_lstm_ce[of ps] show ?thesis by simp
next
  case MultiInputCnnLstmModel
  with assms cnn_lstm_ce[of ps] show ?thesis by (simp add: same_spec_multi)
next
  case ConvLstmModel
  with assms conv_ce[of ps] show ?thesis by simp
next
  case Conv3DModel
  with assms conv_ce[of ps] show ?thesis by (simp add: same_spec_conv3d)
qed

lemma validate_only_ce:
  assumes "well_shaped c ps" "get_and_validate_params c ps = Inl e"
  shows "e = ConfigError"
proof (cases c)
  case LstmModel
  with assms lstm_only_ce[of ps] show ?thesis by (auto split: sum.splits)
next
  case CnnLstmModel
  with assms cnn_lstm_only_ce[of ps e] show ?thesis by simp
next
  case MultiInputCnnLstmModel
  with assms cnn_lstm_only_ce[of ps e] show ?thesis by (simp add: same_spec_multi)
next
  case ConvLstmModel
  with assms conv_only_ce[of ps e] show ?thesis by simp
next
  case Conv3DModel
  with assms conv_only_ce[of ps e] show ?thesis by (simp add: same_spec_conv3d)
qed

lemma build_model_error: "build_model c s pt out = Inl e \<Longrightarrow> build_error e \<or> e = ValueError"
  by (cases c; cases pt)
    (auto dest: lstm_build_model_error cnn_lstm_build_model_error multi_build_model_error
       conv_lstm_build_model_error conv3d_build_model_error)

lemma build_model_not_ConfigError: "build_model c s pt out \<noteq> Inl ConfigError"
  using build_model_error[of c s pt out ConfigError] by (auto simp add: build_error_def)

lemma build_ce:
  "(build m s out = Inl ConfigError) =
     (get_and_validate_params (cls m) (params (config m)) = Inl ConfigError)"
  by (auto simp add: build_def build_model_not_ConfigError split: sum.splits)

lemma factory_ignores_params:
  "factory (cfg\<lparr>params := ps\<rparr>) = map_sum id (\<lambda>m. m\<lparr>config := cfg\<lparr>params := ps\<rparr>\<rparr>) (factory cfg)"
  by (simp add: factory_def init_model_def)

text \<open>
  Claim C5, as amended.  Constructing a model validates nothing: the factory's result
  for a configuration does not depend on its parameters, apart from storing them.
  \<open>build\<close> runs the validation of the model's class, and an exception of the validation
  is the exception of \<open>build\<close>.  For a parameter dictionary of the documented shape (the
  sections are dictionaries and the per-layer entries are lists), \<open>build\<close> raises a
  ConfigError exactly when a required key of the model type is missing, or a per-layer
  list has a length that differs from \<open>hiddenLayers\<close>, or, for the CNN variants, a
  \<open>hiddenLayers\<close> entry is not an instance of \<open>int\<close> or is negative.
\<close>

theorem build_config_error_iff:
  "factory (cfg\<lparr>params := ps\<rparr>)
     = map_sum id (\<lambda>m. m\<lparr>config := cfg\<lparr>params := ps\<rparr>\<rparr>) (factory cfg) \<and>
   (get_and_validate_params (cls m) (params (config m)) = Inl e \<longrightarrow> build m s out = Inl e) \<and>
   (well_shaped (cls m) (params (config m)) \<longrightarrow>
      (build m s out = Inl ConfigError) =
        (required_key_missing (cls m) (params (config m)) \<or>
         layer_list_length_differs (cls m) (params (config m)) \<or>
         hidden_layers_rejected (cls m) (params (config m))))"
  using validate_ce[of "cls m" "params (config m)"]
  by (simp add: factory_ignores_params build_ce) (simp add: build_def)

text \<open>
  The claim as stated fails: for a ConvLSTM configuration with \<open>hiddenLayers = 2.0\<close> and
  two filters no required key is missing and the length of \<open>filters\<close> does not differ
  from \<open>hiddenLayers\<close> (\<open>2 != 2.0\<close> is false), and \<open>build\<close> raises a ConfigError, from
  the check \<open>isinstance(hidden_layers, int)\<close>.
\<close>

theorem build_config_error_counterexample:
  "build (init_model ConvLstmModel
       \<lparr>model_type = ''convlstm'',
        params = PDict [(''cnn'', PDict [(''hiddenLayers'', PFloat 2),
                                          (''filters'', PList [PInt 8, PInt 16])])]\<rparr>)
     (Tuple [Dim 10, Dim 4, Dim 4, Dim 3]) None = Inl ConfigError \<and>
   \<not> required_key_missing ConvLstmModel
       (PDict [(''cnn'', PDict [(''hiddenLayers'', PFloat 2),
                                (''filters'', PList [PInt 8, PInt 16])])]) \<and>
   \<not> layer_list_length_differs ConvLstmModel
       (PDict [(''cnn'', PDict [(''hiddenLayers'', PFloat 2),
                                (''filters'', PList [PInt 8, PInt 16])])])"
  by (simp add: build_def init_model_def conv_get_and_validate_params_def cnn_section_result
      exk spec_defs)

theorem build_config_error_iff_witness:
  "well_shaped CnnLstmModel
     (PDict [(''cnn'', PDict [(''hiddenLayers'', PInt 3),
                              (''filters'', PList [PInt 8, PInt 16, PInt 32])]),
             (''lstm'', PDict [(''hiddenLayers'', PInt 1), (''units'', PList [PInt 32, PInt 32]),
                               (''dropout'', PList [PInt 0])])]) \<and>
   layer_list_length_differs CnnLstmModel
     (PDict [(''cnn'', PDict [(''hiddenLayers'', PInt 3),
                              (''filters'', PList [PInt 8, PInt 16, PInt 32])]),
             (''lstm'', PDict [(''hiddenLayers'', PInt 1), (''units'', PList [PInt 32, PInt 32]),
                               (''dropout'', PList [PInt 0])])]) \<and>
   build (init_model CnnLstmModel
       \<lparr>model_type = ''cnn-lstm'',
        params = PDict [(''cnn'', PDict [(''hiddenLayers'', PInt 3),
                              (''filters'', PList [PInt 8, PInt 16, PInt 32])]),
             (''lstm'', PDict [(''hiddenLayers'', PInt 1), (''units'', PList [PInt 32, PInt 32]),
                               (''dropout'', PList [PInt 0])])]\<rparr>)
     (Tuple [Dim 10, Dim 4, Dim 4, Dim 3]) None = Inl ConfigError \<and>
   get_and_validate_params CnnLstmModel
     (PDict [(''cnn'', PDict [(''hiddenLayers'', PInt 3),
                              (''filters'', PList [PInt 8, PInt 16, PInt 32])]),
             (''lstm'', PDict [(''hiddenLayers'', PInt 1), (''units'', PList [PInt 32, PInt 32]),
                               (''dropout'', PList [PInt 0])])]) = Inl ConfigError"
proof -
  let ?ps = "PDict [(''cnn'', PDict [(''hiddenLayers'', PInt 3),
                              (''filters'', PList [PInt 8, PInt 16, PInt 32])]),
             (''lstm'', PDict [(''hiddenLayers'', PInt 1), (''units'', PList [PInt 32, PInt 32]),
                               (''dropout'', PList [PInt 0])])]"
  let ?m = "init_model CnnLstmModel \<lparr>model_type = ''cnn-lstm'', params = ?ps\<rparr>"
  have w: "well_shaped CnnLstmModel ?ps" by (simp add: spec_defs)
  have d: "layer_list_length_differs CnnLstmModel ?ps" by (simp add: spec_defs)
  have v: "get_and_validate_params CnnLstmModel ?ps = Inl ConfigError"
    by (simp add: cnn_lstm_get_and_validate_params_def cnn_section_result lstm_section_result exk)
  have c: "cls ?m = CnnLstmModel" "params (config ?m) = ?ps" by (simp_all add: init_model_def)
  from build_config_error_iff[where m = ?m and s = "Tuple [Dim 10, Dim 4, Dim 4, Dim 3]"
      and out = None and e = ConfigError and ps = ?ps
      and cfg = "\<lparr>model_type = ''cnn-lstm'', params = ?ps\<rparr>"]
  have "build ?m (Tuple [Dim 10, Dim 4, Dim 4, Dim 3]) None = Inl ConfigError"
    using w d v unfolding c by blast
  with w d v show ?thesis by blast
qed

section \<open>File discovery\<close>



section \<open>Fitting the scaling parameters\<close>

lemma ds_reduce_dims:
  "map (\<lambda>(n, a). (n, dims a)) (data_vars (ds_reduce f red ts))
     = map (\<lambda>(n, a). (n, filter (\<lambda>d. d \<notin> set red) (dims a))) (data_vars ts)"
  by (simp add: ds_reduce_def arr_reduce_def kept_dims_def split_def)

lemma has_coords_subset:
  "has_coords ts [''basin'', ''time'', ''y'', ''x''] \<Longrightarrow> has_coords ts [''basin'', ''time'']"
  by (simp add: has_coords_def)

text \<open>
  Claim C3.  Fitting looks at the coordinates of the dataset's array.  When they contain
  basin, time, y and x, the minimum and maximum are reduced over time, y and x; when they
  contain basin and time but not all of y and x, over time only; in both cases the
  variables of the parameters keep the other dimensions, and the processor takes the
  feature columns of the dataset as its variables.  When they contain neither set, that is
  when basin or time is missing, fitting raises a ValueError.
\<close>

theorem fit_by_coordinate_set:
  "(has_coords (arrays h (timeseries (hydros h r))) [''basin'', ''time'', ''y'', ''x''] \<longrightarrow>
      fit p h r = Inr (p\<lparr>variables := Some (feature_cols (hydros h r)),
                          scaling_params :=
                            Some (ds_reduce nanmin [''time'', ''y'', ''x'']
                                    (arrays h (timeseries (hydros h r))),
                                  ds_reduce nanmax [''time'', ''y'', ''x'']
                                    (arrays h (timeseries (hydros h r))))\<rparr>)) \<and>
   (has_coords (arrays h (timeseries (hydros h r))) [''basin'', ''time''] \<and>
    \<not> has_coords (arrays h (timeseries (hydros h r))) [''basin'', ''time'', ''y'', ''x''] \<longrightarrow>
      fit p h r = Inr (p\<lparr>variables := Some (feature_cols (hydros h r)),
                          scaling_params :=
                            Some (ds_reduce nanmin [''time''] (arrays h (timeseries (hydros h r))),
                                  ds_reduce nanmax [''time'']
                                    (arrays h (timeseries (hydros h r))))\<rparr>)) \<and>
   (\<not> has_coords (arrays h (timeseries (hydros h r))) [''basin'', ''time''] \<longrightarrow>
      fit p h r = Inl ValueError \<and>
      fit_scaling_params p (arrays h (timeseries (hydros h r))) = Inl ValueError) \<and>
   map (\<lambda>(n, a). (n, dims a)) (data_vars (ds_reduce f red ts))
     = map (\<lambda>(n, a). (n, filter (\<lambda>d. d \<notin> set red) (dims a))) (data_vars ts) \<and>
   map fst (coords (ds_reduce f red ts)) = filter (\<lambda>d. d \<notin> set red) (map fst (coords ts))"
proof -
  have c: "map fst (coords (ds_reduce f red ts)) = filter (\<lambda>d. d \<notin> set red) (map fst (coords ts))"
    by (induction "coords ts") (auto simp add: ds_reduce_def filter_map comp_def split_def)
  show ?thesis
    using has_coords_subset[of "arrays h (timeseries (hydros h r))"] ds_reduce_dims[of f red ts] c
    by (auto simp add: fit_def fit_scaling_params_def)
qed

lemma nanmin_simps:
  "nanmin [] = NaN"
  "nanmin (NaN # vs) = nanmin vs"
  "v \<noteq> NaN \<Longrightarrow> nanmin (v # vs) = fold fmin (filter (\<lambda>v. v \<noteq> NaN) vs) v"
  by (simp_all add: nanmin_def nan_reduce_def)

lemma nanmax_simps:
  "nanmax [] = NaN"
  "nanmax (NaN # vs) = nanmax vs"
  "v \<noteq> NaN \<Longrightarrow> nanmax (v # vs) = fold fmax (filter (\<lambda>v. v \<noteq> NaN) vs) v"
  by (simp_all add: nanmax_def nan_reduce_def)

lemmas reduce_eval = ds_reduce_def arr_reduce_def kept_dims_def cell_key_def
  nanmin_simps nanmax_simps fmin_def fmax_def

theorem fit_by_coordinate_set_witness:
  "has_coords gridded_example [''basin'', ''time'', ''y'', ''x''] \<and>
   fit new_processor (store_of gridded_example) 0
     = Inr \<lparr>variables = Some [''prcp''],
            scaling_params = Some
              (\<lparr>coords = [(''basin'', [1])],
                data_vars = [(''prcp'', \<lparr>dims = [''basin''], cells = [([1], Num 0)]\<rparr>)]\<rparr>,
               \<lparr>coords = [(''basin'', [1])],
                data_vars = [(''prcp'', \<lparr>dims = [''basin''], cells = [([1], Num 6)]\<rparr>)]\<rparr>)\<rparr> \<and>
   has_coords lumped_example [''basin'', ''time''] \<and>
   \<not> has_coords lumped_example [''basin'', ''time'', ''y'', ''x''] \<and>
   fit new_processor (store_of lumped_example) 0
     = Inr \<lparr>variables = Some [''prcp''],
            scaling_params = Some
              (\<lparr>coords = [(''basin'', [1])],
                data_vars = [(''prcp'', \<lparr>dims = [''basin''], cells = [([1], Num 2)]\<rparr>),
                             (''streamflow'', \<lparr>dims = [''basin''], cells = [([1], Num 1)]\<rparr>)]\<rparr>,
               \<lparr>coords = [(''basin'', [1])],
                data_vars = [(''prcp'', \<lparr>dims = [''basin''], cells = [([1], Num 6)]\<rparr>),
                             (''streamflow'', \<lparr>dims = [''basin''], cells = [([1], Num 1)]\<rparr>)]\<rparr>)\<rparr> \<and>
   \<not> has_coords basinless_example [''basin'', ''time''] \<and>
   fit new_processor (store_of basinless_example) 0 = Inl ValueError"
proof -
  have g: "has_coords gridded_example [''basin'', ''time'', ''y'', ''x'']"
    by (simp add: has_coords_def gridded_example_def)
  have l: "has_coords lumped_example [''basin'', ''time'']"
    "\<not> has_coords lumped_example [''basin'', ''time'', ''y'', ''x'']"
    by (simp_all add: has_coords_def lumped_example_def)
  have b: "\<not> has_coords basinless_example [''basin'', ''time'']"
    by (simp add: has_coords_def basinless_example_def)
  have sg: "arrays (store_of gridded_example) (timeseries (hydros (store_of gridded_example) 0))
      = gridded_example"
    and sl: "arrays (store_of lumped_example) (timeseries (hydros (store_of lumped_example) 0))
      = lumped_example"
    and sb: "arrays (store_of basinless_example) (timeseries (hydros (store_of basinless_example) 0))
      = basinless_example"
    and fc: "\<And>ts. feature_cols (hydros (store_of ts) 0) = [''prcp'']"
    by (simp_all add: store_of_def)
  have rg: "ds_reduce nanmin [''time'', ''y'', ''x''] gridded_example
      = \<lparr>coords = [(''basin'', [1])],
         data_vars = [(''prcp'', \<lparr>dims = [''basin''], cells = [([1], Num 0)]\<rparr>)]\<rparr>"
    "ds_reduce nanmax [''time'', ''y'', ''x''] gridded_example
      = \<lparr>coords = [(''basin'', [1])],
         data_vars = [(''prcp'', \<lparr>dims = [''basin''], cells = [([1], Num 6)]\<rparr>)]\<rparr>"
    by (simp_all add: gridded_example_def reduce_eval)
  have rl: "ds_reduce nanmin [''time''] lumped_example
      = \<lparr>coords = [(''basin'', [1])],
         data_vars = [(''prcp'', \<lparr>dims = [''basin''], cells = [([1], Num 2)]\<rparr>),
                      (''streamflow'', \<lparr>dims = [''basin''], cells = [([1], Num 1)]\<rparr>)]\<rparr>"
    "ds_reduce nanmax [''time''] lumped_example
      = \<lparr>coords = [(''basin'', [1])],
         data_vars = [(''prcp'', \<lparr>dims = [''basin''], cells = [([1], Num 6)]\<rparr>),
                      (''streamflow'', \<lparr>dims = [''basin''], cells = [([1], Num 1)]\<rparr>)]\<rparr>"
    by (simp_all add: lumped_example_def reduce_eval)
  have t1: "fit new_processor (store_of gridded_example) 0
     = Inr \<lparr>variables = Some [''prcp''],
            scaling_params = Some
              (\<lparr>coords = [(''basin'', [1])],
                data_vars = [(''prcp'', \<lparr>dims = [''basin''], cells = [([1], Num 0)]\<rparr>)]\<rparr>,
               \<lparr>coords = [(''basin'', [1])],
                data_vars = [(''prcp'', \<lparr>dims = [''basin''], cells = [([1], Num 6)]\<rparr>)]\<rparr>)\<rparr>"
    using fit_by_coordinate_set[of "store_of gridded_example" 0 new_processor] g
    by (simp add: sg fc rg new_processor_def)
  have t2: "fit new_processor (store_of lumped_example) 0
     = Inr \<lparr>variables = Some [''prcp''],
            scaling_params = Some
              (\<lparr>coords = [(''basin'', [1])],
                data_vars = [(''prcp'', \<lparr>dims = [''basin''], cells = [([1], Num 2)]\<rparr>),
                             (''streamflow'', \<lparr>dims = [''basin''], cells = [([1], Num 1)]\<rparr>)]\<rparr>,
               \<lparr>coords = [(''basin'', [1])],
                data_vars = [(''prcp'', \<lparr>dims = [''basin''], cells = [([1], Num 6)]\<rparr>),
                             (''streamflow'', \<lparr>dims = [''basin''], cells = [([1], Num 1)]\<rparr>)]\<rparr>)\<rparr>"
    using fit_by_coordinate_set[of "store_of lumped_example" 0 new_processor] l
    by (simp add: sl fc rl new_processor_def)
  have t3: "fit new_processor (store_of basinless_example) 0 = Inl ValueError"
    using fit_by_coordinate_set[of "store_of basinless_example" 0 new_processor] b
    by (simp add: sb)
  from g l b t1 t2 t3 show ?thesis by blast
qed

section \<open>Scaling and rescaling\<close>

lemma map_of_zip_in:
  assumes "d \<in> set da" "length i = length da"
  shows "map_of (zip da i) d \<noteq> None"
proof -
  from assms(2) have "map fst (zip da i) = da" by simp
  then have "fst ` set (zip da i) = set da" by (metis set_map)
  with assms(1) show ?thesis by (simp add: map_of_eq_None_iff)
qed

lemma proj_self:
  "distinct db \<Longrightarrow> length j = length db \<Longrightarrow> proj db db j = map Some j"
proof (induction db arbitrary: j)
  case Nil
  then show ?case by (simp add: proj_def)
next
  case (Cons d db)
  then obtain l ls where j: "j = l # ls" by (cases j) auto
  with Cons have ih: "map (map_of (zip db ls)) db = map Some ls"
    by (simp add: proj_def)
  have "map (map_of (zip (d # db) (l # ls))) db = map (map_of (zip db ls)) db"
    using Cons.prems(1) by (auto simp add: map_eq_conv)
  with ih show ?case by (simp add: proj_def j)
qed

lemma proj_key_of:
  "list_all (\<lambda>d. d \<in> set da) db \<Longrightarrow> length i = length da
     \<Longrightarrow> proj da db i = map Some (key_of da db i)"
  by (auto simp add: proj_def key_of_def list_all_iff map_of_eq_None_iff
      dest!: map_of_zip_in[of _ da i])

lemma shared_all:
  "list_all (\<lambda>d. d \<in> set da) db \<Longrightarrow> filter (\<lambda>d. d \<in> set da) db = db"
  by (simp add: list_all_iff)

lemma compatible_key:
  assumes "list_all (\<lambda>d. d \<in> set da) db" "length i = length da"
    "distinct db" "length j = length db"
  shows "compatible da i db j = (j = key_of da db i)"
proof -
  have "proj da db i = map Some (key_of da db i)" using assms by (simp add: proj_key_of)
  moreover have "proj db db j = map Some j" using assms by (simp add: proj_self)
  ultimately show ?thesis
    using assms(1) by (auto simp add: compatible_def shared_all Let_def inj_map_eq_map)
qed

lemma extra_labels_none:
  "list_all (\<lambda>d. d \<in> set da) db \<Longrightarrow> extra_labels da db j = []"
  by (auto simp add: extra_labels_def list_all_iff filter_empty_conv dest: set_zip_leftD)

lemma filter_key_distinct:
  "distinct (map fst kvs) \<Longrightarrow> k \<in> set (map fst kvs)
     \<Longrightarrow> filter (\<lambda>(j, w). j = k) kvs = [(k, the (map_of kvs k))]"
proof (induction kvs)
  case Nil
  then show ?case by simp
next
  case (Cons kv kvs)
  obtain j w where kv: "kv = (j, w)" by (cases kv)
  show ?case
  proof (cases "j = k")
    case True
    with Cons.prems kv have "k \<notin> fst ` set kvs" by simp
    then have "filter (\<lambda>(j, w). j = k) kvs = []"
      by (force simp add: filter_empty_conv)
    with True kv show ?thesis by simp
  next
    case False
    with Cons kv show ?thesis by auto
  qed
qed


lemma concat_map_singleton:
  "(\<And>x. x \<in> set xs \<Longrightarrow> F x = [G x]) \<Longrightarrow> concat (map F xs) = map G xs"
  by (induction xs) auto

lemma partner_of_cell:
  assumes b: "broadcastable a b" and c: "(i, v) \<in> set (cells a)"
  shows "filter (\<lambda>(j, w). compatible (dims a) i (dims b) j) (cells b)
           = [(key_of (dims a) (dims b) i, param_at b (dims a) i)]"
proof -
  let ?k = "key_of (dims a) (dims b) i"
  from b c have li: "length i = length (dims a)"
    by (auto simp add: broadcastable_def well_indexed_def list_all_iff)
  from b have sub: "list_all (\<lambda>d. d \<in> set (dims a)) (dims b)" and db: "distinct (dims b)"
    and lj: "\<And>j w. (j, w) \<in> set (cells b) \<Longrightarrow> length j = length (dims b)"
    and dk: "distinct (map fst (cells b))"
    by (auto simp add: broadcastable_def well_indexed_def list_all_iff)
  from b c have kin: "?k \<in> set (map fst (cells b))"
    by (auto simp add: broadcastable_def list_all_iff)
  have "filter (\<lambda>(j, w). compatible (dims a) i (dims b) j) (cells b)
          = filter (\<lambda>(j, w). j = ?k) (cells b)"
    by (rule filter_cong) (auto simp add: compatible_key[OF sub li db] dest: lj)
  also have "\<dots> = [(?k, the (map_of (cells b) ?k))]"
    by (rule filter_key_distinct[OF dk kin])
  finally show ?thesis by (simp add: param_at_def)
qed

lemma arr_binop_broadcast:
  assumes b: "broadcastable a b"
  shows "arr_binop f a b
           = a\<lparr>cells := map (\<lambda>(i, v). (i, f v (param_at b (dims a) i))) (cells a)\<rparr>"
proof -
  from b have sub: "list_all (\<lambda>d. d \<in> set (dims a)) (dims b)"
    by (simp add: broadcastable_def)
  then have d: "filter (\<lambda>d. d \<notin> set (dims a)) (dims b) = []"
    by (auto simp add: list_all_iff filter_empty_conv)
  have c: "concat (map (\<lambda>(i, v).
                 map (\<lambda>(j, w). (i @ extra_labels (dims a) (dims b) j, f v w))
                   (filter (\<lambda>(j, w). compatible (dims a) i (dims b) j) (cells b)))
               (cells a))
         = map (\<lambda>(i, v). (i, f v (param_at b (dims a) i))) (cells a)"
    by (rule concat_map_singleton)
      (auto simp add: partner_of_cell[OF b] extra_labels_none[OF sub])
  show ?thesis by (simp add: arr_binop_def d c)
qed


lemma list_all_fst: "list_all (\<lambda>(i, v). P i) xs = list_all P (map fst xs)"
  by (induction xs) auto

lemma well_indexed_cong:
  "dims a' = dims a \<Longrightarrow> map fst (cells a') = map fst (cells a)
     \<Longrightarrow> well_indexed a' = well_indexed a"
  by (simp add: well_indexed_def list_all_fst)

lemma broadcastable_cong:
  "dims a' = dims a \<Longrightarrow> map fst (cells a') = map fst (cells a) \<Longrightarrow>
   dims b' = dims b \<Longrightarrow> map fst (cells b') = map fst (cells b) \<Longrightarrow>
   broadcastable a' b' = broadcastable a b"
  by (simp add: broadcastable_def list_all_fst well_indexed_cong[of a' a] well_indexed_cong[of b' b])

lemma map_fst_map_cells: "map fst (map (\<lambda>x. (fst x, g x)) xs) = map fst xs"
  by (induction xs) auto

lemma key_of_self:
  assumes "distinct dp" "length j = length dp"
  shows "key_of dp dp j = j"
proof -
  from proj_self[OF assms] have "map (map_of (zip dp j)) dp = map Some j"
    by (simp add: proj_def)
  then have "map the (map (map_of (zip dp j)) dp) = map the (map Some j)" by simp
  then show ?thesis by (simp add: key_of_def comp_def)
qed

lemma map_of_map_cells:
  "map_of (map (\<lambda>(j, w). (j, g j w)) xs) k = map_option (g k) (map_of xs k)"
  by (induction xs) auto

lemma key_in_cells:
  assumes "broadcastable a b" "(i, v) \<in> set (cells a)"
  shows "key_of (dims a) (dims b) i \<in> set (map fst (cells b))"
    and "length (key_of (dims a) (dims b) i) = length (dims b)"
  using assms by (auto simp add: broadcastable_def list_all_iff key_of_def)

lemma self_broadcastable:
  assumes "arr_covered a bmn bmx"
  shows "broadcastable bmx bmn"
proof -
  from assms have b: "broadcastable a bmn" and d: "dims bmx = dims bmn"
    and k: "map fst (cells bmx) = map fst (cells bmn)"
    by (simp_all add: arr_covered_def)
  from b have w: "well_indexed bmn" and dk: "distinct (map fst (cells bmn))"
    by (simp_all add: broadcastable_def)
  from w d k have wx: "well_indexed bmx" by (simp add: well_indexed_cong[of bmx bmn])
  have "list_all (\<lambda>(i, v). key_of (dims bmx) (dims bmn) i \<in> set (map fst (cells bmn))) (cells bmx)"
  proof -
    have "key_of (dims bmx) (dims bmn) j = j" if "j \<in> set (map fst (cells bmx))" for j
    proof -
      from that k w have "length j = length (dims bmn)"
        by (auto simp add: well_indexed_def list_all_fst list_all_iff)
      with w d show ?thesis by (simp add: key_of_self well_indexed_def)
    qed
    then have "\<forall>j \<in> set (map fst (cells bmx)).
        key_of (dims bmx) (dims bmn) j \<in> set (map fst (cells bmn))"
      using k by simp
    then have "list_all (\<lambda>j. key_of (dims bmx) (dims bmn) j \<in> set (map fst (cells bmn)))
        (map fst (cells bmx))"
      unfolding list_all_iff .
    then show ?thesis by (simp only: list_all_fst)
  qed
  with w wx dk d show ?thesis by (simp add: broadcastable_def list_all_iff)
qed

lemma covered_mx:
  assumes "arr_covered a bmn bmx"
  shows "broadcastable a bmx"
  using assms broadcastable_cong[of a a bmx bmn] by (simp add: arr_covered_def)


lemma param_at_difference:
  assumes cov: "arr_covered a bmn bmx" and c: "(i, v) \<in> set (cells a)"
  shows "param_at (arr_binop fsub bmx bmn) (dims a) i
           = fsub (param_at bmx (dims a) i) (param_at bmn (dims a) i)"
proof -
  let ?k = "key_of (dims a) (dims bmn) i"
  from cov have b: "broadcastable a bmn" and d: "dims bmx = dims bmn"
    and ks: "map fst (cells bmx) = map fst (cells bmn)"
    by (simp_all add: arr_covered_def)
  from b have w: "well_indexed bmn" by (simp add: broadcastable_def)
  from key_in_cells[OF b c] have kin: "?k \<in> set (map fst (cells bmn))"
    and kl: "length ?k = length (dims bmn)" by simp_all
  from kin ks have "?k \<in> fst ` set (cells bmx)" by (metis set_map)
  then obtain M where M: "map_of (cells bmx) ?k = Some M"
    by (cases "map_of (cells bmx) ?k") (auto simp add: map_of_eq_None_iff)
  from w kl have self: "key_of (dims bmn) (dims bmn) ?k = ?k"
    by (simp add: key_of_self well_indexed_def)
  have den: "arr_binop fsub bmx bmn
      = bmx\<lparr>cells := map (\<lambda>(j, w). (j, fsub w (param_at bmn (dims bmx) j))) (cells bmx)\<rparr>"
    by (rule arr_binop_broadcast[OF self_broadcastable[OF cov]])
  show ?thesis
    by (simp add: den param_at_def d map_of_map_cells M self)
qed

lemma arr_scale_cells:
  assumes cov: "arr_covered a bmn bmx"
  shows "arr_binop fdiv (arr_binop fsub a bmn) (arr_binop fsub bmx bmn)
           = a\<lparr>cells := map (\<lambda>(i, v).
                  (i, minmax_scaled (param_at bmn (dims a) i) (param_at bmx (dims a) i) v))
                (cells a)\<rparr>"
proof -
  let ?num = "a\<lparr>cells := map (\<lambda>(i, v). (i, fsub v (param_at bmn (dims a) i))) (cells a)\<rparr>"
  let ?den = "arr_binop fsub bmx bmn"
  from cov have b: "broadcastable a bmn" by (simp add: arr_covered_def)
  have num: "arr_binop fsub a bmn = ?num" by (rule arr_binop_broadcast[OF b])
  have dden: "dims ?den = dims bmx" "map fst (cells ?den) = map fst (cells bmx)"
    by (simp_all add: arr_binop_broadcast[OF self_broadcastable[OF cov]] split_def map_fst_map_cells)
  have "broadcastable ?num ?den = broadcastable a bmx"
    by (rule broadcastable_cong) (simp_all add: dden split_def map_fst_map_cells)
  with covered_mx[OF cov] have bn: "broadcastable ?num ?den" by simp
  have "arr_binop fdiv ?num ?den
      = ?num\<lparr>cells := map (\<lambda>(i, v). (i, fdiv v (param_at ?den (dims ?num) i))) (cells ?num)\<rparr>"
    by (rule arr_binop_broadcast[OF bn])
  also have "\<dots> = a\<lparr>cells := map (\<lambda>(i, v).
                  (i, minmax_scaled (param_at bmn (dims a) i) (param_at bmx (dims a) i) v))
                (cells a)\<rparr>"
  proof -
    have "map (\<lambda>(i, v). (i, fdiv v (param_at ?den (dims a) i)))
            (map (\<lambda>(i, v). (i, fsub v (param_at bmn (dims a) i))) (cells a))
        = map (\<lambda>(i, v).
                  (i, minmax_scaled (param_at bmn (dims a) i) (param_at bmx (dims a) i) v))
            (cells a)"
      by (auto simp add: minmax_scaled_def param_at_difference[OF cov])
    then show ?thesis by simp
  qed
  finally show ?thesis by (simp add: num)
qed

lemma arr_rescale_cells:
  assumes cov: "arr_covered a bmn bmx"
  shows "arr_binop fadd (arr_binop fmul a (arr_binop fsub bmx bmn)) bmn
           = a\<lparr>cells := map (\<lambda>(i, v).
                  (i, minmax_rescaled (param_at bmn (dims a) i) (param_at bmx (dims a) i) v))
                (cells a)\<rparr>"
proof -
  let ?den = "arr_binop fsub bmx bmn"
  let ?prod = "a\<lparr>cells := map (\<lambda>(i, v). (i, fmul v (param_at ?den (dims a) i))) (cells a)\<rparr>"
  from cov have b: "broadcastable a bmn" by (simp add: arr_covered_def)
  have dden: "dims ?den = dims bmx" "map fst (cells ?den) = map fst (cells bmx)"
    by (simp_all add: arr_binop_broadcast[OF self_broadcastable[OF cov]] split_def map_fst_map_cells)
  have "broadcastable a ?den = broadcastable a bmx"
    by (rule broadcastable_cong) (simp_all add: dden)
  with covered_mx[OF cov] have bd: "broadcastable a ?den" by simp
  have prod: "arr_binop fmul a ?den = ?prod" by (rule arr_binop_broadcast[OF bd])
  have "broadcastable ?prod bmn = broadcastable a bmn"
    by (rule broadcastable_cong) (simp_all add: split_def map_fst_map_cells)
  with b have bp: "broadcastable ?prod bmn" by simp
  have "arr_binop fadd ?prod bmn
      = ?prod\<lparr>cells := map (\<lambda>(i, v). (i, fadd v (param_at bmn (dims ?prod) i))) (cells ?prod)\<rparr>"
    by (rule arr_binop_broadcast[OF bp])
  also have "\<dots> = a\<lparr>cells := map (\<lambda>(i, v).
                  (i, minmax_rescaled (param_at bmn (dims a) i) (param_at bmx (dims a) i) v))
                (cells a)\<rparr>"
  proof -
    have "map (\<lambda>(i, v). (i, fadd v (param_at bmn (dims a) i)))
            (map (\<lambda>(i, v). (i, fmul v (param_at ?den (dims a) i))) (cells a))
        = map (\<lambda>(i, v).
                  (i, minmax_rescaled (param_at bmn (dims a) i) (param_at bmx (dims a) i) v))
            (cells a)"
      by (auto simp add: minmax_rescaled_def param_at_difference[OF cov])
    then show ?thesis by simp
  qed
  finally show ?thesis by (simp add: prod)
qed


lemma map_of_ds_binop:
  "map_of (data_vars (ds_binop f x y)) n =
     (case map_of (data_vars y) n of None \<Rightarrow> None
      | Some b \<Rightarrow> map_option (\<lambda>a. arr_binop f a b) (map_of (data_vars x) n))"
proof -
  have "map_of (concat (map (\<lambda>(n, a). case map_of ys n of None \<Rightarrow> []
                                         | Some b \<Rightarrow> [(n, arr_binop f a b)]) xs)) n
        = (case map_of ys n of None \<Rightarrow> None
           | Some b \<Rightarrow> map_option (\<lambda>a. arr_binop f a b) (map_of xs n))" for xs ys
    by (induction xs) (auto split: option.splits)
  then show ?thesis by (simp add: ds_binop_def)
qed

lemma data_vars_ds_binop:
  assumes "list_all (\<lambda>(n, a). map_of (data_vars y) n \<noteq> None) (data_vars x)"
  shows "data_vars (ds_binop f x y)
           = map (\<lambda>(n, a). (n, arr_binop f a (the (map_of (data_vars y) n)))) (data_vars x)"
proof -
  have "list_all (\<lambda>(n, a). map_of ys n \<noteq> None) xs \<Longrightarrow>
        concat (map (\<lambda>(n, a). case map_of ys n of None \<Rightarrow> []
                                | Some b \<Rightarrow> [(n, arr_binop f a b)]) xs)
        = map (\<lambda>(n, a). (n, arr_binop f a (the (map_of ys n)))) xs" for xs ys
    by (induction xs) auto
  with assms show ?thesis by (simp add: ds_binop_def)
qed

lemma join_coords_self:
  assumes "distinct (map fst c)"
  shows "join_coords c c = c"
proof -
  have a: "map (\<lambda>(d, ls). case map_of c d of None \<Rightarrow> (d, ls)
                     | Some ms \<Rightarrow> (d, filter (\<lambda>l. l \<in> set ms) ls)) c = map (\<lambda>x. x) c"
    by (rule map_cong) (auto simp add: map_of_is_SomeI[OF assms] split: option.splits)
  have b: "filter (\<lambda>(d, ms). d \<notin> fst ` set c) c = []"
    by (force simp add: filter_empty_conv)
  show ?thesis unfolding join_coords_def a b by simp
qed

lemma covers_vars:
  assumes "covers mn mx ds" "(n, a) \<in> set (data_vars ds)"
  shows "\<exists>bmn bmx. map_of (data_vars mn) n = Some bmn \<and> map_of (data_vars mx) n = Some bmx
            \<and> arr_covered a bmn bmx"
proof -
  from assms have "list_all (\<lambda>(n, a).
          case map_of (data_vars mn) n of None \<Rightarrow> False
          | Some bmn \<Rightarrow>
             (case map_of (data_vars mx) n of None \<Rightarrow> False
              | Some bmx \<Rightarrow> arr_covered a bmn bmx)) (data_vars ds)"
    by (simp add: covers_def)
  with assms(2) have "case map_of (data_vars mn) n of None \<Rightarrow> False
          | Some bmn \<Rightarrow>
             (case map_of (data_vars mx) n of None \<Rightarrow> False
              | Some bmx \<Rightarrow> arr_covered a bmn bmx)"
    unfolding list_all_iff by blast
  then show ?thesis by (simp split: option.splits)
qed

lemma covers_coords:
  assumes "covers mn mx ds"
  shows "coords mx = coords mn" "join_coords (coords mn) (coords mn) = coords mn"
    "join_coords (coords ds) (coords mn) = coords ds"
  using assms by (simp_all add: covers_def join_coords_self)

lemma ds_scale_cells:
  assumes cov: "covers mn mx ds"
  shows "ds_binop fdiv (ds_binop fsub ds mn) (ds_binop fsub mx mn)
           = map_cells_with minmax_scaled mn mx ds"
proof -
  let ?num = "ds_binop fsub ds mn" and ?den = "ds_binop fsub mx mn"
  have in_mn: "list_all (\<lambda>(n, a). map_of (data_vars mn) n \<noteq> None) (data_vars ds)"
    using covers_vars[OF cov] by (fastforce simp add: list_all_iff)
  have num: "data_vars ?num
      = map (\<lambda>(n, a). (n, arr_binop fsub a (the (map_of (data_vars mn) n)))) (data_vars ds)"
    by (rule data_vars_ds_binop[OF in_mn])
  have den: "map_of (data_vars ?den) n
      = Some (arr_binop fsub (the (map_of (data_vars mx) n)) (the (map_of (data_vars mn) n)))"
    if "(n, a) \<in> set (data_vars ds)" for n a
    using covers_vars[OF cov that] by (auto simp add: map_of_ds_binop)
  have in_den: "list_all (\<lambda>(n, a). map_of (data_vars ?den) n \<noteq> None) (data_vars ?num)"
    using den by (auto simp add: num list_all_iff)
  have "data_vars (ds_binop fdiv ?num ?den)
      = map (\<lambda>(n, a). (n, arr_binop fdiv a (the (map_of (data_vars ?den) n)))) (data_vars ?num)"
    by (rule data_vars_ds_binop[OF in_den])
  also have "\<dots> = data_vars (map_cells_with minmax_scaled mn mx ds)"
  proof -
    have "(case x of (n, a) \<Rightarrow>
            (n, arr_binop fdiv (arr_binop fsub a (the (map_of (data_vars mn) n)))
                  (the (map_of (data_vars ?den) n))))
        = (case x of (n, a) \<Rightarrow>
            (n, a\<lparr>cells := map (\<lambda>(i, v).
                  (i, minmax_scaled (param_at (the (map_of (data_vars mn) n)) (dims a) i)
                        (param_at (the (map_of (data_vars mx) n)) (dims a) i) v))
                (cells a)\<rparr>))"
      if "x \<in> set (data_vars ds)" for x
    proof -
      obtain n a where x: "x = (n, a)" by (cases x)
      from covers_vars[OF cov that[unfolded x]] obtain bmn bmx where
        "map_of (data_vars mn) n = Some bmn" "map_of (data_vars mx) n = Some bmx"
        "arr_covered a bmn bmx" by blast
      then show ?thesis
        using den[OF that[unfolded x]] by (simp add: x arr_scale_cells)
    qed
    then show ?thesis
      by (simp add: num map_cells_with_def comp_def split_def)
  qed
  finally have dv: "data_vars (ds_binop fdiv ?num ?den)
      = data_vars (map_cells_with minmax_scaled mn mx ds)" .
  have co: "coords (ds_binop fdiv ?num ?den) = coords (map_cells_with minmax_scaled mn mx ds)"
    by (simp add: ds_binop_def map_cells_with_def covers_coords[OF cov])
  from dv co show ?thesis by simp
qed


lemma ds_rescale_cells:
  assumes cov: "covers mn mx ds"
  shows "ds_binop fadd (ds_binop fmul ds (ds_binop fsub mx mn)) mn
           = map_cells_with minmax_rescaled mn mx ds"
proof -
  let ?den = "ds_binop fsub mx mn"
  let ?prod = "ds_binop fmul ds ?den"
  have den: "map_of (data_vars ?den) n
      = Some (arr_binop fsub (the (map_of (data_vars mx) n)) (the (map_of (data_vars mn) n)))"
    if "(n, a) \<in> set (data_vars ds)" for n a
    using covers_vars[OF cov that] by (auto simp add: map_of_ds_binop)
  have in_den: "list_all (\<lambda>(n, a). map_of (data_vars ?den) n \<noteq> None) (data_vars ds)"
    using den by (auto simp add: list_all_iff)
  have prod: "data_vars ?prod
      = map (\<lambda>(n, a). (n, arr_binop fmul a (the (map_of (data_vars ?den) n)))) (data_vars ds)"
    by (rule data_vars_ds_binop[OF in_den])
  have in_mn: "list_all (\<lambda>(n, a). map_of (data_vars mn) n \<noteq> None) (data_vars ?prod)"
    using covers_vars[OF cov] by (fastforce simp add: prod list_all_iff)
  have "data_vars (ds_binop fadd ?prod mn)
      = map (\<lambda>(n, a). (n, arr_binop fadd a (the (map_of (data_vars mn) n)))) (data_vars ?prod)"
    by (rule data_vars_ds_binop[OF in_mn])
  also have "\<dots> = data_vars (map_cells_with minmax_rescaled mn mx ds)"
  proof -
    have "(case x of (n, a) \<Rightarrow>
            (n, arr_binop fadd (arr_binop fmul a (the (map_of (data_vars ?den) n)))
                  (the (map_of (data_vars mn) n))))
        = (case x of (n, a) \<Rightarrow>
            (n, a\<lparr>cells := map (\<lambda>(i, v).
                  (i, minmax_rescaled (param_at (the (map_of (data_vars mn) n)) (dims a) i)
                        (param_at (the (map_of (data_vars mx) n)) (dims a) i) v))
                (cells a)\<rparr>))"
      if "x \<in> set (data_vars ds)" for x
    proof -
      obtain n a where x: "x = (n, a)" by (cases x)
      from covers_vars[OF cov that[unfolded x]] obtain bmn bmx where
        "map_of (data_vars mn) n = Some bmn" "map_of (data_vars mx) n = Some bmx"
        "arr_covered a bmn bmx" by blast
      then show ?thesis
        using den[OF that[unfolded x]] by (simp add: x arr_rescale_cells)
    qed
    then show ?thesis
      by (simp add: prod map_cells_with_def comp_def split_def)
  qed
  finally have dv: "data_vars (ds_binop fadd ?prod mn)
      = data_vars (map_cells_with minmax_rescaled mn mx ds)" .
  have co: "coords (ds_binop fadd ?prod mn) = coords (map_cells_with minmax_rescaled mn mx ds)"
    by (simp add: ds_binop_def map_cells_with_def covers_coords[OF cov])
  from dv co show ?thesis by simp
qed

lemma arr_covered_cong:
  "dims a' = dims a \<Longrightarrow> map fst (cells a') = map fst (cells a)
     \<Longrightarrow> arr_covered a' bmn bmx = arr_covered a bmn bmx"
  using broadcastable_cong[of a' a bmn bmn] by (simp add: arr_covered_def)

lemma arr_covered_update:
  "arr_covered (a\<lparr>cells := map (\<lambda>x. (fst x, h x)) (cells a)\<rparr>) bmn bmx = arr_covered a bmn bmx"
  by (rule arr_covered_cong) (simp_all add: map_fst_map_cells)

lemma covers_map_cells:
  "covers mn mx (map_cells_with g mn mx ds) = covers mn mx ds"
  by (simp add: covers_def map_cells_with_def list.pred_map comp_def split_def
      arr_covered_update cong: option.case_cong)


lemma map_cells_compose:
  "map_cells_with g2 mn mx (map_cells_with g1 mn mx ds)
     = map_cells_with (\<lambda>m M v. g2 m M (g1 m M v)) mn mx ds"
  by (simp add: map_cells_with_def comp_def split_def)

lemma roundtrip_value:
  assumes "finite_distinct m M"
  shows "minmax_rescaled m M (minmax_scaled m M v) = v"
proof -
  from assms obtain x y where m: "m = Num x" and M: "M = Num y" and ne: "x \<noteq> y"
    by (auto simp add: finite_distinct_def split: fval.splits)
  then have d: "y - x \<noteq> 0" by simp
  show ?thesis
    using d by (cases v)
      (auto simp add: m M minmax_rescaled_def minmax_scaled_def fsub_def signed_inf_def)
qed

lemma map_cells_id:
  assumes "\<And>n a i v. (n, a) \<in> set (data_vars ds) \<Longrightarrow> (i, v) \<in> set (cells a) \<Longrightarrow>
     g (param_at (the (map_of (data_vars mn) n)) (dims a) i)
       (param_at (the (map_of (data_vars mx) n)) (dims a) i) v = v"
  shows "map_cells_with g mn mx ds = ds"
proof -
  have c: "map (\<lambda>(i, v).
             (i, g (param_at (the (map_of (data_vars mn) n)) (dims a) i)
                   (param_at (the (map_of (data_vars mx) n)) (dims a) i) v)) (cells a) = cells a"
    if "(n, a) \<in> set (data_vars ds)" for n a
    by (rule map_idI) (use assms[OF that] in auto)
  have "map (\<lambda>(n, a).
                 (n, a\<lparr>cells :=
                        map (\<lambda>(i, v).
                               (i, g (param_at (the (map_of (data_vars mn) n)) (dims a) i)
                                     (param_at (the (map_of (data_vars mx) n)) (dims a) i) v))
                          (cells a)\<rparr>))
            (data_vars ds) = data_vars ds"
    by (rule map_idI) (auto simp add: c)
  then show ?thesis by (simp add: map_cells_with_def)
qed

lemma param_finite:
  assumes cov: "covers mn mx ds" and fin: "params_finite_distinct mn mx"
    and na: "(n, a) \<in> set (data_vars ds)" and iv: "(i, v) \<in> set (cells a)"
  shows "finite_distinct (param_at (the (map_of (data_vars mn) n)) (dims a) i)
           (param_at (the (map_of (data_vars mx) n)) (dims a) i)"
proof -
  from covers_vars[OF cov na] obtain bmn bmx where
    mn: "map_of (data_vars mn) n = Some bmn" and mx: "map_of (data_vars mx) n = Some bmx"
    and ac: "arr_covered a bmn bmx" by blast
  let ?k = "key_of (dims a) (dims bmn) i"
  from ac have b: "broadcastable a bmn" and d: "dims bmx = dims bmn"
    and ks: "map fst (cells bmx) = map fst (cells bmn)"
    by (simp_all add: arr_covered_def)
  from key_in_cells(1)[OF b iv] have kin: "?k \<in> set (map fst (cells bmn))" .
  from b have dk: "distinct (map fst (cells bmn))" by (simp add: broadcastable_def)
  from kin obtain m where m: "map_of (cells bmn) ?k = Some m"
    by (cases "map_of (cells bmn) ?k") (auto simp add: map_of_eq_None_iff)
  from kin ks have "?k \<in> fst ` set (cells bmx)" by (metis set_map)
  then obtain M where M: "map_of (cells bmx) ?k = Some M"
    by (cases "map_of (cells bmx) ?k") (auto simp add: map_of_eq_None_iff)
  from mn have "(n, bmn) \<in> set (data_vars mn)" by (rule map_of_SomeD)
  with fin mx have "\<forall>(j, m) \<in> set (cells bmn). case map_of (cells bmx) j of None \<Rightarrow> True
                                  | Some M \<Rightarrow> finite_distinct m M"
    unfolding params_finite_distinct_def list_all_iff by fastforce
  moreover from m have "(?k, m) \<in> set (cells bmn)" by (rule map_of_SomeD)
  ultimately have "finite_distinct m M" using M by fastforce
  then show ?thesis by (simp add: mn mx param_at_def d m M)
qed

lemma scale_fitted:
  "scaling_params p = Some (mn, mx)
     \<Longrightarrow> scale p ds = ds_binop fdiv (ds_binop fsub ds mn) (ds_binop fsub mx mn)"
  by (simp add: scale_def)

lemma roundtrip:
  assumes sp: "scaling_params p = Some (mn, mx)" and cov: "covers mn mx ds"
    and fin: "params_finite_distinct mn mx"
  shows "rescale p (scale p ds) = Inr ds"
proof -
  have s: "scale p ds = map_cells_with minmax_scaled mn mx ds"
    by (simp add: scale_fitted[OF sp] ds_scale_cells[OF cov])
  have c2: "covers mn mx (map_cells_with minmax_scaled mn mx ds)"
    using cov by (simp add: covers_map_cells)
  have "rescale p (scale p ds)
      = Inr (map_cells_with minmax_rescaled mn mx (map_cells_with minmax_scaled mn mx ds))"
    by (simp add: rescale_def sp s ds_rescale_cells[OF c2])
  also have "\<dots> = Inr ds"
    by (simp add: map_cells_compose)
      (rule map_cells_id, rule roundtrip_value, rule param_finite[OF cov fin])
  finally show ?thesis .
qed


lemma remdups_const: "remdups (map (\<lambda>x. c) xs) = (if xs = [] then [] else [c])"
proof (induction xs)
  case Nil
  then show ?case by simp
next
  case (Cons x xs)
  then show ?case by (cases xs) auto
qed

lemma cell_key_all:
  assumes "set (dims a) \<subseteq> set red"
  shows "cell_key red a i = []"
proof -
  have "filter (\<lambda>(d, l). d \<notin> set red) (zip (dims a) i) = []"
    using assms by (auto simp add: filter_empty_conv dest: set_zip_leftD)
  then show ?thesis by (simp add: cell_key_def)
qed

lemma arr_reduce_all:
  assumes "set (dims a) \<subseteq> set red"
  shows "arr_reduce f red a
           = \<lparr>dims = [], cells = (if cells a = [] then [] else [([], f (map snd (cells a)))])\<rparr>"
proof -
  have k: "kept_dims red a = []"
    using assms by (auto simp add: kept_dims_def filter_empty_conv)
  show ?thesis
    by (simp add: arr_reduce_def k cell_key_all[OF assms] split_def remdups_const)
qed

lemma arr_binop_scalar:
  assumes "dims b = []" "cells b = [([], w)]"
  shows "arr_binop f a b = a\<lparr>cells := map (\<lambda>(i, v). (i, f v w)) (cells a)\<rparr>"
proof -
  have "concat (map (\<lambda>(i, v). [(i, f v w)]) (cells a)) = map (\<lambda>(i, v). (i, f v w)) (cells a)"
    by (rule concat_map_singleton) auto
  then show ?thesis
    by (simp add: arr_binop_def assms compatible_def proj_def extra_labels_def)
qed

lemma arr_binop_empty:
  assumes "dims b = []" "cells a = [] \<or> cells b = []"
  shows "arr_binop f a b = a\<lparr>cells := []\<rparr>"
proof -
  have "concat (map (\<lambda>(i, v). []) (cells a)) = ([] :: (label list \<times> fval) list)"
    by (induction "cells a") auto
  with assms show ?thesis by (auto simp add: arr_binop_def)
qed

lemma arr_scale_unfitted:
  assumes "set (dims a) \<subseteq> set red"
  shows "arr_binop fdiv (arr_binop fsub a (arr_reduce nanmin red a))
           (arr_binop fsub (arr_reduce nanmax red a) (arr_reduce nanmin red a))
         = a\<lparr>cells := map (\<lambda>(i, v).
                (i, minmax_scaled (nanmin (map snd (cells a))) (nanmax (map snd (cells a))) v))
              (cells a)\<rparr>"
proof (cases "cells a = []")
  case True
  then show ?thesis
    by (simp add: arr_reduce_all[OF assms] arr_binop_empty)
next
  case False
  let ?m = "nanmin (map snd (cells a))" and ?M = "nanmax (map snd (cells a))"
  have den: "arr_binop fsub (arr_reduce nanmax red a) (arr_reduce nanmin red a)
      = \<lparr>dims = [], cells = [([], fsub ?M ?m)]\<rparr>"
    using False by (simp add: arr_reduce_all[OF assms] arr_binop_scalar)
  have num: "arr_binop fsub a (arr_reduce nanmin red a)
      = a\<lparr>cells := map (\<lambda>(i, v). (i, fsub v ?m)) (cells a)\<rparr>"
    using False by (simp add: arr_reduce_all[OF assms] arr_binop_scalar)
  show ?thesis
    by (simp add: den num arr_binop_scalar minmax_scaled_def comp_def split_def)
qed


lemma map_of_mapped_var:
  assumes "distinct (map fst xs)" "(n, a) \<in> set xs"
  shows "map_of (map (\<lambda>(n, a). (n, g a)) xs) n = Some (g a)"
proof -
  have "map_of (map (\<lambda>(n, a). (n, g a)) xs) n = map_option g (map_of xs n)"
    by (induction xs) auto
  with map_of_is_SomeI[OF assms] show ?thesis by simp
qed

lemma dims_in_all_dims:
  "(n, a) \<in> set (data_vars ds) \<Longrightarrow> set (dims a) \<subseteq> set (all_dims ds)"
  by (auto simp add: all_dims_def)

lemma coords_reduce_all: "coords (ds_reduce f (all_dims ds) ds) = []"
  by (auto simp add: ds_reduce_def all_dims_def filter_empty_conv intro: rev_image_eqI)

lemma join_coords_empty: "join_coords c [] = c"
  by (simp add: join_coords_def split_def)

lemma scale_unfitted:
  assumes sp: "scaling_params p = None" and dn: "distinct (map fst (data_vars ds))"
  shows "scale p ds = scale_unfitted_spec ds"
proof -
  let ?R = "all_dims ds"
  let ?mn = "ds_min ds" and ?mx = "ds_max ds"
  let ?num = "ds_binop fsub ds ?mn" and ?den = "ds_binop fsub ?mx ?mn"
  have mn: "map_of (data_vars ?mn) n = Some (arr_reduce nanmin ?R a)"
    and mx: "map_of (data_vars ?mx) n = Some (arr_reduce nanmax ?R a)"
    if "(n, a) \<in> set (data_vars ds)" for n a
    using map_of_mapped_var[OF dn that] by (simp_all add: ds_min_def ds_max_def ds_reduce_def)
  have in_mn: "list_all (\<lambda>(n, a). map_of (data_vars ?mn) n \<noteq> None) (data_vars ds)"
    using mn by (auto simp add: list_all_iff)
  have num: "data_vars ?num
      = map (\<lambda>(n, a). (n, arr_binop fsub a (the (map_of (data_vars ?mn) n)))) (data_vars ds)"
    by (rule data_vars_ds_binop[OF in_mn])
  have den: "map_of (data_vars ?den) n
      = Some (arr_binop fsub (arr_reduce nanmax ?R a) (arr_reduce nanmin ?R a))"
    if "(n, a) \<in> set (data_vars ds)" for n a
    by (simp add: map_of_ds_binop mn[OF that] mx[OF that])
  have in_den: "list_all (\<lambda>(n, a). map_of (data_vars ?den) n \<noteq> None) (data_vars ?num)"
    using den by (auto simp add: num list_all_iff)
  have "data_vars (ds_binop fdiv ?num ?den)
      = map (\<lambda>(n, a). (n, arr_binop fdiv a (the (map_of (data_vars ?den) n)))) (data_vars ?num)"
    by (rule data_vars_ds_binop[OF in_den])
  also have "\<dots> = data_vars (scale_unfitted_spec ds)"
  proof -
    have "(case x of (n, a) \<Rightarrow>
            (n, arr_binop fdiv (arr_binop fsub a (the (map_of (data_vars ?mn) n)))
                  (the (map_of (data_vars ?den) n))))
        = (case x of (n, a) \<Rightarrow>
            (n, a\<lparr>cells := map (\<lambda>(i, v).
                  (i, minmax_scaled (nanmin (map snd (cells a))) (nanmax (map snd (cells a))) v))
                (cells a)\<rparr>))"
      if "x \<in> set (data_vars ds)" for x
    proof -
      obtain n a where x: "x = (n, a)" by (cases x)
      show ?thesis
        using that
        by (simp add: x mn[OF that[unfolded x]] den[OF that[unfolded x]]
            arr_scale_unfitted[OF dims_in_all_dims[OF that[unfolded x]]])
    qed
    then show ?thesis
      by (simp add: num scale_unfitted_spec_def comp_def split_def)
  qed
  finally have dv: "data_vars (ds_binop fdiv ?num ?den) = data_vars (scale_unfitted_spec ds)" .
  have co: "coords (ds_binop fdiv ?num ?den) = coords (scale_unfitted_spec ds)"
    by (simp add: ds_binop_def scale_unfitted_spec_def ds_min_def ds_max_def
        coords_reduce_all join_coords_empty)
  have "scale p ds = ds_binop fdiv ?num ?den" by (simp add: scale_def sp)
  with dv co show ?thesis by simp
qed

lemmas binop_eval = ds_binop_def arr_binop_def compatible_def proj_def extra_labels_def
  join_coords_def fsub_def signed_inf_def

lemmas covers_eval = covers_def arr_covered_def broadcastable_def well_indexed_def key_of_def
  join_coords_def params_finite_distinct_def finite_distinct_def

text \<open>
  Claim C4.  \<open>scale\<close> returns \<open>(ds - min) / (max - min)\<close>, with the stored parameters when
  the processor has them and with the minimum and the maximum of the dataset itself
  otherwise, and does nothing else: the result has the coordinates, the variables and the
  cells of the dataset, and every value \<open>v\<close> has become \<open>(v - min) / (max - min)\<close> for the
  minimum and the maximum of its variable.  Without stored parameters these are the
  minimum and the maximum of all values of the variable (the names of the variables of a
  dataset are distinct).  With stored parameters they are the stored values for the
  labels of the cell, provided that the parameters cover the dataset.
\<close>

theorem scale_is_minmax_scaling:
  "(scaling_params p = None \<longrightarrow>
      scale p ds = ds_binop fdiv (ds_binop fsub ds (ds_min ds))
                     (ds_binop fsub (ds_max ds) (ds_min ds))) \<and>
   (scaling_params p = None \<and> distinct (map fst (data_vars ds)) \<longrightarrow>
      scale p ds = scale_unfitted_spec ds) \<and>
   (scaling_params p = Some (mn, mx) \<longrightarrow>
      scale p ds = ds_binop fdiv (ds_binop fsub ds mn) (ds_binop fsub mx mn)) \<and>
   (scaling_params p = Some (mn, mx) \<and> covers mn mx ds \<longrightarrow>
      scale p ds = map_cells_with minmax_scaled mn mx ds)"
  using scale_unfitted[of p ds] scale_fitted[of p mn mx ds] ds_scale_cells[of mn mx ds]
  by (auto simp add: scale_def)

theorem scale_is_minmax_scaling_witness:
  "scaling_params new_processor = None \<and>
   distinct (map fst (data_vars lumped_example)) \<and>
   scale new_processor lumped_example
     = \<lparr>coords = [(''basin'', [1]), (''time'', [1, 2])],
        data_vars =
          [(''prcp'', \<lparr>dims = [''basin'', ''time''], cells = [([1, 1], Num 0), ([1, 2], Num 1)]\<rparr>),
           (''streamflow'',
            \<lparr>dims = [''basin'', ''time''], cells = [([1, 1], NaN), ([1, 2], NaN)]\<rparr>)]\<rparr> \<and>
   scaling_params fitted_processor
     = Some (\<lparr>coords = [(''basin'', [1])],
              data_vars = [(''prcp'', \<lparr>dims = [''basin''], cells = [([1], Num 2)]\<rparr>)]\<rparr>,
             \<lparr>coords = [(''basin'', [1])],
              data_vars = [(''prcp'', \<lparr>dims = [''basin''], cells = [([1], Num 6)]\<rparr>)]\<rparr>) \<and>
   covers \<lparr>coords = [(''basin'', [1])],
            data_vars = [(''prcp'', \<lparr>dims = [''basin''], cells = [([1], Num 2)]\<rparr>)]\<rparr>
          \<lparr>coords = [(''basin'', [1])],
            data_vars = [(''prcp'', \<lparr>dims = [''basin''], cells = [([1], Num 6)]\<rparr>)]\<rparr>
          validation_example \<and>
   scale fitted_processor validation_example
     = \<lparr>coords = [(''basin'', [1]), (''time'', [3, 4])],
        data_vars =
          [(''prcp'',
            \<lparr>dims = [''basin'', ''time''], cells = [([1, 3], Num (1 / 2)), ([1, 4], NaN)]\<rparr>)]\<rparr>"
proof -
  let ?mn = "\<lparr>coords = [(''basin'', [1])],
              data_vars = [(''prcp'', \<lparr>dims = [''basin''], cells = [([1], Num 2)]\<rparr>)]\<rparr>"
  let ?mx = "\<lparr>coords = [(''basin'', [1])],
              data_vars = [(''prcp'', \<lparr>dims = [''basin''], cells = [([1], Num 6)]\<rparr>)]\<rparr>"
  have n: "scaling_params new_processor = None" by (simp add: new_processor_def)
  have d: "distinct (map fst (data_vars lumped_example))" by (simp add: lumped_example_def)
  have f: "scaling_params fitted_processor = Some (?mn, ?mx)"
    by (simp add: fitted_processor_def)
  have c: "covers ?mn ?mx validation_example"
    by (simp add: validation_example_def covers_eval)
  have u: "scale_unfitted_spec lumped_example
     = \<lparr>coords = [(''basin'', [1]), (''time'', [1, 2])],
        data_vars =
          [(''prcp'', \<lparr>dims = [''basin'', ''time''], cells = [([1, 1], Num 0), ([1, 2], Num 1)]\<rparr>),
           (''streamflow'',
            \<lparr>dims = [''basin'', ''time''], cells = [([1, 1], NaN), ([1, 2], NaN)]\<rparr>)]\<rparr>"
    by (simp add: scale_unfitted_spec_def lumped_example_def minmax_scaled_def fsub_def
        signed_inf_def nanmin_simps nanmax_simps fmin_def fmax_def)
  have m: "map_cells_with minmax_scaled ?mn ?mx validation_example
     = \<lparr>coords = [(''basin'', [1]), (''time'', [3, 4])],
        data_vars =
          [(''prcp'',
            \<lparr>dims = [''basin'', ''time''], cells = [([1, 3], Num (1 / 2)), ([1, 4], NaN)]\<rparr>)]\<rparr>"
    by (simp add: map_cells_with_def validation_example_def minmax_scaled_def fsub_def
        param_at_def key_of_def)
  from scale_is_minmax_scaling[of new_processor lumped_example] n d
  have "scale new_processor lumped_example = scale_unfitted_spec lumped_example" by blast
  then have s1: "scale new_processor lumped_example
     = \<lparr>coords = [(''basin'', [1]), (''time'', [1, 2])],
        data_vars =
          [(''prcp'', \<lparr>dims = [''basin'', ''time''], cells = [([1, 1], Num 0), ([1, 2], Num 1)]\<rparr>),
           (''streamflow'',
            \<lparr>dims = [''basin'', ''time''], cells = [([1, 1], NaN), ([1, 2], NaN)]\<rparr>)]\<rparr>"
    by (simp only: u)
  from scale_is_minmax_scaling[of fitted_processor validation_example ?mn ?mx] f c
  have "scale fitted_processor validation_example
          = map_cells_with minmax_scaled ?mn ?mx validation_example" by blast
  then have s2: "scale fitted_processor validation_example
     = \<lparr>coords = [(''basin'', [1]), (''time'', [3, 4])],
        data_vars =
          [(''prcp'',
            \<lparr>dims = [''basin'', ''time''], cells = [([1, 3], Num (1 / 2)), ([1, 4], NaN)]\<rparr>)]\<rparr>"
    by (simp only: m)
  from n d s1 f c s2 show ?thesis by blast
qed

text \<open>
  Claim C9, as amended.  With stored parameters that cover the dataset (every variable
  of the dataset has a parameter array over some of its dimensions, with one cell for
  the labels of each cell of the dataset, and the coordinates of the parameters do not
  restrict those of the dataset) and that are finite with a maximum that differs from the
  minimum, \<open>rescale\<close> undoes \<open>scale\<close>, in exact arithmetic.
\<close>

theorem rescale_inverts_scale:
  "scaling_params p = Some (mn, mx) \<and> covers mn mx ds \<and> params_finite_distinct mn mx \<longrightarrow>
     rescale p (scale p ds) = Inr ds"
  using roundtrip[of p mn mx ds] by blast

theorem rescale_inverts_scale_witness:
  "scaling_params fitted_processor
     = Some (\<lparr>coords = [(''basin'', [1])],
              data_vars = [(''prcp'', \<lparr>dims = [''basin''], cells = [([1], Num 2)]\<rparr>)]\<rparr>,
             \<lparr>coords = [(''basin'', [1])],
              data_vars = [(''prcp'', \<lparr>dims = [''basin''], cells = [([1], Num 6)]\<rparr>)]\<rparr>) \<and>
   covers \<lparr>coords = [(''basin'', [1])],
            data_vars = [(''prcp'', \<lparr>dims = [''basin''], cells = [([1], Num 2)]\<rparr>)]\<rparr>
          \<lparr>coords = [(''basin'', [1])],
            data_vars = [(''prcp'', \<lparr>dims = [''basin''], cells = [([1], Num 6)]\<rparr>)]\<rparr>
          validation_example \<and>
   params_finite_distinct
          \<lparr>coords = [(''basin'', [1])],
            data_vars = [(''prcp'', \<lparr>dims = [''basin''], cells = [([1], Num 2)]\<rparr>)]\<rparr>
          \<lparr>coords = [(''basin'', [1])],
            data_vars = [(''prcp'', \<lparr>dims = [''basin''], cells = [([1], Num 6)]\<rparr>)]\<rparr> \<and>
   rescale fitted_processor (scale fitted_processor validation_example) = Inr validation_example"
proof -
  let ?mn = "\<lparr>coords = [(''basin'', [1])],
              data_vars = [(''prcp'', \<lparr>dims = [''basin''], cells = [([1], Num 2)]\<rparr>)]\<rparr>"
  let ?mx = "\<lparr>coords = [(''basin'', [1])],
              data_vars = [(''prcp'', \<lparr>dims = [''basin''], cells = [([1], Num 6)]\<rparr>)]\<rparr>"
  have f: "scaling_params fitted_processor = Some (?mn, ?mx)"
    by (simp add: fitted_processor_def)
  have c: "covers ?mn ?mx validation_example"
    by (simp add: validation_example_def covers_eval)
  have d: "params_finite_distinct ?mn ?mx"
    by (simp add: covers_eval)
  from rescale_inverts_scale[of fitted_processor ?mn ?mx validation_example] f c d
  have "rescale fitted_processor (scale fitted_processor validation_example)
          = Inr validation_example" by blast
  with f c d show ?thesis by blast
qed

text \<open>
  The claim as stated fails.  The processor fitted to the training dataset of basin 1
  holds finite parameters with a maximum that differs from the minimum.  Scaling a
  dataset of basin 2 aligns its cells with the parameters of basin 1 and leaves no
  cell, so rescaling does not give the dataset back.
\<close>

theorem rescale_inverts_scale_counterexample:
  "fit new_processor (store_of training_example) 0 = Inr fitted_processor \<and>
   params_finite_distinct (fst (the (scaling_params fitted_processor)))
     (snd (the (scaling_params fitted_processor))) \<and>
   rescale fitted_processor (scale fitted_processor other_basin_example)
     = Inr \<lparr>coords = [(''basin'', []), (''time'', [1, 2])],
            data_vars = [(''prcp'', \<lparr>dims = [''basin'', ''time''], cells = []\<rparr>)]\<rparr> \<and>
   rescale fitted_processor (scale fitted_processor other_basin_example)
     \<noteq> Inr other_basin_example"
proof -
  have a: "fit new_processor (store_of training_example) 0 = Inr fitted_processor"
    by (simp add: fit_def fit_scaling_params_def has_coords_def store_of_def
        training_example_def new_processor_def fitted_processor_def reduce_eval)
  have b: "params_finite_distinct (fst (the (scaling_params fitted_processor)))
     (snd (the (scaling_params fitted_processor)))"
    by (simp add: fitted_processor_def covers_eval)
  have s: "scale fitted_processor other_basin_example
     = \<lparr>coords = [(''basin'', []), (''time'', [1, 2])],
        data_vars = [(''prcp'', \<lparr>dims = [''basin'', ''time''], cells = []\<rparr>)]\<rparr>"
    by (simp add: scale_def fitted_processor_def other_basin_example_def binop_eval)
  have r: "rescale fitted_processor (scale fitted_processor other_basin_example)
     = Inr \<lparr>coords = [(''basin'', []), (''time'', [1, 2])],
            data_vars = [(''prcp'', \<lparr>dims = [''basin'', ''time''], cells = []\<rparr>)]\<rparr>"
    by (simp add: s) (simp add: rescale_def fitted_processor_def binop_eval)
  have n: "rescale fitted_processor (scale fitted_processor other_basin_example)
     \<noteq> Inr other_basin_example"
    unfolding r by (simp add: other_basin_example_def)
  from a b r n show ?thesis by blast
qed

section \<open>Processing a dataset\<close>

text \<open>The processor that \<open>process\<close> works with: the given one when it has scaling
  parameters, the one fitted to the dataset otherwise.\<close>

lemma process_fit_error:
  assumes "scaling_params p = None"
    and "fit_scaling_params p (arrays h (timeseries (hydros h r))) = Inl e"
  shows "process p h r = (p, h, Inl e)"
  using assms by (simp add: process_def)

lemma process_steps:
  assumes "(if scaling_params p = None
            then fit_scaling_params p (arrays h (timeseries (hydros h r)))
            else Inr p) = Inr p1"
  shows "process p h r =
     (let scaled = scale p1 (arrays h (timeseries (hydros h r)));
          h2 = h\<lparr>hydros := (hydros h)(hydro_count h :=
                              (hydros h r)\<lparr>timeseries := array_count h\<rparr>),
                 hydro_count := Suc (hydro_count h),
                 arrays := (arrays h)(array_count h := scaled),
                 array_count := Suc (array_count h)\<rparr>
      in case fillna_value p1 scaled (- 1) of
           Inl e \<Rightarrow> (p1, h2, Inl e)
         | Inr filled \<Rightarrow>
             (p1, h2\<lparr>arrays := (arrays h)(array_count h := filled)\<rparr>, Inr (hydro_count h)))"
  using assms
  by (auto simp add: process_def copy_hydro_def new_array_def set_timeseries_def fillna_def
      Let_def split: sum.splits if_splits)


lemma process_processor:
  "fst (process p h r) =
     (if scaling_params p = None
      then (case fit_scaling_params p (arrays h (timeseries (hydros h r))) of
              Inl e \<Rightarrow> p | Inr p1 \<Rightarrow> p1)
      else p)"
proof (cases "(if scaling_params p = None
            then fit_scaling_params p (arrays h (timeseries (hydros h r)))
            else Inr p)")
  case (Inl e)
  then show ?thesis by (auto simp add: process_fit_error split: if_splits)
next
  case (Inr p1)
  then show ?thesis
    by (auto simp add: process_steps[OF Inr] Let_def split: sum.splits if_splits)
qed

lemma process_keeps_params:
  assumes "scaling_params p = Some sp"
  shows "fst (process p h r) = p"
  using assms by (simp add: process_processor)

lemma process_all_keeps_params:
  assumes "scaling_params p = Some sp"
  shows "fst (process_all p h rs) = p"
  using assms
proof (induction rs arbitrary: h)
  case Nil
  then show ?case by simp
next
  case (Cons r rs)
  obtain p1 h1 res where pr: "process p h r = (p1, h1, res)" by (cases "process p h r")
  with process_keeps_params[OF Cons.prems, of h r] have p1: "p1 = p" by simp
  from Cons.IH[OF Cons.prems, of h1] obtain h2 ress where
    "process_all p h1 rs = (p, h2, ress)" by (cases "process_all p h1 rs") auto
  with pr p1 show ?case by simp
qed

lemma process_old_objects:
  "r0 < hydro_count h \<Longrightarrow> hydros (fst (snd (process p h r))) r0 = hydros h r0"
  "x0 < array_count h \<Longrightarrow> arrays (fst (snd (process p h r))) x0 = arrays h x0"
proof -
  show "hydros (fst (snd (process p h r))) r0 = hydros h r0" if "r0 < hydro_count h"
  proof (cases "(if scaling_params p = None
            then fit_scaling_params p (arrays h (timeseries (hydros h r)))
            else Inr p)")
    case (Inl e)
    then show ?thesis by (auto simp add: process_fit_error split: if_splits)
  next
    case (Inr p1)
    from that show ?thesis
      by (auto simp add: process_steps[OF Inr] Let_def split: sum.splits)
  qed
  show "arrays (fst (snd (process p h r))) x0 = arrays h x0" if "x0 < array_count h"
  proof (cases "(if scaling_params p = None
            then fit_scaling_params p (arrays h (timeseries (hydros h r)))
            else Inr p)")
    case (Inl e)
    then show ?thesis by (auto simp add: process_fit_error split: if_splits)
  next
    case (Inr p1)
    from that show ?thesis
      by (auto simp add: process_steps[OF Inr] Let_def split: sum.splits)
  qed
qed

lemma process_result:
  assumes "snd (snd (process p h r)) = Inr ds"
  shows "ds = hydro_count h \<and>
     hydro_count (fst (snd (process p h r))) = Suc (hydro_count h) \<and>
     array_count (fst (snd (process p h r))) = Suc (array_count h) \<and>
     hydros (fst (snd (process p h r))) ds = (hydros h r)\<lparr>timeseries := array_count h\<rparr> \<and>
     fillna_value (fst (process p h r))
        (scale (fst (process p h r)) (arrays h (timeseries (hydros h r)))) (- 1)
       = Inr (arrays (fst (snd (process p h r))) (array_count h))"
proof (cases "(if scaling_params p = None
            then fit_scaling_params p (arrays h (timeseries (hydros h r)))
            else Inr p)")
  case (Inl e)
  with assms show ?thesis by (auto simp add: process_fit_error split: if_splits)
next
  case (Inr p1)
  from assms show ?thesis
    by (auto simp add: process_steps[OF Inr] Let_def split: sum.splits)
qed

lemma fit_sets_params:
  assumes "fit_scaling_params p ts = Inr p1"
  shows "scaling_params p1 \<noteq> None"
  using assms by (auto simp add: fit_scaling_params_def split: if_splits)

text \<open>
  Claim C2.  For a dataset object \<open>r\<close> of the store, \<open>process\<close> leaves the object and
  its array as they were, as it leaves every object that existed before the call, also
  when it raises.  When it returns, the returned object is a new one: its fields are
  those of the input, except that \<open>timeseries\<close> refers to a new array, which holds the
  scaled array of the input with the missing values of the processor's variables filled.
\<close>

theorem process_returns_copy:
  "r < hydro_count h \<and> timeseries (hydros h r) < array_count h \<longrightarrow>
     hydros (fst (snd (process p h r))) r = hydros h r \<and>
     arrays (fst (snd (process p h r))) (timeseries (hydros h r))
       = arrays h (timeseries (hydros h r)) \<and>
     (r0 < hydro_count h \<longrightarrow> hydros (fst (snd (process p h r))) r0 = hydros h r0) \<and>
     (x0 < array_count h \<longrightarrow> arrays (fst (snd (process p h r))) x0 = arrays h x0) \<and>
     (snd (snd (process p h r)) = Inr ds \<longrightarrow>
        ds \<noteq> r \<and> ds = hydro_count h \<and>
        hydros (fst (snd (process p h r))) ds = (hydros h r)\<lparr>timeseries := array_count h\<rparr> \<and>
        timeseries (hydros (fst (snd (process p h r))) ds) \<noteq> timeseries (hydros h r) \<and>
        fillna_value (fst (process p h r))
           (scale (fst (process p h r)) (arrays h (timeseries (hydros h r)))) (- 1)
          = Inr (arrays (fst (snd (process p h r)))
                   (timeseries (hydros (fst (snd (process p h r))) ds))))"
proof -
  have "ds \<noteq> r \<and> ds = hydro_count h \<and>
        hydros (fst (snd (process p h r))) ds = (hydros h r)\<lparr>timeseries := array_count h\<rparr> \<and>
        timeseries (hydros (fst (snd (process p h r))) ds) \<noteq> timeseries (hydros h r) \<and>
        fillna_value (fst (process p h r))
           (scale (fst (process p h r)) (arrays h (timeseries (hydros h r)))) (- 1)
          = Inr (arrays (fst (snd (process p h r)))
                   (timeseries (hydros (fst (snd (process p h r))) ds)))"
    if v: "r < hydro_count h" "timeseries (hydros h r) < array_count h"
      and res: "snd (snd (process p h r)) = Inr ds"
    using process_result[OF res] v by auto
  then show ?thesis
    using process_old_objects[of _ h p r] by blast
qed

lemmas process_eval = scale_def select_vars_def fillna_value_def assign_vars_def ds_fillna_def
  arr_fillna_def

theorem process_returns_copy_witness:
  "(0 :: nat) < hydro_count (store_of validation_example) \<and>
   timeseries (hydros (store_of validation_example) 0) < array_count (store_of validation_example) \<and>
   snd (snd (process fitted_processor (store_of validation_example) 0)) = Inr 1 \<and>
   hydros (fst (snd (process fitted_processor (store_of validation_example) 0))) 0
     = hydros (store_of validation_example) 0 \<and>
   arrays (fst (snd (process fitted_processor (store_of validation_example) 0))) 0
     = validation_example \<and>
   hydros (fst (snd (process fitted_processor (store_of validation_example) 0))) 1
     = \<lparr>timeseries = 1, feature_cols = [''prcp''], target_col = ''streamflow'',
        start_date = 1, end_date = 2\<rparr> \<and>
   arrays (fst (snd (process fitted_processor (store_of validation_example) 0))) 1
     = \<lparr>coords = [(''basin'', [1]), (''time'', [3, 4])],
        data_vars =
          [(''prcp'',
            \<lparr>dims = [''basin'', ''time''],
             cells = [([1, 3], Num (1 / 2)), ([1, 4], Num (- 1))]\<rparr>)]\<rparr>"
proof -
  let ?h = "store_of validation_example"
  let ?pr = "process fitted_processor ?h 0"
  have v: "(0 :: nat) < hydro_count ?h" "timeseries (hydros ?h 0) < array_count ?h"
    by (simp_all add: store_of_def)
  have st: "(if scaling_params fitted_processor = None
            then fit_scaling_params fitted_processor (arrays ?h (timeseries (hydros ?h 0)))
            else Inr fitted_processor) = Inr fitted_processor"
    by (simp add: fitted_processor_def)
  have sc: "scale fitted_processor validation_example
     = \<lparr>coords = [(''basin'', [1]), (''time'', [3, 4])],
        data_vars =
          [(''prcp'',
            \<lparr>dims = [''basin'', ''time''], cells = [([1, 3], Num (1 / 2)), ([1, 4], NaN)]\<rparr>)]\<rparr>"
    by (simp add: scale_def fitted_processor_def validation_example_def binop_eval)
  have fl: "fillna_value fitted_processor (scale fitted_processor validation_example) (- 1)
     = Inr \<lparr>coords = [(''basin'', [1]), (''time'', [3, 4])],
        data_vars =
          [(''prcp'',
            \<lparr>dims = [''basin'', ''time''],
             cells = [([1, 3], Num (1 / 2)), ([1, 4], Num (- 1))]\<rparr>)]\<rparr>"
    unfolding sc by (simp add: process_eval fitted_processor_def)
  have a0: "arrays ?h (timeseries (hydros ?h 0)) = validation_example"
    and a00: "arrays ?h 0 = validation_example"
    and t0: "timeseries (hydros ?h 0) = 0" and hc: "hydro_count ?h = 1"
    and ac: "array_count ?h = 1"
    and h0: "hydros ?h 0 = \<lparr>timeseries = 0, feature_cols = [''prcp''],
        target_col = ''streamflow'', start_date = 1, end_date = 2\<rparr>"
    by (simp_all add: store_of_def)
  have res: "snd (snd ?pr) = Inr 1"
    by (simp add: process_steps[OF st] Let_def a0 fl hc)
  have fp: "fst ?pr = fitted_processor"
    by (simp add: process_steps[OF st] Let_def a0 fl)
  from process_returns_copy[of 0 ?h fitted_processor 0 0 1] v res
  have "hydros (fst (snd ?pr)) 0 = hydros ?h 0"
    and "arrays (fst (snd ?pr)) (timeseries (hydros ?h 0)) = arrays ?h (timeseries (hydros ?h 0))"
    and "hydros (fst (snd ?pr)) 1 = (hydros ?h 0)\<lparr>timeseries := array_count ?h\<rparr>"
    and "fillna_value (fst ?pr) (scale (fst ?pr) (arrays ?h (timeseries (hydros ?h 0)))) (- 1)
          = Inr (arrays (fst (snd ?pr)) (timeseries (hydros (fst (snd ?pr)) 1)))"
    by blast+
  then have "hydros (fst (snd ?pr)) 0 = hydros ?h 0"
    and "arrays (fst (snd ?pr)) 0 = validation_example"
    and "hydros (fst (snd ?pr)) 1 = \<lparr>timeseries = 1, feature_cols = [''prcp''],
        target_col = ''streamflow'', start_date = 1, end_date = 2\<rparr>"
    and "arrays (fst (snd ?pr)) 1 = \<lparr>coords = [(''basin'', [1]), (''time'', [3, 4])],
        data_vars =
          [(''prcp'',
            \<lparr>dims = [''basin'', ''time''],
             cells = [([1, 3], Num (1 / 2)), ([1, 4], Num (- 1))]\<rparr>)]\<rparr>"
    by (simp_all add: a00 t0 ac h0 fp fl)
  with v res show ?thesis by blast
qed

text \<open>
  Claim C1.  A processor that has scaling parameters keeps them: \<open>process\<close>, called once
  or on any sequence of datasets, returns the processor as it was, and \<open>scale\<close> and
  \<open>process\<close> compute with the stored minimum and maximum, whatever the dataset that is
  processed.  The parameters can come from \<open>fit\<close>, or from the fit that \<open>process\<close> runs
  itself when there are none: after that call the processor has the parameters of that
  dataset, and every later call keeps them.
\<close>

theorem stored_params_are_reused:
  "(scaling_params p = Some (mn, mx) \<longrightarrow>
      fst (process p h r) = p \<and>
      fst (process_all p h rs) = p \<and>
      scale p ds = ds_binop fdiv (ds_binop fsub ds mn) (ds_binop fsub mx mn) \<and>
      (snd (snd (process p h r)) = Inr out \<longrightarrow>
         fillna_value p
            (ds_binop fdiv (ds_binop fsub (arrays h (timeseries (hydros h r))) mn)
               (ds_binop fsub mx mn)) (- 1)
           = Inr (arrays (fst (snd (process p h r)))
                    (timeseries (hydros (fst (snd (process p h r))) out))))) \<and>
   (scaling_params p = None \<and>
    fit_scaling_params p (arrays h (timeseries (hydros h r))) = Inr p1 \<longrightarrow>
      fst (process p h r) = p1 \<and> scaling_params p1 \<noteq> None \<and>
      fst (process p1 h' r') = p1 \<and> fst (process_all p1 h' rs) = p1) \<and>
   (fit p h r = Inr p2 \<longrightarrow>
      scaling_params p2 \<noteq> None \<and>
      fst (process p2 h' r') = p2 \<and> fst (process_all p2 h' rs) = p2)"
proof -
  have a: "fst (process p h r) = p \<and>
      fst (process_all p h rs) = p \<and>
      scale p ds = ds_binop fdiv (ds_binop fsub ds mn) (ds_binop fsub mx mn)"
    if "scaling_params p = Some (mn, mx)"
    using that process_keeps_params[OF that] process_all_keeps_params[OF that]
    by (simp add: scale_def)
  have b: "fillna_value p
            (ds_binop fdiv (ds_binop fsub (arrays h (timeseries (hydros h r))) mn)
               (ds_binop fsub mx mn)) (- 1)
           = Inr (arrays (fst (snd (process p h r)))
                    (timeseries (hydros (fst (snd (process p h r))) out)))"
    if sp: "scaling_params p = Some (mn, mx)" and res: "snd (snd (process p h r)) = Inr out"
  proof -
    from process_result[OF res] have o: "out = hydro_count h"
      and hy: "hydros (fst (snd (process p h r))) out = (hydros h r)\<lparr>timeseries := array_count h\<rparr>"
      and fl: "fillna_value (fst (process p h r))
        (scale (fst (process p h r)) (arrays h (timeseries (hydros h r)))) (- 1)
       = Inr (arrays (fst (snd (process p h r))) (array_count h))"
      by blast+
    from hy have "timeseries (hydros (fst (snd (process p h r))) out) = array_count h" by simp
    with fl process_keeps_params[OF sp, of h r] sp show ?thesis by (simp add: scale_def)
  qed
  have keep: "fst (process q h' r') = q \<and> fst (process_all q h' rs) = q"
    if "scaling_params q \<noteq> None" for q
  proof -
    from that obtain sp where "scaling_params q = Some sp" by auto
    then show ?thesis
      using process_keeps_params process_all_keeps_params by blast
  qed
  have c: "fst (process p h r) = p1 \<and> scaling_params p1 \<noteq> None \<and>
      fst (process p1 h' r') = p1 \<and> fst (process_all p1 h' rs) = p1"
    if "scaling_params p = None"
      and f: "fit_scaling_params p (arrays h (timeseries (hydros h r))) = Inr p1"
    using that fit_sets_params[OF f] keep[of p1] by (simp add: process_processor)
  have d: "scaling_params p2 \<noteq> None \<and>
      fst (process p2 h' r') = p2 \<and> fst (process_all p2 h' rs) = p2"
    if f: "fit p h r = Inr p2"
  proof -
    from f obtain q where q: "fit_scaling_params p (arrays h (timeseries (hydros h r))) = Inr q"
      and p2: "p2 = q\<lparr>variables := Some (feature_cols (hydros h r))\<rparr>"
      by (auto simp add: fit_def split: sum.splits)
    from fit_sets_params[OF q] p2 have "scaling_params p2 \<noteq> None" by simp
    with keep[of p2] show ?thesis by simp
  qed
  from a b c d show ?thesis by blast
qed

theorem stored_params_are_reused_witness:
  "scaling_params fitted_processor
     = Some (\<lparr>coords = [(''basin'', [1])],
              data_vars = [(''prcp'', \<lparr>dims = [''basin''], cells = [([1], Num 2)]\<rparr>)]\<rparr>,
             \<lparr>coords = [(''basin'', [1])],
              data_vars = [(''prcp'', \<lparr>dims = [''basin''], cells = [([1], Num 6)]\<rparr>)]\<rparr>) \<and>
   fit new_processor (store_of training_example) 0 = Inr fitted_processor \<and>
   fst (process fitted_processor (store_of validation_example) 0) = fitted_processor \<and>
   fst (process_all fitted_processor (store_of validation_example) [0, 0, 1]) = fitted_processor \<and>
   scale fitted_processor validation_example
     = \<lparr>coords = [(''basin'', [1]), (''time'', [3, 4])],
        data_vars =
          [(''prcp'',
            \<lparr>dims = [''basin'', ''time''], cells = [([1, 3], Num (1 / 2)), ([1, 4], NaN)]\<rparr>)]\<rparr> \<and>
   scaling_params new_processor = None \<and>
   fit_scaling_params new_processor
       (arrays (store_of training_example) (timeseries (hydros (store_of training_example) 0)))
     = Inr (fitted_processor\<lparr>variables := None\<rparr>) \<and>
   fst (process new_processor (store_of training_example) 0)
     = fitted_processor\<lparr>variables := None\<rparr> \<and>
   fst (process (fitted_processor\<lparr>variables := None\<rparr>) (store_of validation_example) 0)
     = fitted_processor\<lparr>variables := None\<rparr>"
proof -
  let ?mn = "\<lparr>coords = [(''basin'', [1])],
              data_vars = [(''prcp'', \<lparr>dims = [''basin''], cells = [([1], Num 2)]\<rparr>)]\<rparr>"
  let ?mx = "\<lparr>coords = [(''basin'', [1])],
              data_vars = [(''prcp'', \<lparr>dims = [''basin''], cells = [([1], Num 6)]\<rparr>)]\<rparr>"
  let ?q = "fitted_processor\<lparr>variables := None\<rparr>"
  have f: "scaling_params fitted_processor = Some (?mn, ?mx)"
    by (simp add: fitted_processor_def)
  have ft: "fit new_processor (store_of training_example) 0 = Inr fitted_processor"
    by (simp add: fit_def fit_scaling_params_def has_coords_def store_of_def
        training_example_def new_processor_def fitted_processor_def reduce_eval)
  have n: "scaling_params new_processor = None" by (simp add: new_processor_def)
  have fs: "fit_scaling_params new_processor
       (arrays (store_of training_example) (timeseries (hydros (store_of training_example) 0)))
     = Inr ?q"
    by (simp add: fit_scaling_params_def has_coords_def store_of_def
        training_example_def new_processor_def fitted_processor_def reduce_eval)
  have sc: "ds_binop fdiv (ds_binop fsub validation_example ?mn) (ds_binop fsub ?mx ?mn)
     = \<lparr>coords = [(''basin'', [1]), (''time'', [3, 4])],
        data_vars =
          [(''prcp'',
            \<lparr>dims = [''basin'', ''time''], cells = [([1, 3], Num (1 / 2)), ([1, 4], NaN)]\<rparr>)]\<rparr>"
    by (simp add: validation_example_def binop_eval)
  from stored_params_are_reused[of fitted_processor ?mn ?mx "store_of validation_example" 0
      "[0, 0, 1]" validation_example] f
  have k: "fst (process fitted_processor (store_of validation_example) 0) = fitted_processor"
    "fst (process_all fitted_processor (store_of validation_example) [0, 0, 1]) = fitted_processor"
    "scale fitted_processor validation_example
       = ds_binop fdiv (ds_binop fsub validation_example ?mn) (ds_binop fsub ?mx ?mn)"
    by blast+
  from stored_params_are_reused[where p = new_processor and h = "store_of training_example"
      and r = 0 and ?p1.0 = ?q and h' = "store_of validation_example" and r' = 0] n fs
  have a: "fst (process new_processor (store_of training_example) 0) = ?q"
    "fst (process ?q (store_of validation_example) 0) = ?q"
    by blast+
  from f ft k(1,2) k(3)[unfolded sc] n fs a show ?thesis by blast
qed

section \<open>Merging observations and predictions\<close>

lemma suffixes_differ: "x @ ''_pred'' \<noteq> y @ ''_obs''"
proof
  assume "x @ ''_pred'' = y @ ''_obs''"
  then have "last (x @ ''_pred'') = last (y @ ''_obs'')" by simp
  then show False by simp
qed

lemma select_vars_names:
  "select_vars ds (Some ns) = Inr s \<Longrightarrow> map fst (data_vars s) = ns \<and> coords s = coords ds"
  by (auto simp add: select_vars_def comp_def split: if_splits)

lemma sel_time_names:
  "sel_time lo hi ds = Inr s \<Longrightarrow> map fst (data_vars s) = map fst (data_vars ds)"
  by (auto simp add: sel_time_def comp_def split_def split: if_splits)

lemma sel_time_coords:
  "sel_time lo hi ds = Inr s \<Longrightarrow>
     map_of (coords s) ''time'' = map_option (filter (in_slice lo hi)) (map_of (coords ds) ''time'')"
proof -
  have "map_of (map (\<lambda>(d, ls). if d = ''time'' then (d, filter (in_slice lo hi) ls)
                                        else (d, ls)) c) ''time''
        = map_option (filter (in_slice lo hi)) (map_of c ''time'')" for c
    by (induction c) auto
  then show "sel_time lo hi ds = Inr s \<Longrightarrow>
     map_of (coords s) ''time'' = map_option (filter (in_slice lo hi)) (map_of (coords ds) ''time'')"
    by (auto simp add: sel_time_def split: if_splits)
qed

lemma rename_suffix_names:
  "rename_suffix suffix ds = Inr s \<Longrightarrow>
     map fst (data_vars s) = map (\<lambda>n. n @ suffix) (map fst (data_vars ds)) \<and> coords s = coords ds"
  by (auto simp add: rename_suffix_def comp_def split_def split: if_splits)

lemma map_of_merged_coords:
  "map_of (merged_coords left cx cy) d =
     (if left then (case map_of cx d of Some ls \<Rightarrow> Some ls | None \<Rightarrow> map_of cy d)
      else (case map_of cy d of Some ms \<Rightarrow> Some ms | None \<Rightarrow> map_of cx d))"
proof -
  have second: "map_of (filter (\<lambda>(d, ms). d \<notin> S) cy) d
      = (if d \<in> S then None else map_of cy d)" for S
    by (induction cy) auto
  have first_left: "map_of (map (\<lambda>(d, ls). (d, ls)) cx) d = map_of cx d"
    by (induction cx) auto
  have first_right: "map_of (map (\<lambda>(d, ls). case map_of cy d of None \<Rightarrow> (d, ls)
                                  | Some ms \<Rightarrow> (d, ms)) cx) d
      = (case map_of cx d of None \<Rightarrow> None
         | Some ls \<Rightarrow> (case map_of cy d of None \<Rightarrow> Some ls | Some ms \<Rightarrow> Some ms))"
    by (induction cx) (auto split: option.splits)
  have dom: "d \<in> set (map fst cx) \<longleftrightarrow> map_of cx d \<noteq> None"
    using map_of_eq_None_iff [of cx d] by simp
  show ?thesis
  proof (cases "map_of cx d")
    case None
    then show ?thesis
      using dom
      by (simp add: merged_coords_def map_add_def second first_left first_right
          split: option.splits)
  next
    case (Some ls)
    then show ?thesis
      using dom
      by (simp add: merged_coords_def map_add_def second first_left first_right
          split: option.splits)
  qed
qed

lemma merge_names:
  "merge left x y = Inr res \<Longrightarrow>
     map fst (data_vars res) = map fst (data_vars x) @ map fst (data_vars y) \<and>
     coords res = merged_coords left (coords x) (coords y)"
  by (auto simp add: merge_def comp_def split_def split: if_splits)

lemma py_index_first_last:
  "py_index t 0 = Inr a \<Longrightarrow> a = hd t \<and> t \<noteq> []"
  "py_index t (- 1) = Inr b \<Longrightarrow> b = last t \<and> t \<noteq> []"
proof -
  show "py_index t 0 = Inr a \<Longrightarrow> a = hd t \<and> t \<noteq> []"
    by (cases t) (auto simp add: py_index_def split: if_splits)
  show "py_index t (- 1) = Inr b \<Longrightarrow> b = last t \<and> t \<noteq> []"
  proof (cases t rule: rev_cases)
    case Nil
    assume "py_index t (- 1) = Inr b"
    with Nil show ?thesis by (simp add: py_index_def)
  next
    case (snoc ys y)
    assume "py_index t (- 1) = Inr b"
    with snoc show ?thesis
      by (simp add: py_index_def nth_append split: if_splits)
  qed
qed

lemma only_used_coords_vars:
  "data_vars (only_used_coords ds) = data_vars ds"
  by (simp add: only_used_coords_def)

lemma only_used_coords_time:
  "''time'' \<in> set (map fst (coords (only_used_coords ds))) \<Longrightarrow>
     map_of (coords (only_used_coords ds)) ''time'' = map_of (coords ds) ''time''"
proof -
  have f: "map_of (filter (\<lambda>(d, ls). P d) c) k = (if P k then map_of c k else None)"
    for P :: "string \<Rightarrow> bool" and c :: "(string \<times> label list) list" and k
    by (induction c) auto
  have eq: "map_of (coords (only_used_coords ds)) ''time''
      = (if list_ex (\<lambda>(n, a). ''time'' \<in> set (dims a)) (data_vars ds)
         then map_of (coords ds) ''time'' else None)"
    unfolding only_used_coords_def
    using f [of "\<lambda>d. list_ex (\<lambda>(n, a). d \<in> set (dims a)) (data_vars ds)" "coords ds" "''time''"]
    by simp
  assume "''time'' \<in> set (map fst (coords (only_used_coords ds)))"
  then have "map_of (coords (only_used_coords ds)) ''time'' \<noteq> None"
    using map_of_eq_None_iff [of "coords (only_used_coords ds)" "''time''"] by simp
  with eq show ?thesis by (simp split: if_splits)
qed

lemma sel_time_has_time:
  "sel_time lo hi ds = Inr s \<Longrightarrow> ''time'' \<in> set (map fst (coords ds))"
  by (simp add: sel_time_def split: if_splits)

lemma sorted_below_last:
  "sorted (t :: int list) \<Longrightarrow> x \<in> set t \<Longrightarrow> x \<le> last t"
  by (induction t) auto

lemma sorted_above_hd:
  "sorted (t :: int list) \<Longrightarrow> x \<in> set t \<Longrightarrow> hd t \<le> x"
  by (cases t) auto

lemma sorted_slice_all:
  assumes "sorted (t :: int list)"
  shows "filter (in_slice (hd t) (last t)) t = t"
proof -
  have "in_slice (hd t) (last t) x" if "x \<in> set t" for x
    using assms that sorted_above_hd [of t x] sorted_below_last [of t x]
    by (simp add: in_slice_def)
  then show ?thesis by (simp add: filter_id_conv)
qed

text \<open>The steps of a call that returns.\<close>

lemma merge_steps:
  assumes "merge_observations_and_predictions obs pred flag = Inr res"
  shows "\<exists>t selected sliced ds_obs ds_pred.
           time_of (if flag then pred else obs) = Inr t \<and> t \<noteq> [] \<and>
           select_vars obs (Some (map fst (data_vars pred))) = Inr selected \<and>
           sel_time (hd t) (last t) (only_used_coords selected) = Inr sliced \<and>
           rename_suffix ''_obs'' sliced = Inr ds_obs \<and>
           rename_suffix ''_pred'' pred = Inr ds_pred \<and>
           merge flag ds_pred ds_obs = Inr res"
proof -
  from assms obtain t where t: "time_of (if flag then pred else obs) = Inr t"
    by (cases "time_of (if flag then pred else obs)")
       (simp_all add: merge_observations_and_predictions_def)
  from assms t obtain a where a: "py_index t 0 = Inr a"
    by (cases "py_index t 0") (simp_all add: merge_observations_and_predictions_def)
  from assms t a obtain b where b: "py_index t (- 1) = Inr b"
    by (cases "py_index t (- 1)") (simp_all add: merge_observations_and_predictions_def)
  from assms t a b obtain selected
    where s: "select_vars obs (Some (map fst (data_vars pred))) = Inr selected"
    by (cases "select_vars obs (Some (map fst (data_vars pred)))")
       (simp_all add: merge_observations_and_predictions_def)
  from assms t a b s obtain sliced
    where sl: "sel_time a b (only_used_coords selected) = Inr sliced"
    by (cases "sel_time a b (only_used_coords selected)")
       (simp_all add: merge_observations_and_predictions_def)
  from assms t a b s sl obtain ds_obs where o: "rename_suffix ''_obs'' sliced = Inr ds_obs"
    by (cases "rename_suffix ''_obs'' sliced")
       (simp_all add: merge_observations_and_predictions_def)
  from assms t a b s sl o obtain ds_pred where p: "rename_suffix ''_pred'' pred = Inr ds_pred"
    by (cases "rename_suffix ''_pred'' pred")
       (simp_all add: merge_observations_and_predictions_def)
  from assms t a b s sl o p have m: "merge flag ds_pred ds_obs = Inr res"
    by (simp add: merge_observations_and_predictions_def)
  from py_index_first_last(1) [OF a] py_index_first_last(2) [OF b]
  have "a = hd t" "b = last t" "t \<noteq> []" by simp_all
  with t s sl o p m show ?thesis by blast
qed

text \<open>What the single steps return.\<close>

lemma select_vars_result:
  "select_vars ds (Some ns) = Inr s \<Longrightarrow>
     data_vars s = map (\<lambda>n. (n, the (map_of (data_vars ds) n))) ns \<and> coords s = coords ds"
  by (auto simp add: select_vars_def split: if_splits)

lemma sel_time_result:
  "sel_time lo hi ds = Inr s \<Longrightarrow>
     data_vars s = map (\<lambda>(n, a). (n, arr_sel_time lo hi a)) (data_vars ds) \<and>
     map fst (coords s) = map fst (coords ds)"
  by (auto simp add: sel_time_def comp_def split_def split: if_splits)

lemma rename_suffix_result:
  "rename_suffix suffix ds = Inr s \<Longrightarrow>
     data_vars s = map (\<lambda>(n, a). (n @ suffix, a)) (data_vars ds) \<and> coords s = coords ds"
  by (auto simp add: rename_suffix_def split: if_splits)

lemma merge_result:
  "merge left x y = Inr res \<Longrightarrow>
     data_vars res = map (\<lambda>(n, a). (n, reindex (coords res) a)) (data_vars x @ data_vars y) \<and>
     coords res = merged_coords left (coords x) (coords y)"
  by (auto simp add: merge_def split: if_splits)

lemma time_of_Inr:
  "(time_of ds = Inr t) = (map_of (coords ds) ''time'' = Some t)"
  by (simp add: time_of_def split: option.splits)

text \<open>The variables of the result.\<close>

lemma merge_result_vars:
  assumes "merge_observations_and_predictions obs pred flag = Inr res"
    and "time_of (if flag then pred else obs) = Inr t"
  shows "data_vars res =
     map (\<lambda>(n, a). (n @ ''_pred'', reindex (coords res) a)) (data_vars pred) @
     map (\<lambda>n. (n @ ''_obs'', reindex (coords res)
                  (arr_sel_time (hd t) (last t) (the (map_of (data_vars obs) n)))))
       (map fst (data_vars pred))"
proof -
  from merge_steps [OF assms(1)] assms(2) obtain selected sliced ds_obs ds_pred where
    s: "select_vars obs (Some (map fst (data_vars pred))) = Inr selected" and
    sl: "sel_time (hd t) (last t) (only_used_coords selected) = Inr sliced" and
    o: "rename_suffix ''_obs'' sliced = Inr ds_obs" and
    p: "rename_suffix ''_pred'' pred = Inr ds_pred" and
    m: "merge flag ds_pred ds_obs = Inr res"
    by auto
  have v1: "data_vars ds_pred = map (\<lambda>(n, a). (n @ ''_pred'', a)) (data_vars pred)"
    using rename_suffix_result [OF p] by simp
  have v2: "data_vars selected
      = map (\<lambda>n. (n, the (map_of (data_vars obs) n))) (map fst (data_vars pred))"
    using select_vars_result [OF s] by simp
  have v3: "data_vars sliced
      = map (\<lambda>n. (n, arr_sel_time (hd t) (last t) (the (map_of (data_vars obs) n))))
          (map fst (data_vars pred))"
    using sel_time_result [OF sl] v2 by (simp add: only_used_coords_vars comp_def)
  have v4: "data_vars ds_obs
      = map (\<lambda>n. (n @ ''_obs'', arr_sel_time (hd t) (last t) (the (map_of (data_vars obs) n))))
          (map fst (data_vars pred))"
    using rename_suffix_result [OF o] v3 by (simp add: comp_def)
  from merge_result [OF m] have
    "data_vars res = map (\<lambda>(n, a). (n, reindex (coords res) a)) (data_vars ds_pred @ data_vars ds_obs)"
    by simp
  then show ?thesis
    unfolding v1 v4 by (simp add: comp_def split_def)
qed

lemma merge_result_names:
  assumes "merge_observations_and_predictions obs pred flag = Inr res"
  shows "map fst (data_vars res) =
     map (\<lambda>n. n @ ''_pred'') (map fst (data_vars pred)) @
     map (\<lambda>n. n @ ''_obs'') (map fst (data_vars pred))"
proof -
  from merge_steps [OF assms] obtain t where "time_of (if flag then pred else obs) = Inr t"
    by auto
  from merge_result_vars [OF assms this] show ?thesis
    by (simp add: comp_def split_def)
qed

lemma suffixed_names_distinct:
  assumes "distinct ns"
  shows "distinct (map (\<lambda>n. n @ ''_pred'') ns @ map (\<lambda>n. n @ ''_obs'') ns)"
proof -
  have "distinct (map (\<lambda>n. n @ s) ns)" for s :: string
    using assms by (simp add: distinct_map inj_on_def)
  moreover have "set (map (\<lambda>n. n @ ''_pred'') ns) \<inter> set (map (\<lambda>n. n @ ''_obs'') ns) = {}"
    using suffixes_differ by auto
  ultimately show ?thesis by simp
qed

text \<open>The time coordinate of the result.\<close>

lemma merge_result_time:
  assumes "merge_observations_and_predictions obs pred flag = Inr res"
    and "time_of (if flag then pred else obs) = Inr t"
  shows "time_of res = Inr (if flag then t else filter (in_slice (hd t) (last t)) t)"
proof -
  from merge_steps [OF assms(1)] assms(2) obtain selected sliced ds_obs ds_pred where
    s: "select_vars obs (Some (map fst (data_vars pred))) = Inr selected" and
    sl: "sel_time (hd t) (last t) (only_used_coords selected) = Inr sliced" and
    o: "rename_suffix ''_obs'' sliced = Inr ds_obs" and
    p: "rename_suffix ''_pred'' pred = Inr ds_pred" and
    m: "merge flag ds_pred ds_obs = Inr res"
    by auto
  have c: "coords res = merged_coords flag (coords pred) (coords sliced)"
    using merge_result [OF m] rename_suffix_result [OF o] rename_suffix_result [OF p] by simp
  show ?thesis
  proof (cases flag)
    case True
    with assms(2) have "map_of (coords pred) ''time'' = Some t" by (simp add: time_of_Inr)
    with True c show ?thesis
      by (simp add: time_of_Inr map_of_merged_coords)
  next
    case False
    with assms(2) have "map_of (coords obs) ''time'' = Some t" by (simp add: time_of_Inr)
    then have "map_of (coords selected) ''time'' = Some t"
      using select_vars_result [OF s] by simp
    then have "map_of (coords (only_used_coords selected)) ''time'' = Some t"
      using only_used_coords_time [OF sel_time_has_time [OF sl]] by simp
    then have "map_of (coords sliced) ''time'' = Some (filter (in_slice (hd t) (last t)) t)"
      using sel_time_coords [OF sl] by simp
    with False c show ?thesis
      by (simp add: time_of_Inr map_of_merged_coords)
  qed
qed

text \<open>Observed variables that are not predicted do not matter.\<close>

lemma select_vars_filtered:
  "select_vars (ds\<lparr>data_vars := filter (\<lambda>(n, a). n \<in> set ns) (data_vars ds)\<rparr>) (Some ns)
     = select_vars ds (Some ns)"
proof -
  have h1: "map_of (filter (\<lambda>(k, a). k \<in> S) xs) n = map_of xs n" if "n \<in> S"
    for S :: "string set" and xs :: "(string \<times> data_array) list" and n
    using that by (induction xs) auto
  have h2: "(n \<in> set (map fst (filter (\<lambda>(k, a). k \<in> S) xs))) = (n \<in> set (map fst xs))"
    if "n \<in> S" for S :: "string set" and xs :: "(string \<times> data_array) list" and n
    using that by force
  have a: "list_all (\<lambda>n. n \<in> set (map fst (filter (\<lambda>(k, a). k \<in> set ns) (data_vars ds)))) ns
      = list_all (\<lambda>n. n \<in> set (map fst (data_vars ds))) ns"
    unfolding list_all_iff using h2 [of _ "set ns" "data_vars ds"] by blast
  have b: "map (\<lambda>n. (n, the (map_of (filter (\<lambda>(k, a). k \<in> set ns) (data_vars ds)) n))) ns
      = map (\<lambda>n. (n, the (map_of (data_vars ds) n))) ns"
    using h1 [of _ "set ns" "data_vars ds"] by simp
  show ?thesis
    unfolding select_vars_def using a b by simp
qed

lemma merge_ignores_other_variables:
  "merge_observations_and_predictions
     (obs\<lparr>data_vars := filter (\<lambda>(n, a). n \<in> set (map fst (data_vars pred))) (data_vars obs)\<rparr>)
     pred flag
   = merge_observations_and_predictions obs pred flag"
proof -
  let ?obs' = "obs\<lparr>data_vars := filter (\<lambda>(n, a). n \<in> set (map fst (data_vars pred))) (data_vars obs)\<rparr>"
  have t: "time_of (if flag then pred else ?obs') = time_of (if flag then pred else obs)"
    by (simp add: time_of_def)
  have s: "select_vars ?obs' (Some (map fst (data_vars pred)))
      = select_vars obs (Some (map fst (data_vars pred)))"
    by (rule select_vars_filtered)
  show ?thesis
    unfolding merge_observations_and_predictions_def Let_def t s ..
qed

text \<open>Datasets that can be merged are merged.\<close>

lemma py_index_nonempty:
  assumes "t \<noteq> []"
  shows "py_index t 0 = Inr (hd t) \<and> py_index t (- 1) = Inr (last t)"
proof -
  from assms have l: "0 < length t" by simp
  have n: "nat (int (length t) + - 1) = length t - 1" by simp
  from l have a: "py_index t 0 = Inr (hd t)"
    by (simp add: py_index_def hd_conv_nth)
  from l have "py_index t (- 1) = Inr (t ! nat (int (length t) + - 1))"
    by (simp add: py_index_def)
  with assms n have "py_index t (- 1) = Inr (last t)"
    by (simp add: last_conv_nth)
  with a show ?thesis by simp
qed

lemma mergeable_returns:
  assumes "mergeable obs pred flag"
  shows "\<exists>res. merge_observations_and_predictions obs pred flag = Inr res"
proof -
  let ?vs = "map fst (data_vars pred)"
  from assms obtain t where t: "time_of (if flag then pred else obs) = Inr t" and ne: "t \<noteq> []"
    by (auto simp add: mergeable_def time_of_def split: option.splits)
  from assms have has: "list_all (\<lambda>n. n \<in> set (map fst (data_vars obs))) ?vs"
    and tc: "''time'' \<in> set (map fst (coords obs))"
    and td: "list_ex (\<lambda>n. case map_of (data_vars obs) n of None \<Rightarrow> False
                    | Some a \<Rightarrow> ''time'' \<in> set (dims a)) ?vs"
    and nc: "list_all (\<lambda>n. n @ ''_obs'' \<notin> set (map fst (coords obs)) \<and>
                     n @ ''_pred'' \<notin> set (map fst (coords pred))) ?vs"
    by (simp_all add: mergeable_def)
  define selected where "selected = obs\<lparr>data_vars := map (\<lambda>n. (n, the (map_of (data_vars obs) n))) ?vs\<rparr>"
  have s: "select_vars obs (Some ?vs) = Inr selected"
    using has by (simp add: select_vars_def selected_def)
  have used: "list_ex (\<lambda>(n, a). ''time'' \<in> set (dims a)) (data_vars selected)"
  proof -
    from td obtain n where n: "n \<in> set ?vs"
      and d: "case map_of (data_vars obs) n of None \<Rightarrow> False | Some a \<Rightarrow> ''time'' \<in> set (dims a)"
      unfolding list_ex_iff by blast
    then have "''time'' \<in> set (dims (the (map_of (data_vars obs) n)))"
      by (simp split: option.splits)
    with n have "\<exists>x \<in> set (data_vars selected). case x of (n, a) \<Rightarrow> ''time'' \<in> set (dims a)"
      unfolding selected_def by force
    then show ?thesis unfolding list_ex_iff .
  qed
  from tc obtain ls where "(''time'', ls) \<in> set (coords obs)" by auto
  with used have "(''time'', ls) \<in> set (coords (only_used_coords selected))"
    by (simp add: only_used_coords_def selected_def)
  then have tu: "''time'' \<in> set (map fst (coords (only_used_coords selected)))" by force
  then obtain sliced where sl: "sel_time (hd t) (last t) (only_used_coords selected) = Inr sliced"
    by (simp add: sel_time_def)
  have names_sl: "map fst (data_vars sliced) = ?vs"
    using sel_time_result [OF sl] by (simp add: only_used_coords_vars selected_def comp_def split_def)
  have coords_sl: "set (map fst (coords sliced)) \<subseteq> set (map fst (coords obs))"
    using sel_time_result [OF sl] by (auto simp add: only_used_coords_def selected_def)
  have "\<not> list_ex (\<lambda>(n, a). n @ ''_obs'' \<in> set (map fst (coords sliced))) (data_vars sliced)"
  proof
    assume "list_ex (\<lambda>(n, a). n @ ''_obs'' \<in> set (map fst (coords sliced))) (data_vars sliced)"
    then obtain n a where "(n, a) \<in> set (data_vars sliced)"
      and c: "n @ ''_obs'' \<in> set (map fst (coords sliced))"
      unfolding list_ex_iff by auto
    then have "n \<in> set (map fst (data_vars sliced))" by force
    with names_sl have "n \<in> set ?vs" by simp
    with nc have "n @ ''_obs'' \<notin> set (map fst (coords obs))"
      unfolding list_all_iff by blast
    with c coords_sl show False by blast
  qed
  then obtain ds_obs where o: "rename_suffix ''_obs'' sliced = Inr ds_obs"
    by (simp add: rename_suffix_def)
  have "\<not> list_ex (\<lambda>(n, a). n @ ''_pred'' \<in> set (map fst (coords pred))) (data_vars pred)"
  proof
    assume "list_ex (\<lambda>(n, a). n @ ''_pred'' \<in> set (map fst (coords pred))) (data_vars pred)"
    then obtain n a where "(n, a) \<in> set (data_vars pred)"
      and c: "n @ ''_pred'' \<in> set (map fst (coords pred))"
      unfolding list_ex_iff by auto
    then have "n \<in> set ?vs" by force
    with nc have "n @ ''_pred'' \<notin> set (map fst (coords pred))"
      unfolding list_all_iff by blast
    with c show False by blast
  qed
  then obtain ds_pred where p: "rename_suffix ''_pred'' pred = Inr ds_pred"
    by (simp add: rename_suffix_def)
  have np: "map fst (data_vars ds_pred) = map (\<lambda>n. n @ ''_pred'') ?vs"
    using rename_suffix_names [OF p] by simp
  have no: "map fst (data_vars ds_obs) = map (\<lambda>n. n @ ''_obs'') ?vs"
    using rename_suffix_names [OF o] names_sl by simp
  have "\<not> list_ex (\<lambda>n. n \<in> set (map fst (data_vars ds_obs))) (map fst (data_vars ds_pred))"
    unfolding np no list_ex_iff using suffixes_differ by auto
  then obtain res where m: "merge flag ds_pred ds_obs = Inr res"
    by (simp add: merge_def)
  from py_index_nonempty [OF ne] t s sl o p m
  have "merge_observations_and_predictions obs pred flag = Inr res"
    by (simp add: merge_observations_and_predictions_def)
  then show ?thesis ..
qed

lemma merge_needs_observation_time:
  assumes "merge_observations_and_predictions obs pred flag = Inr res"
  shows "\<exists>s. time_of obs = Inr s"
proof -
  from merge_steps [OF assms] obtain t selected sliced where
    s: "select_vars obs (Some (map fst (data_vars pred))) = Inr selected" and
    sl: "sel_time (hd t) (last t) (only_used_coords selected) = Inr sliced"
    by auto
  note has = sel_time_has_time [OF sl]
  then have "map_of (coords (only_used_coords selected)) ''time'' \<noteq> None"
    using map_of_eq_None_iff [of "coords (only_used_coords selected)" "''time''"] by simp
  with only_used_coords_time [OF has] have "map_of (coords selected) ''time'' \<noteq> None"
    by simp
  with select_vars_result [OF s] have "map_of (coords obs) ''time'' \<noteq> None" by simp
  then show ?thesis by (auto simp add: time_of_Inr)
qed

text \<open>
  Claim C7.  A call of \<open>merge_observations_and_predictions\<close> that returns, returns a
  dataset whose variables are, for each variable of the prediction dataset, the variable
  \<open>name_pred\<close> and the variable \<open>name_obs\<close>, two different names, and no further variable.
  The time labels of the result are those of the prediction dataset when
  \<open>use_pred_timeframe\<close> is true, and those of the observation dataset otherwise.  The
  variable \<open>name_pred\<close> holds the predictions and \<open>name_obs\<close> the observations of that name
  between the first and the last time label of the timeframe, both laid out on the
  coordinates of the result.  (What is said of the observations between two time labels
  is said for time labels that increase.)  Variables of the observation dataset that
  the prediction dataset does not have are not considered: without them the call gives
  the same.  The call does return for datasets that can be merged.
\<close>

theorem merge_observations_and_predictions_result:
  "(merge_observations_and_predictions obs pred flag = Inr res \<longrightarrow>
      map fst (data_vars res) =
        map (\<lambda>n. n @ ''_pred'') (map fst (data_vars pred)) @
        map (\<lambda>n. n @ ''_obs'') (map fst (data_vars pred)) \<and>
      (distinct (map fst (data_vars pred)) \<longrightarrow> distinct (map fst (data_vars res))) \<and>
      (\<exists>t s. time_of (if flag then pred else obs) = Inr t \<and> t \<noteq> [] \<and>
           time_of obs = Inr s \<and>
           (flag \<or> sorted s \<longrightarrow> time_of res = Inr t) \<and>
           (sorted s \<longrightarrow>
              data_vars res =
                map (\<lambda>(n, a). (n @ ''_pred'', reindex (coords res) a)) (data_vars pred) @
                map (\<lambda>n. (n @ ''_obs'', reindex (coords res)
                             (arr_sel_time (hd t) (last t) (the (map_of (data_vars obs) n)))))
                  (map fst (data_vars pred))))) \<and>
   merge_observations_and_predictions
     (obs\<lparr>data_vars := filter (\<lambda>(n, a). n \<in> set (map fst (data_vars pred))) (data_vars obs)\<rparr>)
     pred flag
   = merge_observations_and_predictions obs pred flag \<and>
   (mergeable obs pred flag \<longrightarrow>
      (\<exists>r. merge_observations_and_predictions obs pred flag = Inr r))"
proof -
  have a: "map fst (data_vars res) =
        map (\<lambda>n. n @ ''_pred'') (map fst (data_vars pred)) @
        map (\<lambda>n. n @ ''_obs'') (map fst (data_vars pred)) \<and>
      (distinct (map fst (data_vars pred)) \<longrightarrow> distinct (map fst (data_vars res))) \<and>
      (\<exists>t s. time_of (if flag then pred else obs) = Inr t \<and> t \<noteq> [] \<and>
           time_of obs = Inr s \<and>
           (flag \<or> sorted s \<longrightarrow> time_of res = Inr t) \<and>
           (sorted s \<longrightarrow>
              data_vars res =
                map (\<lambda>(n, a). (n @ ''_pred'', reindex (coords res) a)) (data_vars pred) @
                map (\<lambda>n. (n @ ''_obs'', reindex (coords res)
                             (arr_sel_time (hd t) (last t) (the (map_of (data_vars obs) n)))))
                  (map fst (data_vars pred))))"
    if r: "merge_observations_and_predictions obs pred flag = Inr res"
  proof -
    from merge_steps [OF r] obtain t
      where t: "time_of (if flag then pred else obs) = Inr t" and ne: "t \<noteq> []"
      by auto
    from merge_needs_observation_time [OF r] obtain s where s: "time_of obs = Inr s" ..
    have names: "map fst (data_vars res) =
        map (\<lambda>n. n @ ''_pred'') (map fst (data_vars pred)) @
        map (\<lambda>n. n @ ''_obs'') (map fst (data_vars pred))"
      by (rule merge_result_names [OF r])
    have dist: "distinct (map fst (data_vars res))" if "distinct (map fst (data_vars pred))"
      unfolding names using that by (rule suffixed_names_distinct)
    have time: "time_of res = Inr (if flag then t else filter (in_slice (hd t) (last t)) t)"
      by (rule merge_result_time [OF r t])
    have all: "time_of res = Inr t" if "flag \<or> sorted s"
    proof (cases flag)
      case True
      with time show ?thesis by simp
    next
      case False
      with t s have "t = s" by simp
      with that False have "sorted t" by simp
      from time False sorted_slice_all [OF this] show ?thesis by simp
    qed
    note vars = merge_result_vars [OF r t]
    from names dist t ne s all vars show ?thesis by blast
  qed
  from a merge_ignores_other_variables [where obs = obs and pred = pred and flag = flag]
    mergeable_returns [where obs = obs and pred = pred and flag = flag]
  show ?thesis by blast
qed

theorem merge_observations_and_predictions_result_witness:
  "merge_observations_and_predictions observation_example prediction_example True
     = Inr merged_on_prediction_example \<and>
   merge_observations_and_predictions observation_example prediction_example False
     = Inr merged_on_observation_example \<and>
   mergeable observation_example prediction_example True \<and>
   mergeable observation_example prediction_example False \<and>
   map fst (data_vars prediction_example) = [''streamflow''] \<and>
   map fst (data_vars merged_on_prediction_example) = [''streamflow_pred'', ''streamflow_obs''] \<and>
   map fst (data_vars merged_on_observation_example) = [''streamflow_pred'', ''streamflow_obs''] \<and>
   time_of prediction_example = Inr [2, 3] \<and>
   time_of merged_on_prediction_example = Inr [2, 3] \<and>
   time_of observation_example = Inr [1, 2, 3, 4] \<and> sorted [1, 2, 3, 4 :: int] \<and>
   time_of merged_on_observation_example = Inr [1, 2, 3, 4]"
proof -
  have e1: "merge_observations_and_predictions observation_example prediction_example True
     = Inr merged_on_prediction_example"
    by (simp add: merge_observations_and_predictions_def time_of_def py_index_def
        select_vars_def only_used_coords_def sel_time_def arr_sel_time_def in_slice_def
        rename_suffix_def merge_def merged_coords_def reindex_def
        observation_example_def prediction_example_def merged_on_prediction_example_def)
  have e2: "merge_observations_and_predictions observation_example prediction_example False
     = Inr merged_on_observation_example"
    by (simp add: merge_observations_and_predictions_def time_of_def py_index_def
        select_vars_def only_used_coords_def sel_time_def arr_sel_time_def in_slice_def
        rename_suffix_def merge_def merged_coords_def reindex_def
        observation_example_def prediction_example_def merged_on_observation_example_def)
  have m1: "mergeable observation_example prediction_example True"
    by (simp add: mergeable_def indexed_def observation_example_def prediction_example_def)
  have m2: "mergeable observation_example prediction_example False"
    by (simp add: mergeable_def indexed_def observation_example_def prediction_example_def)
  have p: "map fst (data_vars prediction_example) = [''streamflow'']"
    by (simp add: prediction_example_def)
  have tp: "time_of prediction_example = Inr [2, 3]"
    by (simp add: time_of_def prediction_example_def)
  have tob: "time_of observation_example = Inr [1, 2, 3, 4]"
    by (simp add: time_of_def observation_example_def)
  have so: "sorted [1, 2, 3, 4 :: int]" by simp
  from merge_observations_and_predictions_result [where obs = observation_example
      and pred = prediction_example and flag = True and res = merged_on_prediction_example] e1
  have n1: "map fst (data_vars merged_on_prediction_example) =
        map (\<lambda>n. n @ ''_pred'') (map fst (data_vars prediction_example)) @
        map (\<lambda>n. n @ ''_obs'') (map fst (data_vars prediction_example))"
    and "\<exists>t s. time_of (if True then prediction_example else observation_example) = Inr t \<and>
           time_of observation_example = Inr s \<and>
           (True \<or> sorted s \<longrightarrow> time_of merged_on_prediction_example = Inr t)"
    by blast+
  with tp have t1: "time_of merged_on_prediction_example = Inr [2, 3]" by simp
  from merge_observations_and_predictions_result [where obs = observation_example
      and pred = prediction_example and flag = False and res = merged_on_observation_example] e2
  have n2: "map fst (data_vars merged_on_observation_example) =
        map (\<lambda>n. n @ ''_pred'') (map fst (data_vars prediction_example)) @
        map (\<lambda>n. n @ ''_obs'') (map fst (data_vars prediction_example))"
    and "\<exists>t s. time_of (if False then prediction_example else observation_example) = Inr t \<and>
           time_of observation_example = Inr s \<and>
           (False \<or> sorted s \<longrightarrow> time_of merged_on_observation_example = Inr t)"
    by blast+
  with tob so have t2: "time_of merged_on_observation_example = Inr [1, 2, 3, 4]" by auto
  from n1 p have n1': "map fst (data_vars merged_on_prediction_example)
      = [''streamflow_pred'', ''streamflow_obs'']" by simp
  from n2 p have n2': "map fst (data_vars merged_on_observation_example)
      = [''streamflow_pred'', ''streamflow_obs'']" by simp
  from e1 e2 m1 m2 p n1' n2' tp t1 tob so t2 show ?thesis by blast
qed

end
